(* ===== verification/KD_Prelude.thy ===== *)
theory KD_Prelude
  imports Main "HOL-Library.Word"
begin

text \<open>
  Shared vocabulary of the development: machine integers, the ways a C computation can stop
  without a result, state-passing programs and their sequencing, bounds-checked static arrays,
  \<open>strstr\<close>, reachable states of a step relation, and two contracts that several components
  share (an inductive invariant, and a patch that an unpatch takes back).
\<close>

unbundle bit_operations_syntax

section \<open>Machine integers\<close>

type_synonym u8 = "8 word"
type_synonym u16 = "16 word"
type_synonym u32 = "32 word"
type_synonym u64 = "64 word"

lemma unat_u32_less: "unat (x :: u32) < 2 ^ 32"
  by (rule less_le_trans [OF unsigned_less]) simp

lemma unat_u64_less: "unat (x :: u64) < 2 ^ 64"
  by (rule less_le_trans [OF unsigned_less]) simp

lemma unat_ucast_mod:
  "unat (ucast (x :: 'a::len word) :: 'b::len word) = unat x mod 2 ^ LENGTH('b)"
  by (simp add: unsigned_ucast_eq take_bit_eq_mod)

lemma unat_ucast_32_64: "unat (ucast (x :: u32) :: u64) = unat x"
proof -
  have "unat x < 2 ^ 64" using unat_u32_less [of x] by simp
  then show ?thesis by (simp add: unat_ucast_mod)
qed

text \<open>Kernel errno values the code returns (negated).\<close>

definition EINVAL :: int where "EINVAL = 22"
definition ENODEV :: int where "ENODEV = 19"
definition EBUSY :: int where "EBUSY = 16"
definition EFAULT :: int where "EFAULT = 14"

lemma ENODEV_nonzero [simp]: "ENODEV \<noteq> 0" "EINVAL \<noteq> 0"
  by (simp_all add: ENODEV_def EINVAL_def)

section \<open>Computations that may stop\<close>

text \<open>
  A C function returns normally or stops: it loops for ever, divides by zero, follows a null
  pointer, indexes outside an array, or shifts by at least the width of its operand (the last
  three are undefined behaviour; the model makes them an outcome of their own).
\<close>

datatype stop = Diverges | DivByZero | NullDeref | OutOfBounds | BadShift

type_synonym 'a res = "stop + 'a"

type_synonym ('s, 'a) kprog = "'s \<Rightarrow> (stop + 'a \<times> 's)"

definition retk :: "'a \<Rightarrow> ('s, 'a) kprog" where
  "retk x s = Inr (x, s)"

definition stopk :: "stop \<Rightarrow> ('s, 'a) kprog" where
  "stopk e s = Inl e"

definition bindk :: "('s, 'a) kprog \<Rightarrow> ('a \<Rightarrow> ('s, 'b) kprog) \<Rightarrow> ('s, 'b) kprog" where
  "bindk m f s = (case m s of Inl e \<Rightarrow> Inl e | Inr (x, s') \<Rightarrow> f x s')"

definition seqk :: "('s, 'a) kprog \<Rightarrow> ('s, 'b) kprog \<Rightarrow> ('s, 'b) kprog" where
  "seqk m n = bindk m (\<lambda>_. n)"

definition readk :: "('s \<Rightarrow> 'a) \<Rightarrow> ('s, 'a) kprog" where
  "readk f s = Inr (f s, s)"

definition modk :: "('s \<Rightarrow> 's) \<Rightarrow> ('s, unit) kprog" where
  "modk f s = Inr ((), f s)"

text \<open>A result that is already computed, as a program that leaves the state alone.\<close>

definition liftk :: "'a res \<Rightarrow> ('s, 'a) kprog" where
  "liftk r s = (case r of Inl e \<Rightarrow> Inl e | Inr x \<Rightarrow> Inr (x, s))"

text \<open>Following a pointer: \<open>None\<close> is the null pointer.\<close>

definition derefk :: "'a option \<Rightarrow> ('s, 'a) kprog" where
  "derefk p = (case p of None \<Rightarrow> stopk NullDeref | Some x \<Rightarrow> retk x)"

fun for_eachk :: "'a list \<Rightarrow> ('a \<Rightarrow> ('s, unit) kprog) \<Rightarrow> ('s, unit) kprog" where
  "for_eachk [] f = retk ()"
| "for_eachk (x # xs) f = seqk (f x) (for_eachk xs f)"

definition doallk :: "('s, unit) kprog list \<Rightarrow> ('s, unit) kprog" where
  "doallk ms = for_eachk ms (\<lambda>m. m)"

named_theorems kprog_simps \<open>evaluation of state-passing programs\<close>

lemma retk_apply [kprog_simps]: "retk x s = Inr (x, s)"
  by (simp add: retk_def)

lemma stopk_apply [kprog_simps]: "stopk e s = Inl e"
  by (simp add: stopk_def)

lemma readk_apply [kprog_simps]: "readk f s = Inr (f s, s)"
  by (simp add: readk_def)

lemma modk_apply [kprog_simps]: "modk f s = Inr ((), f s)"
  by (simp add: modk_def)

lemma liftk_Inr [kprog_simps]: "liftk (Inr x) s = Inr (x, s)"
  by (simp add: liftk_def)

lemma liftk_Inl [kprog_simps]: "liftk (Inl e) s = Inl e"
  by (simp add: liftk_def)

lemma derefk_None [kprog_simps]: "derefk None s = Inl NullDeref"
  by (simp add: derefk_def stopk_def)

lemma derefk_Some [kprog_simps]: "derefk (Some x) s = Inr (x, s)"
  by (simp add: derefk_def retk_def)

lemma bindk_Inr [kprog_simps]: "m s = Inr (x, s') \<Longrightarrow> bindk m f s = f x s'"
  by (simp add: bindk_def)

lemma bindk_Inl [kprog_simps]: "m s = Inl e \<Longrightarrow> bindk m f s = Inl e"
  by (simp add: bindk_def)

lemma seqk_Inr [kprog_simps]: "m s = Inr (x, s') \<Longrightarrow> seqk m n s = n s'"
  by (simp add: seqk_def bindk_def)

lemma seqk_Inl [kprog_simps]: "m s = Inl e \<Longrightarrow> seqk m n s = Inl e"
  by (simp add: seqk_def bindk_def)

lemma doallk_Nil [kprog_simps]: "doallk [] s = Inr ((), s)"
  by (simp add: doallk_def retk_def)

lemma doallk_Cons [kprog_simps]: "doallk (m # ms) s = seqk m (doallk ms) s"
  by (simp add: doallk_def)

lemma bindk_Inr_iff:
  "bindk m f s = Inr r \<longleftrightarrow> (\<exists>x s'. m s = Inr (x, s') \<and> f x s' = Inr r)"
  by (auto simp: bindk_def split: sum.splits prod.splits)

lemma seqk_Inr_iff:
  "seqk m n s = Inr r \<longleftrightarrow> (\<exists>x s'. m s = Inr (x, s') \<and> n s' = Inr r)"
  by (simp add: seqk_def bindk_Inr_iff)

lemma liftk_Inr_iff: "liftk m s = Inr (x, s') \<longleftrightarrow> m = Inr x \<and> s' = s"
  by (auto simp: liftk_def split: sum.splits)

lemma derefk_Inr_iff: "derefk p s = Inr (x, s') \<longleftrightarrow> p = Some x \<and> s' = s"
  by (auto simp: derefk_def kprog_simps split: option.splits)

lemma for_eachk_append:
  "for_eachk (xs @ ys) f s = seqk (for_eachk xs f) (for_eachk ys f) s"
  by (induction xs arbitrary: s)
     (auto simp: seqk_def bindk_def retk_def split: sum.splits prod.splits)

text \<open>A loop whose body always succeeds as a state update is a fold of that update.\<close>

lemma for_eachk_fold:
  assumes "\<And>x s. x \<in> set xs \<Longrightarrow> f x s = Inr ((), g x s)"
  shows "for_eachk xs f s = Inr ((), fold g xs s)"
  using assms by (induction xs arbitrary: s) (auto simp: retk_def seqk_def bindk_def)

text \<open>An invariant of the body that also excludes stopping is one of the whole loop.\<close>

lemma for_eachk_inv:
  assumes "\<And>x s. x \<in> set xs \<Longrightarrow> P s \<Longrightarrow> \<exists>s'. f x s = Inr ((), s') \<and> P s'"
    and "P s"
  shows "\<exists>s'. for_eachk xs f s = Inr ((), s') \<and> P s'"
  using assms
proof (induction xs arbitrary: s)
  case Nil
  then show ?case by (simp add: retk_def)
next
  case (Cons x xs)
  from Cons.prems(1) [of x s] Cons.prems(2) obtain s1 where
    s1: "f x s = Inr ((), s1)" "P s1" by auto
  from Cons.prems(1) have "\<And>y t. y \<in> set xs \<Longrightarrow> P t \<Longrightarrow> \<exists>s'. f y t = Inr ((), s') \<and> P s'"
    by simp
  from Cons.IH [OF this s1(2)] obtain s2 where
    "for_eachk xs f s1 = Inr ((), s2)" "P s2" by auto
  with s1(1) show ?case by (simp add: seqk_def bindk_def)
qed

section \<open>Static arrays\<close>

text \<open>A C array of fixed length indexed by a signed \<open>int\<close>; outside the bounds is undefined.\<close>

definition arr_get :: "'a list \<Rightarrow> int \<Rightarrow> 'a res" where
  "arr_get xs i = (if 0 \<le> i \<and> i < int (length xs) then Inr (xs ! nat i) else Inl OutOfBounds)"

definition arr_set :: "'a list \<Rightarrow> int \<Rightarrow> 'a \<Rightarrow> 'a list res" where
  "arr_set xs i v =
     (if 0 \<le> i \<and> i < int (length xs) then Inr (xs[nat i := v]) else Inl OutOfBounds)"

lemma arr_get_in [simp]:
  "0 \<le> i \<Longrightarrow> i < int (length xs) \<Longrightarrow> arr_get xs i = Inr (xs ! nat i)"
  by (simp add: arr_get_def)

lemma arr_set_in [simp]:
  "0 \<le> i \<Longrightarrow> i < int (length xs) \<Longrightarrow> arr_set xs i v = Inr (xs[nat i := v])"
  by (simp add: arr_set_def)

lemma arr_get_out [simp]:
  "i < 0 \<or> int (length xs) \<le> i \<Longrightarrow> arr_get xs i = Inl OutOfBounds"
  by (auto simp: arr_get_def)

section \<open>CPU masks\<close>

text \<open>\<open>1 << c\<close> on a 32-bit \<open>int\<close>, undefined from 32 on.\<close>

definition shift_1 :: "nat \<Rightarrow> u32 res" where
  "shift_1 c = (if c < 32 then Inr (push_bit c 1) else Inl BadShift)"

section \<open>C strings\<close>

text \<open>\<open>strstr\<close>: the suffix of the haystack that starts at the first occurrence.\<close>

fun strstr :: "string \<Rightarrow> string \<Rightarrow> string option" where
  "strstr [] n = (if n = [] then Some [] else None)"
| "strstr (c # cs) n = (if take (length n) (c # cs) = n then Some (c # cs) else strstr cs n)"

lemma strstr_iff: "strstr h n \<noteq> None \<longleftrightarrow> (\<exists>us vs. h = us @ n @ vs)"
proof (induction h)
  case Nil
  then show ?case by simp
next
  case (Cons c cs)
  show ?case
  proof (cases "take (length n) (c # cs) = n")
    case True
    then have "c # cs = [] @ n @ drop (length n) (c # cs)"
      by (metis append_Nil append_take_drop_id)
    with True show ?thesis by (metis option.distinct(1) strstr.simps(2))
  next
    case False
    have "(\<exists>us vs. c # cs = us @ n @ vs) \<longleftrightarrow> (\<exists>us vs. cs = us @ n @ vs)"
    proof
      assume "\<exists>us vs. c # cs = us @ n @ vs"
      then obtain us vs where eq: "c # cs = us @ n @ vs" by blast
      with False have "us \<noteq> []" by auto
      then obtain u us' where "us = u # us'" by (cases us) auto
      with eq show "\<exists>us vs. cs = us @ n @ vs" by auto
    next
      assume "\<exists>us vs. cs = us @ n @ vs"
      then obtain us vs where "cs = us @ n @ vs" by blast
      then have "c # cs = (c # us) @ n @ vs" by simp
      then show "\<exists>us vs. c # cs = us @ n @ vs" by blast
    qed
    with False Cons.IH show ?thesis by (simp only: strstr.simps if_False)
  qed
qed

section \<open>Reachable states and invariants\<close>

inductive reach :: "('s \<Rightarrow> bool) \<Rightarrow> ('s \<Rightarrow> 's \<Rightarrow> bool) \<Rightarrow> 's \<Rightarrow> bool"
  for start :: "'s \<Rightarrow> bool" and step :: "'s \<Rightarrow> 's \<Rightarrow> bool" where
  reach_start: "start s \<Longrightarrow> reach start step s"
| reach_step: "reach start step s \<Longrightarrow> step s t \<Longrightarrow> reach start step t"

text \<open>The contract of an inductive invariant: it holds at the start and each step keeps it.\<close>

locale invariant_system =
  fixes start :: "'s \<Rightarrow> bool"
    and step :: "'s \<Rightarrow> 's \<Rightarrow> bool"
    and inv :: "'s \<Rightarrow> bool"
  assumes inv_start: "start s \<Longrightarrow> inv s"
    and inv_step: "inv s \<Longrightarrow> step s t \<Longrightarrow> inv t"
begin

lemma reach_inv: "reach start step s \<Longrightarrow> inv s"
  by (induction rule: reach.induct) (auto intro: inv_start inv_step)

end

section \<open>Patches that can be taken back\<close>

text \<open>
  Several components replace a kernel pointer, remember the old one and later put it back.
  Their contract: where patching \<open>k\<close> is allowed it succeeds, unpatching \<open>k\<close> right after restores
  the state, and it leaves an independent \<open>k'\<close> as patchable as it was. Then any sequence of
  independent patches is undone by the unpatches in reverse order.
\<close>

locale patching =
  fixes ok :: "'k \<Rightarrow> 's \<Rightarrow> bool"
    and indep :: "'k \<Rightarrow> 'k \<Rightarrow> bool"
    and patch :: "'k \<Rightarrow> ('s, unit) kprog"
    and unpatch :: "'k \<Rightarrow> ('s, unit) kprog"
  assumes patch_unpatch: "ok k s \<Longrightarrow> \<exists>s'. patch k s = Inr ((), s') \<and> unpatch k s' = Inr ((), s)"
    and patch_indep: "ok k s \<Longrightarrow> ok k' s \<Longrightarrow> indep k k' \<Longrightarrow> patch k s = Inr ((), s') \<Longrightarrow> ok k' s'"
begin

lemma patch_all:
  assumes "sorted_wrt indep ks" and "\<And>k. k \<in> set ks \<Longrightarrow> ok k s"
  shows "\<exists>s'. for_eachk ks patch s = Inr ((), s') \<and> for_eachk (rev ks) unpatch s' = Inr ((), s)"
  using assms
proof (induction ks arbitrary: s)
  case Nil
  then show ?case by (simp add: retk_def)
next
  case (Cons k ks)
  from Cons.prems(2) have "ok k s" by simp
  then obtain s1 where s1: "patch k s = Inr ((), s1)" "unpatch k s1 = Inr ((), s)"
    using patch_unpatch by blast
  have "ok k' s1" if "k' \<in> set ks" for k'
    using patch_indep [OF \<open>ok k s\<close> _ _ s1(1), of k'] Cons.prems that by simp
  then obtain s' where s': "for_eachk ks patch s1 = Inr ((), s')"
      "for_eachk (rev ks) unpatch s' = Inr ((), s1)"
    using Cons.IH [of s1] Cons.prems(1) by auto
  then have "for_eachk (rev (k # ks)) unpatch s' = Inr ((), s)"
    using s1(2) by (simp add: for_eachk_append seqk_def bindk_def retk_def)
  moreover have "for_eachk (k # ks) patch s = Inr ((), s')"
    using s1(1) s'(1) by (simp add: seqk_def bindk_def)
  ultimately show ?case by blast
qed

end

section \<open>What a program leaves alone\<close>

text \<open>
  A frame relation relates two states that agree on some part; a program keeps it when every
  result it returns is related to its start. The rules follow the program's structure.
\<close>

definition keeps :: "('s \<Rightarrow> 's \<Rightarrow> bool) \<Rightarrow> ('s, 'a) kprog \<Rightarrow> bool" where
  "keeps R m \<longleftrightarrow> (\<forall>s x s'. m s = Inr (x, s') \<longrightarrow> R s s')"

lemma keepsI: "(\<And>s x s'. m s = Inr (x, s') \<Longrightarrow> R s s') \<Longrightarrow> keeps R m"
  by (simp add: keeps_def)

lemma keepsD: "keeps R m \<Longrightarrow> m s = Inr (x, s') \<Longrightarrow> R s s'"
  by (simp add: keeps_def)

locale frame_relation =
  fixes R :: "'s \<Rightarrow> 's \<Rightarrow> bool"
  assumes frame_refl: "R s s"
    and frame_trans: "R s t \<Longrightarrow> R t u \<Longrightarrow> R s u"
begin

lemma keeps_retk: "keeps R (retk x)"
  by (simp add: keeps_def retk_def frame_refl)

lemma keeps_stopk: "keeps R (stopk e)"
  by (simp add: keeps_def stopk_def)

lemma keeps_readk: "keeps R (readk f)"
  by (simp add: keeps_def readk_def frame_refl)

lemma keeps_liftk: "keeps R (liftk m)"
  by (simp add: keeps_def liftk_Inr_iff frame_refl)

lemma keeps_derefk: "keeps R (derefk p)"
  by (simp add: keeps_def derefk_Inr_iff frame_refl)

lemma keeps_modk: "(\<And>s. R s (f s)) \<Longrightarrow> keeps R (modk f)"
  by (simp add: keeps_def modk_def)

lemma keeps_bindk: "keeps R m \<Longrightarrow> (\<And>x. keeps R (f x)) \<Longrightarrow> keeps R (bindk m f)"
  unfolding keeps_def bindk_Inr_iff by (blast intro: frame_trans)

lemma keeps_seqk: "keeps R m \<Longrightarrow> keeps R n \<Longrightarrow> keeps R (seqk m n)"
  unfolding keeps_def seqk_Inr_iff by (blast intro: frame_trans)

lemma keeps_for_eachk: "(\<And>x. keeps R (f x)) \<Longrightarrow> keeps R (for_eachk xs f)"
  by (induction xs) (simp_all add: keeps_retk keeps_seqk)

lemma keeps_doallk: "list_all (keeps R) ms \<Longrightarrow> keeps R (doallk ms)"
  unfolding doallk_def by (induction ms) (simp_all add: keeps_retk keeps_seqk)

lemma keeps_if: "(b \<Longrightarrow> keeps R m) \<Longrightarrow> (\<not> b \<Longrightarrow> keeps R n) \<Longrightarrow> keeps R (if b then m else n)"
  by simp

lemma keeps_option:
  "keeps R m \<Longrightarrow> (\<And>x. keeps R (f x)) \<Longrightarrow> keeps R (case v of None \<Rightarrow> m | Some x \<Rightarrow> f x)"
  by (simp split: option.split)

lemmas keeps_rules = keeps_retk keeps_stopk keeps_readk keeps_liftk keeps_derefk keeps_modk
  keeps_bindk keeps_seqk keeps_for_eachk keeps_if keeps_option

end

end
