(* ===== verification/KD_Kernel.thy ===== *)
theory KD_Kernel
  imports KD_Prelude
begin

text \<open>
  The boundary between KeyDrown's first layer and the Linux kernel. Kernel functions are not
  part of the sources: a call to one is recorded, with its arguments, in the call log of the
  state (\<open>klog\<close>), and what it returns is a parameter (\<open>kenv\<close>, the environment). Kernel data
  that KeyDrown itself reads and writes through pointers, the interrupt descriptors, is part of
  the state, with the fields the code uses.
\<close>

section \<open>Kernel objects named by the code\<close>

text \<open>A kernel address as the code handles it; 0 is the null pointer.\<close>

type_synonym addr = u64

text \<open>
  An interrupt flow handler: one of the two that KeyDrown defines, or some other function of
  the kernel. The pointer to one is an \<open>option\<close>, with \<open>None\<close> for null.
\<close>

datatype flow_handler = KbHookHandler | TouchscreenHookHandler | OtherHandler nat

text \<open>The fields of \<open>struct irq_desc\<close> that the code reads or writes. A CPU mask is a number
  with bit \<open>c\<close> set for CPU \<open>c\<close>.\<close>

record irq_desc =
  handle_irq :: "flow_handler option"
  irqs_unhandled :: u32
  has_action :: bool
  common_affinity :: "nat option"
  affinity_hint :: "nat option"
  affinity_pending :: bool
  pending_mask :: "nat option"
  desc_kstat :: "(nat \<Rightarrow> u32) option"

text \<open>\<open>struct i8042_port\<close> of the i8042 driver, as \<open>8042.c\<close> declares it.\<close>

record i8042_port =
  serio :: addr
  port_irq :: int
  port_exists :: bool
  driver_bound :: bool
  mux :: int

datatype timer_id = MainTimer | FakeTimer

text \<open>The time \<open>ktime_set(secs, nsecs)\<close>.\<close>

datatype ktime = KtimeSet (ktime_secs: int) (ktime_nsecs: nat)

datatype tasklet_id = KbPressNotify | KbReleaseNotify | TsTapNotify | TsReleaseNotify

text \<open>One recorded call of a kernel function, or one machine access the code makes itself.\<close>

datatype kcall =
    HrtimerInit timer_id
  | HrtimerStart timer_id ktime
  | HrtimerCancel timer_id
  | HrtimerForwardNow timer_id ktime
  | Udelay u32
  | CallFlowHandler flow_handler
  | SerioInterrupt addr u8
  | SmpCallInject nat
  | IntInstruction int
  | TaskletSchedule tasklet_id
  | InstallFilter
  | RemoveFilter
  | Vmalloc addr
  | Vfree addr
  | PrefetchTouch addr
  | ProcCreate bool
  | ProcRemove
  | PrintPlugin string
  | InputEvent addr u32 u32 int
  | InputMtSlot addr int
  | InputMtReportSlotState addr u32 bool
  | InputReportKey addr u32 int
  | InputReportAbs addr u32 int
  | InputSync addr
  | HandlerEvent addr u32 u32 int
  | Writel u32 addr
  | Writel64 u64 addr
  | MsmGpioSet addr u32 int

section \<open>State and environment\<close>

record kernel =
  klog :: "kcall list"
  entropy_pos :: nat
  alloc_pos :: nat
  descs :: "int \<Rightarrow> irq_desc option"

text \<open>
  What the kernel answers: the words \<open>get_random_bytes_arch\<close> delivers one after the other, the
  addresses of symbols (0 when unknown), the results of successive \<open>vmalloc\<close> calls (0 for
  failure), the CPUs that are possible and online, the i8042 driver's ports, what installing the
  keyboard filter returns, where KeyDrown's own functions are loaded, and the configuration the
  preprocessor selects on.
\<close>

record kenv =
  entropy :: "nat \<Rightarrow> u32"
  kallsyms_lookup_name :: "string \<Rightarrow> addr"
  vmalloc_result :: "nat \<Rightarrow> addr"
  possible_cpus :: "nat list"
  online_cpus :: "nat list"
  i8042_ports :: "i8042_port list"
  i8042_install_filter_result :: int
  own_code_addr :: "string \<Rightarrow> addr"
  sizeof_size_t :: nat
  linux_version_code :: nat
  arch_x86 :: bool

definition kernel_version :: "nat \<Rightarrow> nat \<Rightarrow> nat \<Rightarrow> nat" where
  "kernel_version a b c = a * 65536 + b * 256 + c"

definition emit :: "kcall \<Rightarrow> ('a kernel_scheme, unit) kprog" where
  "emit c = modk (\<lambda>s. s\<lparr>klog := klog s @ [c]\<rparr>)"

definition vmalloc :: "kenv \<Rightarrow> ('a kernel_scheme, addr) kprog" where
  "vmalloc env s =
     (let p = vmalloc_result env (alloc_pos s)
      in Inr (p, s\<lparr>alloc_pos := Suc (alloc_pos s), klog := klog s @ [Vmalloc p]\<rparr>))"

text \<open>The kernel has memory for every allocation.\<close>

definition memory_ok :: "kenv \<Rightarrow> bool" where
  "memory_ok env \<longleftrightarrow> (\<forall>n. vmalloc_result env n \<noteq> 0)"

definition irq_to_desc :: "int \<Rightarrow> 'a kernel_scheme \<Rightarrow> irq_desc option" where
  "irq_to_desc irq s = descs s irq"

text \<open>Updating a descriptor through its pointer.\<close>

definition upd_desc :: "int \<Rightarrow> (irq_desc \<Rightarrow> irq_desc) \<Rightarrow> 'a kernel_scheme \<Rightarrow> 'a kernel_scheme" where
  "upd_desc irq f s = s\<lparr>descs := (descs s)(irq := map_option f (descs s irq))\<rparr>"

lemma emit_apply [kprog_simps]: "emit c s = Inr ((), s\<lparr>klog := klog s @ [c]\<rparr>)"
  by (simp add: emit_def modk_def)

lemma upd_desc_other [simp]: "j \<noteq> i \<Longrightarrow> descs (upd_desc i f s) j = descs s j"
  by (simp add: upd_desc_def)

lemma upd_desc_same [simp]: "descs (upd_desc i f s) i = map_option f (descs s i)"
  by (simp add: upd_desc_def)

lemma upd_desc_klog [simp]: "klog (upd_desc i f s) = klog s"
  by (simp add: upd_desc_def)

lemma doallk_emit:
  "doallk (map emit cs) s = Inr ((), s\<lparr>klog := klog s @ cs\<rparr>)"
  by (induction cs arbitrary: s) (simp_all add: kprog_simps)

end
