(* ===== verification/KD_Random.thy ===== *)
theory KD_Random
  imports KD_Kernel
begin

text \<open>
  \<open>source/random.c\<close>: uniform random numbers by rejection sampling. The entropy source is the
  sequence of 32-bit words that successive calls of \<open>get_random_bytes_arch\<close> store; a position
  in it is the state.
\<close>

section \<open>Definitions\<close>

text \<open>The \<open>do ... while (rawRand >= randTruncation)\<close> loop; \<open>None\<close> when it never ends.\<close>

partial_function (option) get_random_loop ::
  "(nat \<Rightarrow> u32) \<Rightarrow> u32 \<Rightarrow> nat \<Rightarrow> (u32 \<times> nat) option" where
  "get_random_loop src randTruncation pos =
     (let rawRand = src pos
      in if rawRand \<ge> randTruncation
         then get_random_loop src randTruncation (Suc pos)
         else Some (rawRand, Suc pos))"

definition rand_truncation :: "u32 \<Rightarrow> u32" where
  "rand_truncation N =
     (let tmp = push_bit 32 (1 :: u64);
          tmp = tmp div ucast N
      in ucast (tmp * ucast N))"

definition get_random :: "(nat \<Rightarrow> u32) \<Rightarrow> u32 \<Rightarrow> u32 \<Rightarrow> nat \<Rightarrow> (u32 \<times> nat) res" where
  "get_random src low high pos =
     (let N = high - low + 1
      in if N = 0 then Inl DivByZero
         else (case get_random_loop src (rand_truncation N) pos of
                 None \<Rightarrow> Inl Diverges
               | Some (rawRand, pos') \<Rightarrow> Inr (rawRand mod N + low, pos')))"

text \<open>The same function on a kernel state, whose entropy position it advances.\<close>

definition get_randomk :: "kenv \<Rightarrow> u32 \<Rightarrow> u32 \<Rightarrow> ('a kernel_scheme, u32) kprog" where
  "get_randomk env low high s =
     (case get_random (entropy env) low high (entropy_pos s) of
        Inl e \<Rightarrow> Inl e
      | Inr (r, pos) \<Rightarrow> Inr (r, s\<lparr>entropy_pos := pos\<rparr>))"

section \<open>The loop\<close>

lemma get_random_loop_reject:
  "src pos \<ge> t \<Longrightarrow> get_random_loop src t pos = get_random_loop src t (Suc pos)"
  by (subst get_random_loop.simps) (simp add: Let_def)

lemma get_random_loop_accept:
  "src pos < t \<Longrightarrow> get_random_loop src t pos = Some (src pos, Suc pos)"
  by (subst get_random_loop.simps) (auto simp: Let_def dest: leD)

text \<open>If a draw is accepted at all, the loop returns the first accepted one.\<close>

lemma get_random_loop_first:
  assumes "src (pos + k) < t" and "\<And>j. j < k \<Longrightarrow> t \<le> src (pos + j)"
  shows "get_random_loop src t pos = Some (src (pos + k), Suc (pos + k))"
  using assms
proof (induction k arbitrary: pos)
  case 0
  then show ?case by (simp add: get_random_loop_accept)
next
  case (Suc k)
  from Suc.prems(2) [of 0] have "get_random_loop src t pos = get_random_loop src t (Suc pos)"
    by (simp add: get_random_loop_reject)
  moreover have "get_random_loop src t (Suc pos) = Some (src (Suc pos + k), Suc (Suc pos + k))"
  proof (rule Suc.IH)
    show "src (Suc pos + k) < t" using Suc.prems(1) by simp
    show "t \<le> src (Suc pos + j)" if "j < k" for j
      using Suc.prems(2) [of "Suc j"] that by simp
  qed
  ultimately show ?case by simp
qed

text \<open>A returned word was accepted, and every word drawn before it was rejected.\<close>

lemma get_random_loop_SomeD:
  assumes "get_random_loop src t pos = Some r"
  shows "\<exists>k. r = (src (pos + k), Suc (pos + k)) \<and> src (pos + k) < t
             \<and> (\<forall>j<k. t \<le> src (pos + j))"
proof (rule get_random_loop.raw_induct
    [where P = "\<lambda>src t pos r. \<exists>k. r = (src (pos + k), Suc (pos + k)) \<and> src (pos + k) < t
             \<and> (\<forall>j<k. t \<le> src (pos + j))", OF _ assms])
  fix f :: "(nat \<Rightarrow> u32) \<Rightarrow> u32 \<Rightarrow> nat \<Rightarrow> (u32 \<times> nat) option" and src t pos r
  assume IH: "\<And>src t pos r. f src t pos = Some r \<Longrightarrow>
      \<exists>k. r = (src (pos + k), Suc (pos + k)) \<and> src (pos + k) < t \<and> (\<forall>j<k. t \<le> src (pos + j))"
    and eq: "(let rawRand = src pos in if t \<le> rawRand then f src t (Suc pos)
              else Some (rawRand, Suc pos)) = Some r"
  show "\<exists>k. r = (src (pos + k), Suc (pos + k)) \<and> src (pos + k) < t \<and> (\<forall>j<k. t \<le> src (pos + j))"
  proof (cases "t \<le> src pos")
    case True
    with eq have "f src t (Suc pos) = Some r" by (simp add: Let_def)
    from IH [OF this] obtain k where
      k: "r = (src (Suc pos + k), Suc (Suc pos + k))" "src (Suc pos + k) < t"
         "\<forall>j<k. t \<le> src (Suc pos + j)" by blast
    have "\<forall>j<Suc k. t \<le> src (pos + j)"
    proof (intro allI impI)
      fix j assume "j < Suc k"
      then show "t \<le> src (pos + j)"
        using True k(3) by (cases j) auto
    qed
    with k(1,2) show ?thesis by (intro exI [of _ "Suc k"]) simp
  next
    case False
    with eq have "r = (src pos, Suc pos)" by (simp add: Let_def)
    with False show ?thesis by (intro exI [of _ 0]) simp
  qed
qed

lemma get_random_loop_returns_iff:
  "(\<exists>r. get_random_loop src t pos = Some r) \<longleftrightarrow> (\<exists>k. src (pos + k) < t)"
proof
  assume "\<exists>r. get_random_loop src t pos = Some r"
  then show "\<exists>k. src (pos + k) < t" using get_random_loop_SomeD by blast
next
  assume ex: "\<exists>k. src (pos + k) < t"
  define k where "k = (LEAST k. src (pos + k) < t)"
  have "src (pos + k) < t" unfolding k_def by (rule LeastI_ex [OF ex])
  moreover have "\<And>j. j < k \<Longrightarrow> t \<le> src (pos + j)"
    unfolding k_def using not_less_Least not_le by blast
  ultimately show "\<exists>r. get_random_loop src t pos = Some r"
    using get_random_loop_first by blast
qed

section \<open>The acceptance bound\<close>

lemma unat_rand_truncation:
  assumes "N \<noteq> 0"
  shows "unat (rand_truncation N) = (2 ^ 32 div unat N * unat N) mod 2 ^ 32"
proof -
  let ?n = "unat N"
  have n: "?n < 2 ^ 32" by (rule unat_u32_less)
  have uN: "unat (ucast N :: u64) = ?n" by (rule unat_ucast_32_64)
  have q: "unat (push_bit 32 (1 :: u64) div ucast N) = 2 ^ 32 div ?n"
    by (simp add: unat_div uN push_bit_eq_mult)
  have le: "2 ^ 32 div ?n * ?n \<le> (2::nat) ^ 32" by (rule div_times_less_eq_dividend)
  then have lt64: "2 ^ 32 div ?n * ?n < (2::nat) ^ 64" by (rule le_less_trans) simp
  have "unat (push_bit 32 (1 :: u64) div ucast N * ucast N) = 2 ^ 32 div ?n * ?n"
    using unat_mult_lem [of "push_bit 32 (1 :: u64) div ucast N" "ucast N"] lt64
    unfolding q uN by simp
  then show ?thesis
    by (simp add: rand_truncation_def unat_ucast_mod)
qed

text \<open>
  When the range size does not divide \<open>2^32\<close> the bound is the largest multiple of it below
  \<open>2^32\<close>. When it does, the bound \<open>2^32\<close> does not fit the 32-bit variable and becomes 0.
\<close>

lemma rand_truncation_ndvd:
  assumes "N \<noteq> 0" and "\<not> unat N dvd 2 ^ 32"
  shows "unat (rand_truncation N) = 2 ^ 32 div unat N * unat N"
proof -
  have "2 ^ 32 div unat N * unat N \<noteq> (2::nat) ^ 32"
    using assms(2) by (metis dvd_triv_right)
  moreover have "2 ^ 32 div unat N * unat N \<le> (2::nat) ^ 32"
    by (rule div_times_less_eq_dividend)
  ultimately have "2 ^ 32 div unat N * unat N < (2::nat) ^ 32" by (rule le_neq_implies_less [rotated])
  then show ?thesis using assms(1) by (simp add: unat_rand_truncation)
qed

lemma rand_truncation_dvd:
  assumes "N \<noteq> 0" and "unat N dvd 2 ^ 32"
  shows "rand_truncation N = 0"
proof -
  have "2 ^ 32 div unat N * unat N = (2::nat) ^ 32"
    using assms(2) by simp
  then have "unat (rand_truncation N) = 0"
    using assms(1) by (simp add: unat_rand_truncation)
  then show ?thesis by (simp add: unat_eq_zero)
qed

text \<open>At least half of all words are accepted, where any are.\<close>

lemma rand_truncation_half:
  assumes "N \<noteq> 0" and "\<not> unat N dvd 2 ^ 32"
  shows "2 ^ 31 < unat (rand_truncation N)"
proof -
  have n0: "0 < unat N" using assms(1) by (simp add: unat_gt_0)
  have nlt: "unat N < 2 ^ 32" by (rule unat_u32_less)
  define q where "q = 2 ^ 32 div unat N"
  define r where "r = 2 ^ 32 mod unat N"
  have eq: "(2::nat) ^ 32 = q * unat N + r" by (simp add: q_def r_def)
  have rlt: "r < unat N" using n0 by (simp add: r_def)
  have "1 \<le> q" unfolding q_def using nlt n0 by (simp add: div_greater_zero_iff Suc_le_eq)
  then have "unat N \<le> q * unat N" by simp
  with eq rlt have "2 ^ 32 < 2 * (q * unat N)" by linarith
  then have "2 ^ 31 < q * unat N" by simp
  then show ?thesis unfolding rand_truncation_ndvd [OF assms] q_def .
qed

section \<open>The result\<close>

lemma get_random_InrD:
  assumes "get_random src low high pos = Inr (r, pos')"
  shows "\<exists>k. let N = high - low + 1 in N \<noteq> 0 \<and> r = src (pos + k) mod N + low
             \<and> pos' = Suc (pos + k) \<and> src (pos + k) < rand_truncation N
             \<and> (\<forall>j<k. rand_truncation N \<le> src (pos + j))"
proof -
  from assms have "high - low + 1 \<noteq> 0"
    and "\<exists>raw. get_random_loop src (rand_truncation (high - low + 1)) pos = Some (raw, pos')
           \<and> r = raw mod (high - low + 1) + low"
    by (auto simp: get_random_def Let_def split: if_splits option.splits)
  then show ?thesis using get_random_loop_SomeD by (fastforce simp: Let_def)
qed

lemma range_size:
  assumes "low \<le> high" and "high - low + 1 \<noteq> (0::u32)"
  shows "unat (high - low + 1) = unat high - unat low + 1"
proof -
  have "unat (high - low + 1) = Suc (unat (high - low))"
    using assms(2) by (simp add: add.commute unatSuc)
  with assms(1) show ?thesis by (simp add: unat_sub word_le_nat_alt)
qed

lemma offset_in_range:
  fixes low high x :: u32
  assumes "low \<le> high" and "unat x \<le> unat high - unat low"
  shows "unat (x + low) = unat x + unat low" "low \<le> x + low" "x + low \<le> high"
proof -
  have le: "unat low \<le> unat high" using assms(1) by (simp add: word_le_nat_alt)
  have "unat x + unat low \<le> unat high" using assms(2) le by linarith
  moreover have "unat high < 2 ^ 32" by (rule unat_u32_less)
  ultimately show *: "unat (x + low) = unat x + unat low"
    by (simp add: unat_word_ariths)
  show "low \<le> x + low" by (simp add: word_le_nat_alt *)
  show "x + low \<le> high"
    using \<open>unat x + unat low \<le> unat high\<close> by (simp add: word_le_nat_alt *)
qed

lemma mod_range_offset:
  fixes low high raw :: u32
  assumes "low \<le> high" and "high - low + 1 \<noteq> 0"
  shows "unat (raw mod (high - low + 1)) \<le> unat high - unat low"
proof -
  have "unat (raw mod (high - low + 1)) < unat (high - low + 1)"
    using assms(2) by (simp add: unat_mod unat_gt_0)
  then show ?thesis using range_size [OF assms] by simp
qed

lemma get_random_bounds:
  assumes "low \<le> high" and "get_random src low high pos = Inr (r, pos')"
  shows "low \<le> r \<and> r \<le> high"
  using get_random_InrD [OF assms(2)] mod_range_offset [OF assms(1)] offset_in_range [OF assms(1)]
  by (auto simp: Let_def)

text \<open>A draw over a range whose size is not a divisor of \<open>2^32\<close> accepts some word below \<open>2^31\<close>.\<close>

lemma get_random_returns:
  assumes "high - low + 1 \<noteq> 0" and "src (pos + k) < rand_truncation (high - low + 1)"
  shows "\<exists>r pos'. get_random src low high pos = Inr (r, pos')"
proof -
  obtain raw pos' where "get_random_loop src (rand_truncation (high - low + 1)) pos = Some (raw, pos')"
    using get_random_loop_returns_iff [of src "rand_truncation (high - low + 1)" pos] assms(2) by auto
  then show ?thesis using assms(1) by (auto simp: get_random_def Let_def)
qed

lemma get_random_loop_None_iff:
  "get_random_loop src t pos = None \<longleftrightarrow> (\<forall>k. t \<le> src (pos + k))"
proof -
  have "get_random_loop src t pos = None \<longleftrightarrow> \<not> (\<exists>r. get_random_loop src t pos = Some r)"
    by (cases "get_random_loop src t pos") simp_all
  also have "\<dots> \<longleftrightarrow> (\<forall>k. t \<le> src (pos + k))"
    unfolding get_random_loop_returns_iff by (simp add: not_less)
  finally show ?thesis .
qed

lemma small_word_accepted:
  assumes "N \<noteq> 0" and "\<not> unat N dvd 2 ^ 32" and "w < 2 ^ 31"
  shows "w < rand_truncation N"
  using rand_truncation_half [OF assms(1,2)] assms(3) by (simp add: word_less_nat_alt)

section \<open>Counting the accepted words\<close>

lemma card_nat_residue:
  assumes "(r::nat) < n"
  shows "card {x. x < q * n \<and> x mod n = r} = q"
proof -
  have "{x. x < q * n \<and> x mod n = r} = (\<lambda>k. k * n + r) ` {..<q}" (is "?A = ?B")
  proof
    show "?A \<subseteq> ?B"
    proof
      fix x assume "x \<in> ?A"
      then have x: "x < q * n" "x mod n = r" by auto
      then have "x div n < q" by (simp add: less_mult_imp_div_less)
      moreover have "x = x div n * n + r" using x(2) by (metis div_mult_mod_eq)
      ultimately show "x \<in> ?B" by blast
    qed
    show "?B \<subseteq> ?A"
    proof
      fix x assume "x \<in> ?B"
      then obtain k where k: "k < q" "x = k * n + r" by auto
      then have "Suc k * n \<le> q * n" by (intro mult_le_mono1) simp
      with k assms show "x \<in> ?A" by simp
    qed
  qed
  moreover have "inj_on (\<lambda>k. k * n + r) {..<q}"
    using assms by (auto simp: inj_on_def)
  ultimately show ?thesis by (simp add: card_image)
qed

lemma card_word_residue:
  fixes t N :: u32
  assumes "unat t = q * unat N" and "r < unat N"
  shows "card {raw. raw < t \<and> unat (raw mod N) = r} = q"
proof -
  define S where "S = {raw. raw < t \<and> unat (raw mod N) = r}"
  have "unat ` S = {x. x < q * unat N \<and> x mod unat N = r}" (is "_ = ?B")
  proof
    show "unat ` S \<subseteq> ?B"
      unfolding S_def using assms(1) by (auto simp: word_less_nat_alt unat_mod)
    show "?B \<subseteq> unat ` S"
    proof
      fix x assume x: "x \<in> ?B"
      then have "x < unat t" using assms(1) by simp
      then have "x < 2 ^ 32" using unat_u32_less [of t] by simp
      then have "unat (word_of_nat x :: u32) = x" by (simp add: unat_of_nat)
      with x \<open>x < unat t\<close> show "x \<in> unat ` S"
        unfolding S_def
        by (intro image_eqI [of _ _ "word_of_nat x"]) (simp_all add: word_less_nat_alt unat_mod)
    qed
  qed
  then have "card (unat ` S) = q" using card_nat_residue [OF assms(2)] by simp
  moreover have "card (unat ` S) = card S"
    by (rule card_image) (simp add: inj_on_def word_unat_eq_iff)
  ultimately show ?thesis by (simp add: S_def)
qed

section \<open>The interface other components use\<close>

text \<open>Two states that differ in the entropy position only.\<close>

definition same_but_entropy :: "'a kernel_scheme \<Rightarrow> 'a kernel_scheme \<Rightarrow> bool" where
  "same_but_entropy s s' \<longleftrightarrow> s' = s\<lparr>entropy_pos := entropy_pos s'\<rparr>"

text \<open>When a draw from \<open>[low, high]\<close> is certain to return.\<close>

definition drawable :: "kenv \<Rightarrow> u32 \<Rightarrow> u32 \<Rightarrow> 'a kernel_scheme \<Rightarrow> bool" where
  "drawable env low high s \<longleftrightarrow> high - low + 1 \<noteq> 0
     \<and> (\<exists>k. entropy env (entropy_pos s + k) < rand_truncation (high - low + 1))"

locale bounded_draw =
  fixes draw :: "u32 \<Rightarrow> u32 \<Rightarrow> ('s, u32) kprog"
    and usable :: "u32 \<Rightarrow> u32 \<Rightarrow> 's \<Rightarrow> bool"
    and frame :: "'s \<Rightarrow> 's \<Rightarrow> bool"
  assumes draw_bounds: "low \<le> high \<Longrightarrow> draw low high s = Inr (r, s') \<Longrightarrow> low \<le> r \<and> r \<le> high"
    and draw_frame: "draw low high s = Inr (r, s') \<Longrightarrow> frame s s'"
    and draw_returns: "usable low high s \<Longrightarrow> \<exists>r s'. draw low high s = Inr (r, s')"
begin

lemma bind_draw:
  assumes "low \<le> high" and "usable low high s"
  shows "\<exists>r s'. draw low high s = Inr (r, s') \<and> low \<le> r \<and> r \<le> high \<and> frame s s'
           \<and> bindk (draw low high) f s = f r s'"
proof -
  obtain r s' where "draw low high s = Inr (r, s')" using draw_returns [OF assms(2)] by blast
  then show ?thesis
    using draw_bounds [OF assms(1)] draw_frame by (fastforce simp: bindk_def)
qed

lemma bind_draw_InrD:
  assumes "low \<le> high" and "bindk (draw low high) f s = Inr x"
  shows "\<exists>r s'. draw low high s = Inr (r, s') \<and> low \<le> r \<and> r \<le> high \<and> frame s s'
           \<and> f r s' = Inr x"
  using assms(2) draw_bounds [OF assms(1)] draw_frame by (fastforce simp: bindk_Inr_iff)

end

lemma get_randomk_Inr_iff:
  "get_randomk env low high s = Inr (r, s') \<longleftrightarrow>
     (\<exists>pos. get_random (entropy env) low high (entropy_pos s) = Inr (r, pos)
            \<and> s' = s\<lparr>entropy_pos := pos\<rparr>)"
  by (auto simp: get_randomk_def split: sum.splits prod.splits)

interpretation rnd: bounded_draw "get_randomk env" "drawable env" same_but_entropy for env
proof unfold_locales
  fix low high s r and s' :: "'a kernel_scheme"
  assume "low \<le> high" and "get_randomk env low high s = Inr (r, s')"
  then show "low \<le> r \<and> r \<le> high"
    by (auto simp: get_randomk_Inr_iff dest: get_random_bounds)
next
  fix low high s r and s' :: "'a kernel_scheme"
  assume "get_randomk env low high s = Inr (r, s')"
  then show "same_but_entropy s s'"
    by (auto simp: get_randomk_Inr_iff same_but_entropy_def)
next
  fix low high and s :: "'a kernel_scheme"
  assume "drawable env low high s"
  then obtain r pos where "get_random (entropy env) low high (entropy_pos s) = Inr (r, pos)"
    unfolding drawable_def using get_random_returns by blast
  then show "\<exists>r s'. get_randomk env low high s = Inr (r, s')"
    by (auto simp: get_randomk_def)
qed

text \<open>
  An entropy source that delivers a word with a clear top bit again and again never hangs a draw
  from the three ranges the code uses.
\<close>

definition fair_entropy :: "kenv \<Rightarrow> bool" where
  "fair_entropy env \<longleftrightarrow> (\<forall>n. \<exists>k. entropy env (n + k) < 2 ^ 31)"

lemma fair_drawable:
  assumes "fair_entropy env" and "(low, high) \<in> {(0, 20000000), (0, 100), (1, 1000)}"
  shows "drawable env low high s"
proof -
  have N: "high - low + 1 \<noteq> 0" "\<not> unat (high - low + 1) dvd 2 ^ 32"
    using assms(2) by auto
  obtain k where "entropy env (entropy_pos s + k) < 2 ^ 31"
    using assms(1) by (auto simp: fair_entropy_def)
  then show ?thesis
    unfolding drawable_def using N(1) small_word_accepted [OF N] by blast
qed

section \<open>Properties\<close>

text \<open>
  C5. Total correctness of \<open>get_random\<close>: for a proper range whose size is not zero, as soon as
  the entropy source delivers one word below the acceptance bound, the function returns, and
  the result lies in \<open>[low, high]\<close>.
\<close>

theorem get_random_in_range:
  assumes "low \<le> high" and "high - low + 1 \<noteq> 0"
    and "\<exists>k. src (pos + k) < rand_truncation (high - low + 1)"
  shows "\<exists>r pos'. get_random src low high pos = Inr (r, pos') \<and> low \<le> r \<and> r \<le> high \<and> pos < pos'"
proof -
  obtain r pos' where ret: "get_random src low high pos = Inr (r, pos')"
    using get_random_returns [OF assms(2)] assms(3) by blast
  then show ?thesis
    using get_random_bounds [OF assms(1) ret] get_random_InrD [OF ret] by (auto simp: Let_def)
qed

theorem get_random_in_range_witness:
  "\<exists>r pos'. get_random (\<lambda>_. 1234) 0 100 5 = Inr (r, pos') \<and> 0 \<le> r \<and> r \<le> 100 \<and> 5 < pos'"
  by (rule get_random_in_range) (simp_all add: rand_truncation_def)



text \<open>
  C26. When \<open>get_random\<close> does not return: exactly on a range of all \<open>2^32\<close> words (the division
  by \<open>N = 0\<close> traps), on a range whose size divides \<open>2^32\<close> (a power of two, a single value
  included: the bound wraps to 0, no word is ever accepted and the loop never ends, whatever the
  entropy), and on an entropy source that stays above the bound for ever.
\<close>

theorem get_random_stops_iff:
  "get_random src low high pos = Inl e \<longleftrightarrow>
     (if high - low + 1 = 0 then e = DivByZero
      else e = Diverges \<and> (unat (high - low + 1) dvd 2 ^ 32
                           \<or> (\<forall>k. rand_truncation (high - low + 1) \<le> src (pos + k))))"
proof (cases "high - low + 1 = 0")
  case True
  then show ?thesis by (auto simp: get_random_def Let_def)
next
  case False
  have "get_random src low high pos = Inl e \<longleftrightarrow>
      e = Diverges \<and> get_random_loop src (rand_truncation (high - low + 1)) pos = None"
    using False by (auto simp: get_random_def Let_def split: option.splits)
  moreover have "unat (high - low + 1) dvd 2 ^ 32 \<Longrightarrow> rand_truncation (high - low + 1) = 0"
    using False by (rule rand_truncation_dvd)
  ultimately show ?thesis using False by (auto simp: get_random_loop_None_iff)
qed

text \<open>
  The three ranges KeyDrown draws from (0 to 20000000 ns for the injection period, 0 to 100
  and 1 to 1000 microseconds for the delays) are safe: each draw returns as soon as the source
  delivers a word with a clear top bit, so a source that does so again and again never hangs one.
\<close>

theorem keydrown_ranges_return:
  assumes "(low, high) \<in> {(0, 20000000), (0, 100), (1, 1000)}" and "src (pos + k) < 2 ^ 31"
  shows "\<exists>r pos'. get_random src low high pos = Inr (r, pos') \<and> low \<le> r \<and> r \<le> high"
proof -
  have N: "high - low + 1 \<noteq> 0" "\<not> unat (high - low + 1) dvd 2 ^ 32" "low \<le> high"
    using assms(1) by auto
  obtain r pos' where "get_random src low high pos = Inr (r, pos')"
    using get_random_returns [of high low src pos k] N(1) small_word_accepted [OF N(1,2) assms(2)]
    by blast
  then show ?thesis using get_random_bounds [OF N(3)] by blast
qed

theorem keydrown_ranges_return_witness:
  "\<exists>r pos'. get_random (\<lambda>n. if n < 3 then - 1 else 77) 1 1000 0 = Inr (r, pos') \<and> 1 \<le> r \<and> r \<le> 1000"
  by (rule keydrown_ranges_return [where k = 3]) simp_all

end
