(* ===== verification/KD_Hook.thy ===== *)
theory KD_Hook
  imports KD_Random
begin

text \<open>
  \<open>source/hook.c\<close>: replacing the flow handler of an interrupt. The static array \<open>orig_irqs\<close>
  remembers the handler that was there before (null where nothing is hooked). Also here: the
  shape that both hook handlers of the plugins share.
\<close>

section \<open>Definitions\<close>

record hook_state = kernel +
  orig_irqs :: "flow_handler option list"

definition hook_interrupt ::
  "int \<Rightarrow> flow_handler option \<Rightarrow> ('a hook_state_scheme, int) kprog" where
  "hook_interrupt interrupt handler s =
     (case irq_to_desc interrupt s of
        Some desc \<Rightarrow>
          bindk (liftk (arr_get (orig_irqs s) interrupt)) (\<lambda>old.
            if old \<noteq> None then retk (- EINVAL)
            else
              bindk (liftk (arr_set (orig_irqs s) interrupt (handle_irq desc))) (\<lambda>origs.
              seqk (modk (orig_irqs_update (\<lambda>_. origs)))
             (seqk (modk (upd_desc interrupt (handle_irq_update (\<lambda>_. handler))))
             (if has_action desc then retk 0 else stopk NullDeref)))) s
      | None \<Rightarrow> retk (- EINVAL) s)"

definition unhook_interrupt :: "int \<Rightarrow> ('a hook_state_scheme, unit) kprog" where
  "unhook_interrupt interrupt s =
     bindk (liftk (arr_get (orig_irqs s) interrupt)) (\<lambda>old.
       if old = None then retk ()
       else (case irq_to_desc interrupt s of
               Some desc \<Rightarrow>
                 seqk (modk (upd_desc interrupt (handle_irq_update (\<lambda>_. old))))
                (bindk (liftk (arr_set (orig_irqs s) interrupt None)) (\<lambda>origs.
                 modk (orig_irqs_update (\<lambda>_. origs))))
             | None \<Rightarrow> retk ())) s"

definition hook_get_original :: "int \<Rightarrow> ('a hook_state_scheme, flow_handler option) kprog" where
  "hook_get_original interrupt s = liftk (arr_get (orig_irqs s) interrupt) s"

section \<open>Well-formed states\<close>

text \<open>
  \<open>orig_irqs\<close> has 512 entries, and no descriptor has a null flow handler (Linux installs
  \<open>handle_bad_irq\<close> where no driver set one).
\<close>

definition hook_inv :: "'a hook_state_scheme \<Rightarrow> bool" where
  "hook_inv s \<longleftrightarrow> length (orig_irqs s) = 512
     \<and> (\<forall>i d. descs s i = Some d \<longrightarrow> handle_irq d \<noteq> None)"

text \<open>The interrupts that fit the array.\<close>

definition irq_ok :: "int \<Rightarrow> bool" where
  "irq_ok i \<longleftrightarrow> 0 \<le> i \<and> i < 512"

definition hooked :: "'a hook_state_scheme \<Rightarrow> int \<Rightarrow> bool" where
  "hooked s i \<longleftrightarrow> irq_ok i \<and> orig_irqs s ! nat i \<noteq> None"

text \<open>The handler the kernel itself wants on an interrupt: the saved one while it is hooked.\<close>

definition native_handler :: "'a hook_state_scheme \<Rightarrow> int \<Rightarrow> flow_handler option" where
  "native_handler s i =
     (if hooked s i then orig_irqs s ! nat i
      else (case descs s i of None \<Rightarrow> None | Some d \<Rightarrow> handle_irq d))"

definition current_handler :: "'a hook_state_scheme \<Rightarrow> int \<Rightarrow> flow_handler option" where
  "current_handler s i = (case descs s i of None \<Rightarrow> None | Some d \<Rightarrow> handle_irq d)"

definition hookable :: "int \<Rightarrow> 'a hook_state_scheme \<Rightarrow> bool" where
  "hookable i s \<longleftrightarrow> hook_inv s \<and> irq_ok i \<and> \<not> hooked s i
     \<and> (\<exists>d. descs s i = Some d \<and> has_action d)"

definition hook_upd :: "int \<Rightarrow> flow_handler option \<Rightarrow> 'a hook_state_scheme \<Rightarrow> 'a hook_state_scheme" where
  "hook_upd i h s = upd_desc i (handle_irq_update (\<lambda>_. h))
     (s\<lparr>orig_irqs := (orig_irqs s)[nat i := current_handler s i]\<rparr>)"

definition unhook_upd :: "int \<Rightarrow> 'a hook_state_scheme \<Rightarrow> 'a hook_state_scheme" where
  "unhook_upd i s = (upd_desc i (handle_irq_update (\<lambda>_. orig_irqs s ! nat i)) s)
     \<lparr>orig_irqs := (orig_irqs s)[nat i := None]\<rparr>"

text \<open>All of this depends on the descriptors and the table only.\<close>

definition same_hooks :: "'a hook_state_scheme \<Rightarrow> 'b hook_state_scheme \<Rightarrow> bool" where
  "same_hooks s s' \<longleftrightarrow> orig_irqs s' = orig_irqs s \<and> descs s' = descs s"

lemma same_hooksD:
  assumes "same_hooks s s'"
  shows "hook_inv s' = hook_inv s" "hooked s' = hooked s" "native_handler s' = native_handler s"
    "current_handler s' = current_handler s" "hookable i s' = hookable i s"
  using assms
  by (auto simp: same_hooks_def hook_inv_def hooked_def native_handler_def current_handler_def
      hookable_def fun_eq_iff)

lemma same_hooks_hook_upd: "same_hooks s s' \<Longrightarrow> same_hooks (hook_upd i h s) (hook_upd i h s')"
  by (simp add: same_hooks_def hook_upd_def upd_desc_def current_handler_def)

lemma same_hooks_unhook_upd: "same_hooks s s' \<Longrightarrow> same_hooks (unhook_upd i s) (unhook_upd i s')"
  by (simp add: same_hooks_def unhook_upd_def upd_desc_def)

interpretation hook_frame: frame_relation "same_hooks :: 'a hook_state_scheme \<Rightarrow> 'a hook_state_scheme \<Rightarrow> bool"
  by unfold_locales (simp_all add: same_hooks_def)

section \<open>The operations case by case\<close>

lemma hook_interrupt_no_desc [kprog_simps]:
  "descs s i = None \<Longrightarrow> hook_interrupt i h s = Inr (- EINVAL, s)"
  by (simp add: hook_interrupt_def irq_to_desc_def retk_def)

lemma hook_interrupt_hooked [kprog_simps]:
  "hook_inv s \<Longrightarrow> hooked s i \<Longrightarrow> hook_interrupt i h s = Inr (- EINVAL, s)"
  by (cases "descs s i")
     (simp_all add: hook_interrupt_def irq_to_desc_def kprog_simps hook_inv_def hooked_def irq_ok_def)

lemma hook_interrupt_ok [kprog_simps]:
  "hookable i s \<Longrightarrow> hook_interrupt i h s = Inr (0, hook_upd i h s)"
  by (auto simp: hook_interrupt_def irq_to_desc_def kprog_simps hookable_def hook_inv_def
      hooked_def irq_ok_def hook_upd_def current_handler_def upd_desc_def)

lemma unhook_interrupt_not_hooked [kprog_simps]:
  "hook_inv s \<Longrightarrow> irq_ok i \<Longrightarrow> \<not> hooked s i \<Longrightarrow> unhook_interrupt i s = Inr ((), s)"
  by (simp add: unhook_interrupt_def kprog_simps hook_inv_def hooked_def irq_ok_def)

lemma unhook_interrupt_no_desc [kprog_simps]:
  "hook_inv s \<Longrightarrow> irq_ok i \<Longrightarrow> descs s i = None \<Longrightarrow> unhook_interrupt i s = Inr ((), s)"
  by (simp add: unhook_interrupt_def irq_to_desc_def kprog_simps hook_inv_def hooked_def irq_ok_def)

lemma unhook_interrupt_ok [kprog_simps]:
  "hook_inv s \<Longrightarrow> hooked s i \<Longrightarrow> descs s i = Some d \<Longrightarrow> unhook_interrupt i s = Inr ((), unhook_upd i s)"
  by (auto simp: unhook_interrupt_def irq_to_desc_def kprog_simps hook_inv_def hooked_def
      irq_ok_def unhook_upd_def upd_desc_def)

lemma hook_get_original_ok [kprog_simps]:
  "hook_inv s \<Longrightarrow> irq_ok i \<Longrightarrow> hook_get_original i s = Inr (orig_irqs s ! nat i, s)"
  by (simp add: hook_get_original_def liftk_def hook_inv_def irq_ok_def)

lemma hook_upd_inv:
  "hook_inv s \<Longrightarrow> h \<noteq> None \<Longrightarrow> hook_inv (hook_upd i h s)"
  by (auto simp: hook_inv_def hook_upd_def upd_desc_def)

lemma unhook_upd_inv:
  "hook_inv s \<Longrightarrow> hooked s i \<Longrightarrow> hook_inv (unhook_upd i s)"
  by (auto simp: hook_inv_def unhook_upd_def upd_desc_def hooked_def irq_ok_def)

lemma hooked_hook_upd:
  assumes "hookable i s"
  shows "hooked (hook_upd i h s) j \<longleftrightarrow> j = i \<or> hooked s j"
proof -
  have "current_handler s i \<noteq> None"
    using assms by (auto simp: hookable_def hook_inv_def current_handler_def)
  then show ?thesis
    using assms
    by (auto simp: hooked_def hook_upd_def upd_desc_def hookable_def hook_inv_def irq_ok_def
        nth_list_update)
qed

lemma hooked_unhook_upd:
  "hook_inv s \<Longrightarrow> hooked s i \<Longrightarrow> hooked (unhook_upd i s) j \<longleftrightarrow> j \<noteq> i \<and> hooked s j"
  by (auto simp: hooked_def unhook_upd_def upd_desc_def hook_inv_def irq_ok_def nth_list_update
      split: if_splits)

lemma hookable_handler:
  "hookable i s \<Longrightarrow> current_handler s i \<noteq> None"
  by (auto simp: hookable_def hook_inv_def current_handler_def)

lemma native_hook_upd:
  assumes "hookable i s"
  shows "native_handler (hook_upd i h s) = native_handler s"
proof (rule ext)
  fix j
  have "orig_irqs (hook_upd i h s) ! nat j = (if nat i = nat j then current_handler s i
          else orig_irqs s ! nat j)"
    using assms
    by (auto simp: hook_upd_def upd_desc_def hookable_def hook_inv_def irq_ok_def nth_list_update)
  then show "native_handler (hook_upd i h s) j = native_handler s j"
    using assms hooked_hook_upd [OF assms, of h j] hookable_handler [OF assms]
    by (cases "j = i")
       (auto simp: native_handler_def hookable_def irq_ok_def hooked_def hook_upd_def
         current_handler_def)
qed

lemma native_unhook_upd:
  assumes "hook_inv s" and "hooked s i" and "descs s i = Some d"
  shows "native_handler (unhook_upd i s) = native_handler s"
proof (rule ext)
  fix j
  show "native_handler (unhook_upd i s) j = native_handler s j"
    using assms hooked_unhook_upd [OF assms(1,2), of j]
    by (auto simp: native_handler_def hook_inv_def irq_ok_def hooked_def
      unhook_upd_def upd_desc_def nth_list_update split: option.splits)
qed

lemma unhook_hook_upd:
  assumes "hookable i s"
  shows "unhook_upd i (hook_upd i h s) = s"
proof -
  have "(orig_irqs s)[nat i := None] = orig_irqs s"
    using assms by (intro list_update_same_conv [THEN iffD2])
      (auto simp: hookable_def hook_inv_def hooked_def irq_ok_def)
  moreover have "(descs s)(i := map_option (handle_irq_update (\<lambda>_. current_handler s i)) (descs s i))
      = descs s"
    by (cases "descs s i") (auto simp: current_handler_def fun_upd_idem)
  moreover have "orig_irqs (hook_upd i h s) ! nat i = current_handler s i"
    using assms by (auto simp: hook_upd_def upd_desc_def hookable_def hook_inv_def irq_ok_def)
  ultimately show ?thesis
    by (simp add: unhook_upd_def hook_upd_def upd_desc_def option.map_comp o_def)
qed

section \<open>The table of handlers as an interface\<close>

text \<open>
  What a client of a handler table relies on: on a usable interrupt an installation and a removal
  return, keep the table's invariant and the set of usable interrupts, and never lose the handler
  the kernel wants there.
\<close>

datatype 'h table_op = Install int 'h | Remove int

definition run_table_op ::
  "(int \<Rightarrow> 'h \<Rightarrow> ('s, int) kprog) \<Rightarrow> (int \<Rightarrow> ('s, unit) kprog) \<Rightarrow> 'h table_op \<Rightarrow> ('s, unit) kprog" where
  "run_table_op install remove p =
     (case p of Install i h \<Rightarrow> seqk (install i h) (retk ()) | Remove i \<Rightarrow> remove i)"

fun op_irq :: "'h table_op \<Rightarrow> int" where
  "op_irq (Install i h) = i"
| "op_irq (Remove i) = i"

locale handler_table =
  fixes install :: "int \<Rightarrow> 'h \<Rightarrow> ('s, int) kprog"
    and remove :: "int \<Rightarrow> ('s, unit) kprog"
    and inv :: "'s \<Rightarrow> bool"
    and usable :: "'s \<Rightarrow> int \<Rightarrow> bool"
    and native :: "'s \<Rightarrow> int \<Rightarrow> 'n"
  assumes install_keeps: "inv s \<Longrightarrow> usable s i \<Longrightarrow>
      \<exists>r s'. install i h s = Inr (r, s') \<and> inv s' \<and> usable s' = usable s \<and> native s' = native s"
    and remove_keeps: "inv s \<Longrightarrow> usable s i \<Longrightarrow>
      \<exists>s'. remove i s = Inr ((), s') \<and> inv s' \<and> usable s' = usable s \<and> native s' = native s"
begin

lemma run_op_keeps:
  assumes "inv s" and "usable s (op_irq p)"
  shows "\<exists>s'. run_table_op install remove p s = Inr ((), s') \<and> inv s' \<and> usable s' = usable s
              \<and> native s' = native s"
proof (cases p)
  case (Install i h)
  then show ?thesis
    using install_keeps [of s i h] assms by (auto simp: run_table_op_def kprog_simps)
next
  case (Remove i)
  then show ?thesis using remove_keeps [of s i] assms by (auto simp: run_table_op_def)
qed

lemma run_ops_keep:
  assumes "inv s" and "\<forall>p \<in> set ps. usable s (op_irq p)"
  shows "\<exists>s'. for_eachk ps (run_table_op install remove) s = Inr ((), s') \<and> inv s'
              \<and> native s' = native s"
proof -
  have "\<exists>s'. for_eachk ps (run_table_op install remove) s = Inr ((), s')
           \<and> (inv s' \<and> usable s' = usable s \<and> native s' = native s)"
    by (rule for_eachk_inv [where P = "\<lambda>t. inv t \<and> usable t = usable s \<and> native t = native s"])
       (use assms run_op_keeps in fastforce)+
  then show ?thesis by blast
qed

end

text \<open>An interrupt is usable when it fits the array and has an action if it has a descriptor.\<close>

definition irq_usable :: "'a hook_state_scheme \<Rightarrow> int \<Rightarrow> bool" where
  "irq_usable s i \<longleftrightarrow> irq_ok i \<and> (case descs s i of None \<Rightarrow> True | Some d \<Rightarrow> has_action d)"

lemma irq_usable_hook_upd [simp]: "irq_usable (hook_upd i h s) = irq_usable s"
  by (rule ext) (auto simp: irq_usable_def hook_upd_def upd_desc_def split: option.splits)

lemma irq_usable_unhook_upd [simp]: "irq_usable (unhook_upd i s) = irq_usable s"
  by (rule ext) (auto simp: irq_usable_def unhook_upd_def upd_desc_def split: option.splits)

lemma hook_interrupt_keeps:
  assumes "hook_inv s" and "irq_usable s i"
  shows "\<exists>r s'. hook_interrupt i (Some h) s = Inr (r, s') \<and> hook_inv s'
           \<and> irq_usable s' = irq_usable s \<and> native_handler s' = native_handler s"
proof (cases "descs s i")
  case None
  then show ?thesis using assms by (simp add: kprog_simps)
next
  case (Some d)
  show ?thesis
  proof (cases "hooked s i")
    case True
    then show ?thesis using assms by (simp add: kprog_simps)
  next
    case False
    then have "hookable i s"
      using Some assms by (simp add: hookable_def irq_usable_def)
    then show ?thesis using assms by (simp add: kprog_simps hook_upd_inv native_hook_upd)
  qed
qed

lemma unhook_interrupt_keeps:
  assumes "hook_inv s" and "irq_usable s i"
  shows "\<exists>s'. unhook_interrupt i s = Inr ((), s') \<and> hook_inv s'
           \<and> irq_usable s' = irq_usable s \<and> native_handler s' = native_handler s"
proof (cases "hooked s i")
  case False
  then show ?thesis using assms by (simp add: kprog_simps irq_usable_def)
next
  case hooked: True
  show ?thesis
  proof (cases "descs s i")
    case None
    then show ?thesis using assms by (simp add: kprog_simps irq_usable_def)
  next
    case (Some d)
    then show ?thesis
      using assms hooked by (simp add: kprog_simps unhook_upd_inv native_unhook_upd)
  qed
qed

interpretation irqs: handler_table "\<lambda>i h. hook_interrupt i (Some h)" unhook_interrupt
  hook_inv irq_usable native_handler
  by unfold_locales (simp_all add: hook_interrupt_keeps unhook_interrupt_keeps)

lemma hookable_hook_upd:
  assumes "hookable i s" and "hookable j s" and "j \<noteq> i" and "h \<noteq> None"
  shows "hookable j (hook_upd i h s)"
  using assms hook_upd_inv [of s h i]
  by (auto simp: hookable_def hooked_hook_upd [OF assms(1)]) (auto simp: hook_upd_def upd_desc_def)

lemma unhook_after_hook:
  assumes "hookable i s" and "h \<noteq> None"
  shows "unhook_interrupt i (hook_upd i h s) = Inr ((), s)"
proof -
  from assms(1) obtain d where "descs s i = Some d" by (auto simp: hookable_def)
  then have "descs (hook_upd i h s) i = Some (d\<lparr>handle_irq := h\<rparr>)"
    by (simp add: hook_upd_def upd_desc_def)
  then show ?thesis
    using assms hook_upd_inv [of s h i] hooked_hook_upd [OF assms(1), of h i]
    by (simp add: unhook_interrupt_ok unhook_hook_upd hookable_def)
qed

interpretation hooks: patching "\<lambda>p. hookable (fst p)" "\<lambda>p q. fst p \<noteq> fst q"
  "\<lambda>(i, h). seqk (hook_interrupt i (Some h)) (retk ())" "\<lambda>(i, h). unhook_interrupt i"
  by unfold_locales
     (auto simp: kprog_simps unhook_after_hook hookable_hook_upd)

section \<open>The shape of a hook handler\<close>

text \<open>
  Both hook handlers of the plugins do the same with their own bounds and interrupt number: save
  the count of unhandled interrupts, wait, call the original handler, restore the count.
\<close>

definition delayed_handler ::
  "kenv \<Rightarrow> u32 \<Rightarrow> u32 \<Rightarrow> int \<Rightarrow> (flow_handler \<Rightarrow> int \<Rightarrow> ('a hook_state_scheme, unit) kprog) \<Rightarrow> int
     \<Rightarrow> ('a hook_state_scheme, unit) kprog" where
  "delayed_handler env low high hooked_irq run_flow irq =
     bindk (bindk (readk (irq_to_desc irq)) derefk) (\<lambda>desc.
       let unhandled = irqs_unhandled desc
       in bindk (get_randomk env low high) (\<lambda>r.
          seqk (emit (Udelay r))
         (bindk (bindk (hook_get_original hooked_irq) derefk) (\<lambda>orig.
          seqk (run_flow orig irq)
               (modk (upd_desc irq (irqs_unhandled_update (\<lambda>_. unhandled))))))))"

lemma delayed_handler_spec:
  assumes "hook_inv s" and "hooked s i" and "descs s i = Some d" and "drawable env low high s"
    and "low \<le> high"
  shows "\<exists>delay pos orig. low \<le> delay \<and> delay \<le> high \<and> native_handler s i = Some orig
     \<and> get_random (entropy env) low high (entropy_pos s) = Inr (delay, pos)
     \<and> (\<forall>run. delayed_handler env low high i run i s =
          seqk (run orig i) (modk (upd_desc i (irqs_unhandled_update (\<lambda>_. irqs_unhandled d))))
               (s\<lparr>entropy_pos := pos, klog := klog s @ [Udelay delay]\<rparr>))"
proof -
  obtain r s1 where r: "get_randomk env low high s = Inr (r, s1)"
      "low \<le> r" "r \<le> high" "same_but_entropy s s1"
    using rnd.bind_draw [OF assms(5) assms(4), of retk] by auto
  then obtain pos where s1: "s1 = s\<lparr>entropy_pos := pos\<rparr>"
    and draw: "get_random (entropy env) low high (entropy_pos s) = Inr (r, pos)"
    by (auto simp: get_randomk_Inr_iff)
  let ?s = "s\<lparr>entropy_pos := pos, klog := klog s @ [Udelay r]\<rparr>"
  obtain orig where orig: "orig_irqs s ! nat i = Some orig" "native_handler s i = Some orig"
    using assms(2) by (auto simp: hooked_def native_handler_def)
  have sm: "same_hooks s ?s" by (simp add: same_hooks_def)
  have get: "hook_get_original i ?s = Inr (Some orig, ?s)"
    using assms(1,2) orig by (simp add: hook_get_original_ok same_hooksD [OF sm] hooked_def)
  have "delayed_handler env low high i run i s = seqk (run orig i)
               (modk (upd_desc i (irqs_unhandled_update (\<lambda>_. irqs_unhandled d)))) ?s" for run
    using assms(3) r(1) get unfolding s1
    by (simp add: delayed_handler_def bindk_def seqk_def kprog_simps irq_to_desc_def)
  with r(2,3) orig(2) draw show ?thesis by blast
qed

section \<open>Interrupts ready to be hooked\<close>

text \<open>The interrupt fits the table and the kernel has a descriptor with an action for it.\<close>

definition irq_ready :: "int \<Rightarrow> 'a hook_state_scheme \<Rightarrow> bool" where
  "irq_ready i s \<longleftrightarrow> irq_ok i \<and> hook_inv s
     \<and> (case descs s i of None \<Rightarrow> False | Some d \<Rightarrow> has_action d)"

lemma irq_ready_hookable: "irq_ready i s \<Longrightarrow> \<not> hooked s i \<Longrightarrow> hookable i s"
  by (auto simp: irq_ready_def hookable_def split: option.splits)

lemma irq_ready_same_hooks: "same_hooks s s' \<Longrightarrow> irq_ready i s' = irq_ready i s"
  by (simp add: irq_ready_def same_hooksD) (simp add: same_hooks_def)

lemma irq_ready_hook_upd:
  assumes "irq_ready i s" and "h \<noteq> None"
  shows "irq_ready i (hook_upd j h s)"
proof -
  have "hook_inv (hook_upd j h s)" using assms by (simp add: irq_ready_def hook_upd_inv)
  with assms(1) show ?thesis
    by (auto simp: irq_ready_def hook_upd_def upd_desc_def split: option.splits)
qed

lemma irq_ready_unhook_upd:
  assumes "irq_ready i s" and "hooked s j"
  shows "irq_ready i (unhook_upd j s)"
proof -
  have "hook_inv (unhook_upd j s)" using assms by (simp add: irq_ready_def unhook_upd_inv)
  with assms(1) show ?thesis
    by (auto simp: irq_ready_def unhook_upd_def upd_desc_def split: option.splits)
qed

lemma hook_ready_cases:
  assumes "irq_ready i s" and "hook_interrupt i (Some h) s = Inr (r, s')"
  shows "r = 0 \<and> hookable i s \<and> s' = hook_upd i (Some h) s \<or> r = - EINVAL \<and> s' = s"
  using assms irq_ready_hookable [OF assms(1)]
  by (cases "hooked s i") (auto simp: kprog_simps irq_ready_def)

lemma unhook_ready_cases:
  assumes "irq_ready i s"
  shows "unhook_interrupt i s = Inr ((), if hooked s i then unhook_upd i s else s)"
  using assms by (auto simp: irq_ready_def kprog_simps split: option.splits)

lemma hooked_contract:
  assumes ready: "irq_ready i s" and able: "hookable i s"
    and sm: "same_hooks (hook_upd i (Some h) s) s'"
  shows "irq_ready i s' \<and> native_handler s' = native_handler s
     \<and> (\<forall>j. hooked s' j \<longleftrightarrow> hooked s j \<or> j = i)"
proof -
  have "irq_ready i (hook_upd i (Some h) s)" by (rule irq_ready_hook_upd [OF ready]) simp
  then show ?thesis
    by (auto simp: same_hooksD [OF sm] irq_ready_same_hooks [OF sm] native_hook_upd [OF able]
        hooked_hook_upd [OF able])
qed

lemma not_hooked_contract:
  assumes ready: "irq_ready i s" and sm: "same_hooks s s'"
  shows "irq_ready i s' \<and> native_handler s' = native_handler s \<and> (\<forall>j. hooked s' j \<longleftrightarrow> hooked s j)"
  using ready by (simp add: same_hooksD [OF sm] irq_ready_same_hooks [OF sm])

lemma unhooked_contract:
  assumes ready: "irq_ready i s" and same: "same_hooks (if hooked s i then unhook_upd i s else s) s'"
  shows "irq_ready i s' \<and> native_handler s' = native_handler s
     \<and> (\<forall>j. hooked s' j \<longleftrightarrow> hooked s j \<and> j \<noteq> i)"
proof (cases "hooked s i")
  case True
  with same have sm: "same_hooks (unhook_upd i s) s'" by simp
  from ready obtain d where d: "descs s i = Some d" "hook_inv s"
    by (auto simp: irq_ready_def split: option.splits)
  show ?thesis
    using irq_ready_unhook_upd [OF ready True] native_unhook_upd [OF d(2) True d(1)]
      hooked_unhook_upd [OF d(2) True]
    by (auto simp: same_hooksD [OF sm] irq_ready_same_hooks [OF sm])
next
  case False
  with same have sm: "same_hooks s s'" by simp
  show ?thesis using not_hooked_contract [OF ready sm] False by auto
qed

section \<open>Interrupts reaching their handlers\<close>

text \<open>
  The kernel calls the flow handler of an interrupt's descriptor. \<open>own\<close> is the handler of KeyDrown
  and \<open>body\<close> its code; a call of another handler is recorded.
\<close>

definition call_flow :: "flow_handler \<Rightarrow> int \<Rightarrow> ('a kernel_scheme, unit) kprog" where
  "call_flow h irq = emit (CallFlowHandler h)"

definition deliver_irq ::
  "flow_handler \<Rightarrow> (int \<Rightarrow> ('a hook_state_scheme, unit) kprog) \<Rightarrow> int \<Rightarrow> ('a hook_state_scheme, unit) kprog" where
  "deliver_irq own body irq =
     bindk (readk (irq_to_desc irq)) (\<lambda>d.
       case d of
         None \<Rightarrow> retk ()
       | Some desc \<Rightarrow>
           bindk (derefk (handle_irq desc)) (\<lambda>h. if h = own then body irq else call_flow h irq))"

text \<open>KeyDrown's handler is installed on exactly the hooked interrupts.\<close>

definition own_hooks :: "flow_handler \<Rightarrow> 'a hook_state_scheme \<Rightarrow> bool" where
  "own_hooks own s \<longleftrightarrow> hook_inv s \<and> (\<forall>j. current_handler s j = Some own \<longleftrightarrow> hooked s j)"

lemma own_hooksD: "own_hooks own s \<Longrightarrow> current_handler s j = Some own \<longleftrightarrow> hooked s j"
  by (simp add: own_hooks_def)

lemma own_hooks_same: "same_hooks s s' \<Longrightarrow> own_hooks own s' = own_hooks own s"
  by (simp add: own_hooks_def same_hooksD)

lemma current_hook_upd:
  "hookable i s \<Longrightarrow> current_handler (hook_upd i h s) j = (if j = i then h else current_handler s j)"
  by (auto simp: hookable_def current_handler_def hook_upd_def upd_desc_def)

lemma own_hooks_hook_upd:
  assumes "own_hooks own s" and "hookable i s"
  shows "own_hooks own (hook_upd i (Some own) s)"
proof -
  have "hook_inv (hook_upd i (Some own) s)" using assms(1) by (simp add: own_hooks_def hook_upd_inv)
  moreover have "current_handler (hook_upd i (Some own) s) j = Some own \<longleftrightarrow> hooked (hook_upd i (Some own) s) j" for j
    using assms
    using hooked_hook_upd [OF assms(2), of "Some own" j] current_hook_upd [OF assms(2), of "Some own" j]
    by (simp add: own_hooks_def)
  ultimately show ?thesis by (simp add: own_hooks_def)
qed

text \<open>What one interrupt amounts to: a delay if it is hooked, then its native handler.\<close>

definition delivery :: "'a hook_state_scheme \<Rightarrow> int \<Rightarrow> u32 \<Rightarrow> kcall list" where
  "delivery s j delay =
     (case native_handler s j of
        None \<Rightarrow> []
      | Some h \<Rightarrow> (if hooked s j then [Udelay delay] else []) @ [CallFlowHandler h])"

lemma delivery_same_hooks: "same_hooks s s' \<Longrightarrow> delivery s' = delivery s"
  by (simp add: fun_eq_iff delivery_def same_hooksD)

lemma upd_desc_restore:
  assumes "descs s j = Some d"
  shows "upd_desc j (irqs_unhandled_update (\<lambda>_. irqs_unhandled d)) s = s"
proof -
  have "irqs_unhandled_update (\<lambda>_. irqs_unhandled d) d = d" by (cases d) simp
  with assms show ?thesis by (cases s) (simp add: upd_desc_def fun_upd_idem)
qed

lemma deliver_irq_once:
  assumes own: "own_hooks own s" and only: "\<And>j. hooked s j \<Longrightarrow> j = i"
    and draw: "drawable env low high s" and "low \<le> high"
  shows "\<exists>pos delay. low \<le> delay \<and> delay \<le> high
     \<and> (if hooked s j then get_random (entropy env) low high (entropy_pos s) = Inr (delay, pos)
        else pos = entropy_pos s)
     \<and> deliver_irq own (delayed_handler env low high i call_flow) j s
       = Inr ((), s\<lparr>entropy_pos := pos, klog := klog s @ delivery s j delay\<rparr>)"
proof (cases "descs s j")
  case None
  then have "current_handler s j \<noteq> Some own" by (simp add: current_handler_def)
  then have "\<not> hooked s j" using own by (simp add: own_hooks_def)
  with None \<open>low \<le> high\<close> show ?thesis
    by (intro exI [of _ "entropy_pos s"] exI [of _ low])
       (simp add: deliver_irq_def bindk_def kprog_simps irq_to_desc_def delivery_def native_handler_def)
next
  case (Some d)
  have inv: "hook_inv s" using own by (simp add: own_hooks_def)
  then obtain h where h: "handle_irq d = Some h" using Some by (auto simp: hook_inv_def)
  have is_own: "h = own \<longleftrightarrow> hooked s j"
    using own_hooksD [OF own, of j] Some h by (auto simp: current_handler_def)
  show ?thesis
  proof (cases "hooked s j")
    case False
    with Some h is_own \<open>low \<le> high\<close> show ?thesis
      by (intro exI [of _ "entropy_pos s"] exI [of _ low])
         (simp add: deliver_irq_def bindk_def kprog_simps irq_to_desc_def delivery_def
           native_handler_def call_flow_def)
  next
    case True
    then have j: "j = i" by (rule only)
    from delayed_handler_spec [OF inv True Some, of env low high] draw \<open>low \<le> high\<close> j
    obtain delay pos orig where d: "low \<le> delay" "delay \<le> high" "native_handler s j = Some orig"
      "get_random (entropy env) low high (entropy_pos s) = Inr (delay, pos)"
      "delayed_handler env low high j call_flow j s =
          seqk (call_flow orig j) (modk (upd_desc j (irqs_unhandled_update (\<lambda>_. irqs_unhandled d))))
               (s\<lparr>entropy_pos := pos, klog := klog s @ [Udelay delay]\<rparr>)" by blast
    let ?t = "s\<lparr>entropy_pos := pos, klog := klog s @ [Udelay delay, CallFlowHandler orig]\<rparr>"
    have "upd_desc j (irqs_unhandled_update (\<lambda>_. irqs_unhandled d)) ?t = ?t"
      using Some by (intro upd_desc_restore) simp
    with d(5) have "delayed_handler env low high j call_flow j s
        = Inr ((), s\<lparr>entropy_pos := pos, klog := klog s @ [Udelay delay, CallFlowHandler orig]\<rparr>)"
      by (simp add: call_flow_def seqk_def bindk_def kprog_simps)
    with True Some h is_own d j show ?thesis
      by (intro exI [of _ pos] exI [of _ delay])
         (simp add: deliver_irq_def bindk_def kprog_simps irq_to_desc_def delivery_def)
  qed
qed

text \<open>Whatever happens, an interrupt that returns changes the log and the entropy position only.\<close>

lemma delayed_handler_frame:
  assumes "delayed_handler env low high i call_flow j s = Inr (u, s')"
  shows "\<exists>n l. s' = s\<lparr>entropy_pos := n, klog := l\<rparr>"
proof -
  from assms obtain d n l where d: "descs s j = Some d"
    and s': "s' = upd_desc j (irqs_unhandled_update (\<lambda>_. irqs_unhandled d)) (s\<lparr>entropy_pos := n, klog := l\<rparr>)"
    by (auto simp: delayed_handler_def Let_def bindk_Inr_iff seqk_Inr_iff kprog_simps derefk_Inr_iff
        irq_to_desc_def get_randomk_Inr_iff hook_get_original_def liftk_Inr_iff call_flow_def)
  have "descs (s\<lparr>entropy_pos := n, klog := l\<rparr>) j = Some d" using d by simp
  from upd_desc_restore [OF this] s' show ?thesis by blast
qed

lemma deliver_irq_frame:
  assumes "deliver_irq own (delayed_handler env low high i call_flow) j s = Inr (u, s')"
  shows "\<exists>n l. s' = s\<lparr>entropy_pos := n, klog := l\<rparr>"
proof -
  consider "s' = s" | "delayed_handler env low high i call_flow j s = Inr (u, s')"
    | h where "s' = s\<lparr>klog := klog s @ [CallFlowHandler h]\<rparr>"
    using assms
    by (auto simp: deliver_irq_def bindk_Inr_iff kprog_simps derefk_Inr_iff call_flow_def
        split: option.splits if_splits)
  then show ?thesis
  proof cases
    case 1
    then show ?thesis by (intro exI [of _ "entropy_pos s"] exI [of _ "klog s"]) simp
  next
    case 2
    then show ?thesis by (rule delayed_handler_frame)
  next
    case 3
    then show ?thesis by (intro exI [of _ "entropy_pos s"]) auto
  qed
qed

text \<open>
  Any sequence of interrupts. Leaving out the delays, the calls are those of the native handlers.
\<close>

lemma deliver_irqs:
  assumes own: "own_hooks own s" and only: "\<And>j. hooked s j \<Longrightarrow> j = i"
    and draw: "\<And>t :: 'a hook_state_scheme. drawable env low high t" and "low \<le> high"
  shows "\<exists>pos ds. length ds = length js \<and> (\<forall>d \<in> set ds. low \<le> d \<and> d \<le> high)
     \<and> for_eachk js (deliver_irq own (delayed_handler env low high i call_flow)) (s :: 'a hook_state_scheme)
       = Inr ((), s\<lparr>entropy_pos := pos, klog := klog s @ concat (map2 (delivery s) js ds)\<rparr>)"
  using own only
proof (induction js arbitrary: s)
  case Nil
  then show ?case by (intro exI [of _ "entropy_pos s"] exI [of _ "[]"]) (simp add: retk_apply)
next
  case (Cons j js)
  from deliver_irq_once [OF Cons.prems draw \<open>low \<le> high\<close>, of j] obtain pos d where
    d: "low \<le> d" "d \<le> high" "deliver_irq own (delayed_handler env low high i call_flow) j s
       = Inr ((), s\<lparr>entropy_pos := pos, klog := klog s @ delivery s j d\<rparr>)" by blast
  let ?s1 = "s\<lparr>entropy_pos := pos, klog := klog s @ delivery s j d\<rparr>"
  have sm: "same_hooks s ?s1" by (simp add: same_hooks_def)
  have "own_hooks own ?s1" "\<And>j. hooked ?s1 j \<Longrightarrow> j = i"
    using Cons.prems by (simp_all add: own_hooks_same [OF sm] same_hooksD [OF sm])
  from Cons.IH [OF this] obtain pos' ds where
    ds: "length ds = length js" "\<forall>d \<in> set ds. low \<le> d \<and> d \<le> high"
      "for_eachk js (deliver_irq own (delayed_handler env low high i call_flow)) ?s1
       = Inr ((), ?s1\<lparr>entropy_pos := pos', klog := klog ?s1 @ concat (map2 (delivery ?s1) js ds)\<rparr>)" by blast
  show ?case
    using d ds delivery_same_hooks [OF sm]
    by (intro exI [of _ pos'] exI [of _ "d # ds"]) (simp add: seqk_def bindk_def)
qed

fun is_delay :: "kcall \<Rightarrow> bool" where
  "is_delay (Udelay d) = True"
| "is_delay c = False"

text \<open>The calls an interrupt makes on a machine where nothing is hooked.\<close>

definition native_delivery :: "'a hook_state_scheme \<Rightarrow> int \<Rightarrow> kcall list" where
  "native_delivery s j = (case native_handler s j of None \<Rightarrow> [] | Some h \<Rightarrow> [CallFlowHandler h])"

lemma native_delivery_same: "native_handler s' = native_handler s \<Longrightarrow> native_delivery s' = native_delivery s"
  by (simp add: fun_eq_iff native_delivery_def)

lemma erase_delays:
  "length ds = length js \<Longrightarrow> filter (\<lambda>c. \<not> is_delay c) (concat (map2 (delivery s) js ds))
     = concat (map (native_delivery s) js)"
  by (induction js ds rule: list_induct2')
     (auto simp: delivery_def native_delivery_def split: option.split)

lemma delays_of:
  assumes "length ds = length js"
  shows "filter is_delay (concat (map2 (delivery s) js ds))
    = map (Udelay \<circ> snd) (filter (hooked s \<circ> fst) (zip js ds))"
proof -
  have none: "\<not> hooked s j" if "native_handler s j = None" for j
    using that by (auto simp: native_handler_def hooked_def split: if_splits)
  from assms show ?thesis
    by (induction js ds rule: list_induct2') (auto simp: delivery_def split: option.split dest: none)
qed

lemma delivery_unhooked:
  "\<not> hooked s j \<Longrightarrow> delivery s j d = native_delivery s j"
  by (simp add: delivery_def native_delivery_def split: option.split)

section \<open>Plugins that hook an interrupt\<close>

text \<open>
  The contract of a plugin's \<open>init\<close> and \<open>cleanup\<close>: an initialisation that returns 0 has hooked
  the plugin's interrupt, one that returns anything else has hooked nothing, and either way the
  plugin is ready for a clean-up; a clean-up always returns and leaves the interrupt unhooked;
  neither loses a native handler.
\<close>

locale hooking_plugin =
  fixes init :: "nat option \<Rightarrow> ('a hook_state_scheme, int) kprog"
    and cleanup :: "('a hook_state_scheme, int) kprog"
    and irq :: int
    and loadable :: "'a hook_state_scheme \<Rightarrow> bool"
    and ready :: "'a hook_state_scheme \<Rightarrow> bool"
  assumes init_contract: "loadable s \<Longrightarrow> init d s = Inr (r, s') \<Longrightarrow>
      ready s' \<and> native_handler s' = native_handler s
        \<and> (\<forall>j. hooked s' j \<longleftrightarrow> hooked s j \<or> r = 0 \<and> j = irq)"
    and cleanup_contract: "ready s \<Longrightarrow>
      \<exists>s'. cleanup s = Inr (0, s') \<and> ready s' \<and> native_handler s' = native_handler s
           \<and> (\<forall>j. hooked s' j \<longleftrightarrow> hooked s j \<and> j \<noteq> irq)"
begin

lemma load_unload:
  assumes "loadable s" and "\<And>j. \<not> hooked s j" and "init d s = Inr (r, s1)"
  shows "\<exists>s2. cleanup s1 = Inr (0, s2) \<and> (\<forall>j. \<not> hooked s2 j)
           \<and> current_handler s2 = current_handler s"
proof -
  from init_contract [OF assms(1,3)] have i: "ready s1" "native_handler s1 = native_handler s"
    "\<And>j. hooked s1 j \<Longrightarrow> j = irq" using assms(2) by auto
  from cleanup_contract [OF i(1)] i obtain s2 where
    s2: "cleanup s1 = Inr (0, s2)" "native_handler s2 = native_handler s" "\<And>j. \<not> hooked s2 j"
    by auto
  have "current_handler s2 j = current_handler s j" for j
    using fun_cong [OF s2(2), of j] s2(3) [of j] assms(2) [of j]
    by (simp add: native_handler_def current_handler_def)
  with s2 show ?thesis by blast
qed

end

section \<open>Properties\<close>

text \<open>
  C6. The kernel's own handlers are never lost: after any sequence of hooking and unhooking calls
  (failing ones included) on interrupts that fit the array and have an action, the handler the
  kernel wants on each interrupt is the one it was, and every interrupt that is not hooked at the
  end runs exactly that handler. No such sequence stops.
\<close>

theorem hook_sequences_keep_native:
  assumes "hook_inv s" and "\<forall>p \<in> set ps. irq_usable s (op_irq p)"
  shows "\<exists>s'. for_eachk ps (run_table_op (\<lambda>i h. hook_interrupt i (Some h)) unhook_interrupt) s = Inr ((), s')
           \<and> hook_inv s' \<and> native_handler s' = native_handler s
           \<and> (\<forall>i. \<not> hooked s' i \<longrightarrow> current_handler s' i = native_handler s i)"
proof -
  obtain s' where s': "for_eachk ps (run_table_op (\<lambda>i h. hook_interrupt i (Some h)) unhook_interrupt) s
        = Inr ((), s')" "hook_inv s'" "native_handler s' = native_handler s"
    using irqs.run_ops_keep [OF assms] by blast
  have "current_handler s' i = native_handler s i" if "\<not> hooked s' i" for i
    using that unfolding s'(3) [symmetric] by (simp add: current_handler_def native_handler_def)
  with s' show ?thesis by blast
qed

definition demo_desc :: "flow_handler option \<Rightarrow> irq_desc" where
  "demo_desc h = \<lparr>handle_irq = h, irqs_unhandled = 3, has_action = True,
     common_affinity = Some 5, affinity_hint = None, affinity_pending = False,
     pending_mask = None, desc_kstat = None\<rparr>"

definition demo_hook_state :: hook_state where
  "demo_hook_state = \<lparr>klog = [], entropy_pos = 0, alloc_pos = 0,
     descs = (\<lambda>i. if i = 1 \<or> i = 12 then Some (demo_desc (Some (OtherHandler 7))) else None),
     orig_irqs = replicate 512 None\<rparr>"

lemma demo_hook_inv: "hook_inv demo_hook_state"
  by (simp add: hook_inv_def demo_hook_state_def demo_desc_def)

lemma demo_hookable: "i \<in> {1, 12} \<Longrightarrow> hookable i demo_hook_state"
  unfolding hookable_def
  by (intro conjI, rule demo_hook_inv)
     (auto simp: hooked_def irq_ok_def demo_hook_state_def demo_desc_def)

theorem hook_sequences_keep_native_witness:
  "\<exists>s'. for_eachk [Install 1 KbHookHandler, Install 1 TouchscreenHookHandler, Remove 12]
          (run_table_op (\<lambda>i h. hook_interrupt i (Some h)) unhook_interrupt) demo_hook_state = Inr ((), s')
      \<and> hook_inv s' \<and> native_handler s' = native_handler demo_hook_state
      \<and> (\<forall>i. \<not> hooked s' i \<longrightarrow> current_handler s' i = native_handler demo_hook_state i)"
  by (rule hook_sequences_keep_native, rule demo_hook_inv)
     (simp add: irq_usable_def irq_ok_def demo_hook_state_def demo_desc_def)

text \<open>
  C25. Round trip: hooking any number of different hookable interrupts and then unhooking them in
  the reverse order gives back the state exactly, descriptors and table included.
\<close>

theorem hook_unhook_roundtrip:
  assumes "distinct (map fst hs)" and "\<And>i h. (i, h) \<in> set hs \<Longrightarrow> hookable i s"
  shows "\<exists>s'. for_eachk hs (\<lambda>(i, h). seqk (hook_interrupt i (Some h)) (retk ())) s = Inr ((), s')
           \<and> for_eachk (rev hs) (\<lambda>(i, h). unhook_interrupt i) s' = Inr ((), s)"
proof (rule hooks.patch_all)
  show "sorted_wrt (\<lambda>p q. fst p \<noteq> fst q) hs"
    using assms(1) by (induction hs) (force simp: image_iff)+
  show "hookable (fst k) s" if "k \<in> set hs" for k
    using assms(2) that by (cases k) simp
qed

theorem hook_unhook_roundtrip_witness:
  "\<exists>s'. for_eachk [(1, KbHookHandler), (12, TouchscreenHookHandler)]
          (\<lambda>(i, h). seqk (hook_interrupt i (Some h)) (retk ())) demo_hook_state = Inr ((), s')
      \<and> for_eachk (rev [(1, KbHookHandler), (12, TouchscreenHookHandler)])
          (\<lambda>(i, h). unhook_interrupt i) s' = Inr ((), demo_hook_state)"
  by (rule hook_unhook_roundtrip) (auto intro: demo_hookable)

text \<open>
  Exactly one hook per interrupt: \<open>hook_interrupt\<close> returns 0 once, and a second call for the
  same interrupt returns \<open>-EINVAL\<close> and changes nothing, whatever handler it passes; an interrupt
  without a descriptor is refused likewise.
\<close>

theorem hook_interrupt_exclusive:
  assumes "hookable i s" and "descs s j = None"
  shows "\<exists>s'. hook_interrupt i (Some h) s = Inr (0, s') \<and> current_handler s' i = Some h
           \<and> hook_get_original i s' = Inr (current_handler s i, s')
           \<and> hook_interrupt i h' s' = Inr (- EINVAL, s')
           \<and> hook_interrupt j h' s' = Inr (- EINVAL, s')"
proof -
  let ?s' = "hook_upd i (Some h) s"
  have inv: "hook_inv ?s'" and ok: "irq_ok i"
    using assms(1) by (simp_all add: hook_upd_inv hookable_def)
  have "hooked ?s' i" using hooked_hook_upd [OF assms(1)] by simp
  moreover have "native_handler ?s' i = native_handler s i"
    by (simp add: native_hook_upd [OF assms(1)])
  ultimately have "orig_irqs ?s' ! nat i = current_handler s i"
    using assms(1) by (simp add: native_handler_def current_handler_def hookable_def)
  moreover have "descs ?s' j = None"
    using assms by (auto simp: hook_upd_def upd_desc_def)
  moreover have "current_handler ?s' i = Some h"
    using assms(1) by (auto simp: hookable_def current_handler_def hook_upd_def upd_desc_def)
  ultimately show ?thesis
    using assms(1) inv ok \<open>hooked ?s' i\<close> by (simp add: kprog_simps)
qed

theorem hook_interrupt_exclusive_witness:
  "\<exists>s'. hook_interrupt 1 (Some KbHookHandler) demo_hook_state = Inr (0, s')
      \<and> current_handler s' 1 = Some KbHookHandler
      \<and> hook_get_original 1 s' = Inr (current_handler demo_hook_state 1, s')
      \<and> hook_interrupt 1 None s' = Inr (- EINVAL, s')
      \<and> hook_interrupt 5 None s' = Inr (- EINVAL, s')"
  by (rule hook_interrupt_exclusive) (simp_all add: demo_hookable, simp add: demo_hook_state_def)

end
