(* ===== verification/KD_Timer.thy ===== *)
theory KD_Timer
  imports KD_Hook
begin

text \<open>
  \<open>source/timer.c\<close>: the injection timer, re-armed with a random period, and the one-shot fake
  timer whose only purpose is one additional timer interrupt. The second half models
  \<open>timer_inject_irq\<close> as it runs on several CPUs at once, one memory access at a time.
\<close>

section \<open>Definitions\<close>

datatype hrtimer_restart = HRTIMER_NORESTART | HRTIMER_RESTART

datatype timer_callback = TimerFunction | FaketimerFunction

definition RND_MAX :: u32 where "RND_MAX = 20000000"
definition RND_MIN :: u32 where "RND_MIN = 0"
definition MIN_TIMER_SECONDS :: int where "MIN_TIMER_SECONDS = 0"

record timer_state = hook_state +
  periode :: ktime
  faketimer_t :: ktime
  faketimer_running :: int
  timer_fn :: "timer_callback option"
  faketimer_fn :: "timer_callback option"

definition timer_init :: "timer_callback \<Rightarrow> ('a timer_state_scheme, int) kprog" where
  "timer_init cb =
     seqk (modk (\<lambda>s. s\<lparr>periode := KtimeSet 2 104167\<rparr>))
    (seqk (emit (HrtimerInit MainTimer))
    (seqk (modk (\<lambda>s. s\<lparr>timer_fn := Some cb\<rparr>))
    (seqk (bindk (readk periode) (\<lambda>p. emit (HrtimerStart MainTimer p)))
    (retk 0))))"

definition timer_cleanup :: "('a timer_state_scheme, unit) kprog" where
  "timer_cleanup = emit (HrtimerCancel MainTimer)"

definition timer_restart :: "kenv \<Rightarrow> ('a timer_state_scheme, hrtimer_restart) kprog" where
  "timer_restart env =
     bindk (get_randomk env RND_MIN RND_MAX) (\<lambda>r.
     seqk (modk (\<lambda>s. s\<lparr>periode := KtimeSet MIN_TIMER_SECONDS (unat r)\<rparr>))
    (seqk (bindk (readk periode) (\<lambda>p. emit (HrtimerForwardNow MainTimer p)))
    (retk HRTIMER_RESTART)))"

definition timer_reset :: "kenv \<Rightarrow> ('a timer_state_scheme, unit) kprog" where
  "timer_reset env =
     bindk (get_randomk env RND_MIN RND_MAX) (\<lambda>r.
     seqk (modk (\<lambda>s. s\<lparr>periode := KtimeSet MIN_TIMER_SECONDS (unat r)\<rparr>))
    (seqk (emit (HrtimerCancel MainTimer))
    (bindk (readk periode) (\<lambda>p. emit (HrtimerStart MainTimer p)))))"

definition faketimer_function :: "('a timer_state_scheme, hrtimer_restart) kprog" where
  "faketimer_function =
     seqk (modk (\<lambda>s. s\<lparr>faketimer_running := 0\<rparr>)) (retk HRTIMER_NORESTART)"

text \<open>\<open>__sync_lock_test_and_set\<close>: store 1, return what was there.\<close>

definition sync_lock_test_and_set_running :: "('a timer_state_scheme, int) kprog" where
  "sync_lock_test_and_set_running s = Inr (faketimer_running s, s\<lparr>faketimer_running := 1\<rparr>)"

definition timer_inject_irq :: "('a timer_state_scheme, int) kprog" where
  "timer_inject_irq =
     bindk sync_lock_test_and_set_running (\<lambda>was.
       if was \<noteq> 0 then retk (- EBUSY)
       else
         seqk (modk (\<lambda>s. s\<lparr>faketimer_t := KtimeSet 0 0\<rparr>))
        (seqk (emit (HrtimerInit FakeTimer))
        (seqk (modk (\<lambda>s. s\<lparr>faketimer_fn := Some FaketimerFunction\<rparr>))
        (seqk (bindk (readk faketimer_t) (\<lambda>t. emit (HrtimerStart FakeTimer t)))
        (retk 0)))))"

lemmas timer_defs = timer_init_def timer_cleanup_def timer_restart_def timer_reset_def
  faketimer_function_def sync_lock_test_and_set_running_def timer_inject_irq_def
  RND_MIN_def RND_MAX_def MIN_TIMER_SECONDS_def

section \<open>Which timers are armed\<close>

text \<open>
  What a sequence of calls does to a timer: \<open>hrtimer_start\<close> arms it, \<open>hrtimer_cancel\<close> disarms it
  (and waits for its callback).
\<close>

fun armed_after :: "timer_id \<Rightarrow> bool \<Rightarrow> kcall list \<Rightarrow> bool" where
  "armed_after t b [] = b"
| "armed_after t b (HrtimerStart t' p # cs) = armed_after t (t' = t \<or> b) cs"
| "armed_after t b (HrtimerCancel t' # cs) = armed_after t (t' \<noteq> t \<and> b) cs"
| "armed_after t b (c # cs) = armed_after t b cs"

lemma armed_after_append:
  "armed_after t b (xs @ ys) = armed_after t (armed_after t b xs) ys"
  by (induction t b xs rule: armed_after.induct) auto

definition timer_armed :: "timer_id \<Rightarrow> 'a kernel_scheme \<Rightarrow> bool" where
  "timer_armed t s = armed_after t False (klog s)"

section \<open>Evaluation\<close>

lemma timer_inject_irq_busy [kprog_simps]:
  "faketimer_running s \<noteq> 0 \<Longrightarrow> timer_inject_irq s = Inr (- EBUSY, s\<lparr>faketimer_running := 1\<rparr>)"
  by (simp add: timer_inject_irq_def sync_lock_test_and_set_running_def bindk_def retk_def)

lemma timer_inject_irq_free [kprog_simps]:
  "faketimer_running s = 0 \<Longrightarrow> timer_inject_irq s =
     Inr (0, s\<lparr>faketimer_running := 1, faketimer_t := KtimeSet 0 0,
               faketimer_fn := Some FaketimerFunction,
               klog := klog s @ [HrtimerInit FakeTimer, HrtimerStart FakeTimer (KtimeSet 0 0)]\<rparr>)"
  by (simp add: timer_inject_irq_def sync_lock_test_and_set_running_def bindk_def seqk_def
      kprog_simps)

lemma timer_reset_apply:
  assumes "get_randomk env RND_MIN RND_MAX s = Inr (r, s1)"
  shows "timer_reset env s = Inr ((), s1\<lparr>periode := KtimeSet 0 (unat r),
           klog := klog s1 @ [HrtimerCancel MainTimer, HrtimerStart MainTimer (KtimeSet 0 (unat r))]\<rparr>)"
  using assms
  by (simp add: timer_reset_def bindk_def seqk_def kprog_simps MIN_TIMER_SECONDS_def)

lemma timer_restart_apply:
  assumes "get_randomk env RND_MIN RND_MAX s = Inr (r, s1)"
  shows "timer_restart env s = Inr (HRTIMER_RESTART, s1\<lparr>periode := KtimeSet 0 (unat r),
           klog := klog s1 @ [HrtimerForwardNow MainTimer (KtimeSet 0 (unat r))]\<rparr>)"
  using assms
  by (simp add: timer_restart_def bindk_def seqk_def kprog_simps MIN_TIMER_SECONDS_def)

lemma period_draw:
  assumes "drawable env RND_MIN RND_MAX s"
  shows "\<exists>r pos. get_randomk env RND_MIN RND_MAX s = Inr (r, s\<lparr>entropy_pos := pos\<rparr>)
           \<and> unat r \<le> 20000000"
proof -
  obtain r s' where r: "get_randomk env RND_MIN RND_MAX s = Inr (r, s')" "r \<le> RND_MAX"
      "same_but_entropy s s'"
    using rnd.bind_draw [OF _ assms, of retk] by (auto simp: RND_MIN_def)
  then show ?thesis
    by (auto simp: RND_MAX_def word_le_nat_alt same_but_entropy_def)
qed

section \<open>The fake timer on several CPUs\<close>

text \<open>
  A CPU inside \<open>timer_inject_irq\<close>: where it is, after the exchange that it won. The one shared
  write of each micro-step is atomic; anything may happen between two of them.
\<close>

datatype inject_pc = Outside | Exchanged | TimeSet | Inited | FunctionSet

definition inject_micro :: "inject_pc \<Rightarrow> ('a timer_state_scheme, inject_pc) kprog" where
  "inject_micro pc =
     (case pc of
        Outside \<Rightarrow> bindk sync_lock_test_and_set_running
                     (\<lambda>was. if was \<noteq> 0 then retk Outside else retk Exchanged)
      | Exchanged \<Rightarrow> seqk (modk (\<lambda>s. s\<lparr>faketimer_t := KtimeSet 0 0\<rparr>)) (retk TimeSet)
      | TimeSet \<Rightarrow> seqk (emit (HrtimerInit FakeTimer)) (retk Inited)
      | Inited \<Rightarrow> seqk (modk (\<lambda>s. s\<lparr>faketimer_fn := Some FaketimerFunction\<rparr>)) (retk FunctionSet)
      | FunctionSet \<Rightarrow> seqk (bindk (readk faketimer_t) (\<lambda>t. emit (HrtimerStart FakeTimer t)))
                            (retk Outside))"

fun inject_run :: "nat \<Rightarrow> inject_pc \<Rightarrow> ('a timer_state_scheme, inject_pc) kprog" where
  "inject_run 0 pc = retk pc"
| "inject_run (Suc n) pc = (if pc = Outside then retk pc else bindk (inject_micro pc) (inject_run n))"

text \<open>Run without interruption, the micro-steps are \<open>timer_inject_irq\<close>.\<close>

lemma inject_micro_sequential:
  "bindk (inject_micro Outside) (inject_run 4) s = Inr (Outside, s') \<longleftrightarrow>
     (\<exists>r. timer_inject_irq s = Inr (r, s'))"
  by (cases "faketimer_running s = 0")
     (auto simp: inject_micro_def sync_lock_test_and_set_running_def bindk_def seqk_def kprog_simps
       numeral_eq_Suc)

text \<open>
  The system: the shared state, the position of each CPU, whether the fake timer is armed, and how
  far its callback is (not running, entered, or past its store to \<open>faketimer_running\<close>). The kernel
  runs the callback of an armed timer, never twice at the same time.
\<close>

datatype callback_pc = NotRunning | Entered | Cleared

record fake_sys =
  shared :: timer_state
  cpu_pc :: "nat \<Rightarrow> inject_pc"
  fake_armed :: bool
  fake_callback :: callback_pc

inductive fake_step :: "fake_sys \<Rightarrow> fake_sys \<Rightarrow> bool" where
  cpu_moves: "inject_micro (cpu_pc S c) (shared S) = Inr (pc, s') \<Longrightarrow>
     fake_step S (S\<lparr>shared := s', cpu_pc := (cpu_pc S)(c := pc),
                    fake_armed := (fake_armed S \<or> cpu_pc S c = FunctionSet)\<rparr>)"
| timer_fires: "fake_armed S \<Longrightarrow> fake_callback S = NotRunning \<Longrightarrow>
     fake_step S (S\<lparr>fake_armed := False, fake_callback := Entered\<rparr>)"
| callback_clears: "fake_callback S = Entered \<Longrightarrow>
     faketimer_function (shared S) = Inr (HRTIMER_NORESTART, s') \<Longrightarrow>
     fake_step S (S\<lparr>shared := s', fake_callback := Cleared\<rparr>)"
| callback_returns: "fake_callback S = Cleared \<Longrightarrow>
     fake_step S (S\<lparr>fake_callback := NotRunning\<rparr>)"

definition fake_start :: "fake_sys \<Rightarrow> bool" where
  "fake_start S \<longleftrightarrow> faketimer_running (shared S) = 0 \<and> cpu_pc S = (\<lambda>_. Outside)
     \<and> \<not> fake_armed S \<and> fake_callback S = NotRunning"

text \<open>
  Who holds the flag: a CPU between exchange and start, the armed timer, or its callback before
  the store. The flag is 1 exactly when there is a holder, and there is never more than one.
\<close>

datatype flag_holder = CpuHolds nat | TimerHolds | CallbackHolds

definition holds :: "fake_sys \<Rightarrow> flag_holder \<Rightarrow> bool" where
  "holds S h = (case h of CpuHolds c \<Rightarrow> cpu_pc S c \<noteq> Outside
     | TimerHolds \<Rightarrow> fake_armed S
     | CallbackHolds \<Rightarrow> fake_callback S = Entered)"

definition fake_inv :: "fake_sys \<Rightarrow> bool" where
  "fake_inv S \<longleftrightarrow> (\<exists>ho. (\<forall>h. holds S h \<longleftrightarrow> ho = Some h)
     \<and> faketimer_running (shared S) = (if ho = None then 0 else 1))"

inductive_cases fake_stepE [elim]: "fake_step S T"

lemma holds_simps [simp]:
  "holds S (CpuHolds c) \<longleftrightarrow> cpu_pc S c \<noteq> Outside"
  "holds S TimerHolds \<longleftrightarrow> fake_armed S"
  "holds S CallbackHolds \<longleftrightarrow> fake_callback S = Entered"
  by (simp_all add: holds_def)

lemma all_holders:
  "(\<forall>h. P h) \<longleftrightarrow> (\<forall>c. P (CpuHolds c)) \<and> P TimerHolds \<and> P CallbackHolds"
  by (metis flag_holder.exhaust)

lemma inject_micro_Outside:
  "inject_micro Outside s = Inr (if faketimer_running s \<noteq> 0 then Outside else Exchanged,
                                s\<lparr>faketimer_running := 1\<rparr>)"
  by (simp add: inject_micro_def sync_lock_test_and_set_running_def bindk_def retk_def)

lemma inject_micro_inside:
  assumes "pc \<noteq> Outside" and "inject_micro pc s = Inr (pc', s')"
  shows "faketimer_running s' = faketimer_running s" "pc' = Outside \<longleftrightarrow> pc = FunctionSet"
  using assms by (cases pc; auto simp: inject_micro_def seqk_def bindk_def kprog_simps)+

lemma cpu_moves_inv:
  assumes inv: "fake_inv S" and mv: "inject_micro (cpu_pc S c) (shared S) = Inr (pc, s')"
  shows "fake_inv (S\<lparr>shared := s', cpu_pc := (cpu_pc S)(c := pc),
                     fake_armed := (fake_armed S \<or> cpu_pc S c = FunctionSet)\<rparr>)"
proof -
  from inv obtain ho where ho: "\<And>h. holds S h \<longleftrightarrow> ho = Some h"
    and run: "faketimer_running (shared S) = (if ho = None then 0 else 1)"
    unfolding fake_inv_def by blast
  note hc = ho [of "CpuHolds c"]
  show ?thesis
  proof (cases "cpu_pc S c = Outside")
    case True
    show ?thesis
    proof (cases ho)
      case None
      with True mv run have "pc = Exchanged" "faketimer_running s' = 1"
        by (auto simp: inject_micro_Outside)
      then show ?thesis
        using True None ho [of "CpuHolds _"] ho [of TimerHolds] ho [of CallbackHolds]
        by (auto simp: fake_inv_def all_holders intro!: exI [of _ "Some (CpuHolds c)"])
    next
      case (Some h)
      with True mv run have "pc = Outside" "faketimer_running s' = 1"
        by (auto simp: inject_micro_Outside)
      then show ?thesis
        using True Some ho [of "CpuHolds _"] ho [of TimerHolds] ho [of CallbackHolds]
        by (auto simp: fake_inv_def all_holders intro!: exI [of _ "Some h"])
    qed
  next
    case False
    with hc have some: "ho = Some (CpuHolds c)" by simp
    note inside = inject_micro_inside [OF False mv]
    show ?thesis
      using some run inside ho [of "CpuHolds _"] ho [of TimerHolds] ho [of CallbackHolds]
      by (auto simp: fake_inv_def all_holders
          intro!: exI [of _ "Some (if cpu_pc S c = FunctionSet then TimerHolds else CpuHolds c)"])
  qed
qed

interpretation fake: invariant_system fake_start fake_step fake_inv
proof unfold_locales
  fix S assume "fake_start S"
  then show "fake_inv S"
    by (auto simp: fake_start_def fake_inv_def all_holders intro!: exI [of _ None])
next
  fix S T assume inv: "fake_inv S" and "fake_step S T"
  from this(2) show "fake_inv T"
  proof cases
    case (cpu_moves c pc s')
    then show ?thesis using cpu_moves_inv [OF inv] by simp
  next
    case timer_fires
    then show ?thesis using inv
      by (auto simp: fake_inv_def all_holders intro!: exI [of _ "Some CallbackHolds"])
  next
    case (callback_clears s')
    then show ?thesis using inv
      by (auto simp: fake_inv_def all_holders faketimer_function_def seqk_def bindk_def kprog_simps
          intro!: exI [of _ None])
  next
    case callback_returns
    then show ?thesis using inv by (auto simp: fake_inv_def all_holders)
  qed
qed

text \<open>Schedules of the system, executed.\<close>

datatype fake_event = CpuMoves nat | TimerFires | CallbackClears | CallbackReturns

fun fake_do :: "fake_event \<Rightarrow> fake_sys \<Rightarrow> fake_sys option" where
  "fake_do (CpuMoves c) S =
     (case inject_micro (cpu_pc S c) (shared S) of
        Inl e \<Rightarrow> None
      | Inr (pc, s') \<Rightarrow> Some (S\<lparr>shared := s', cpu_pc := (cpu_pc S)(c := pc),
                              fake_armed := (fake_armed S \<or> cpu_pc S c = FunctionSet)\<rparr>))"
| "fake_do TimerFires S =
     (if fake_armed S \<and> fake_callback S = NotRunning
      then Some (S\<lparr>fake_armed := False, fake_callback := Entered\<rparr>) else None)"
| "fake_do CallbackClears S =
     (if fake_callback S = Entered
      then (case faketimer_function (shared S) of
              Inr (HRTIMER_NORESTART, s') \<Rightarrow> Some (S\<lparr>shared := s', fake_callback := Cleared\<rparr>)
            | _ \<Rightarrow> None)
      else None)"
| "fake_do CallbackReturns S =
     (if fake_callback S = Cleared then Some (S\<lparr>fake_callback := NotRunning\<rparr>) else None)"

fun fake_schedule :: "fake_event list \<Rightarrow> fake_sys \<Rightarrow> fake_sys option" where
  "fake_schedule [] S = Some S"
| "fake_schedule (e # es) S = Option.bind (fake_do e S) (fake_schedule es)"

lemma fake_do_step: "fake_do e S = Some T \<Longrightarrow> fake_step S T"
  by (cases "(e, S)" rule: fake_do.cases)
     (auto split: sum.splits prod.splits if_splits hrtimer_restart.splits intro: fake_step.intros)

lemma fake_schedule_reach:
  "reach fake_start fake_step S \<Longrightarrow> fake_schedule es S = Some T \<Longrightarrow> reach fake_start fake_step T"
proof (induction es arbitrary: S)
  case (Cons e es)
  then obtain S1 where "fake_do e S = Some S1" "fake_schedule es S1 = Some T"
    by (auto simp: bind_eq_Some_conv)
  then show ?case using Cons.IH reach_step [OF Cons.prems(1) fake_do_step] by blast
qed simp

lemmas fake_eval = inject_micro_def sync_lock_test_and_set_running_def faketimer_function_def
  bindk_def seqk_def kprog_simps

definition demo_timer_state :: timer_state where
  "demo_timer_state = \<lparr>klog = [], entropy_pos = 0, alloc_pos = 0, descs = (\<lambda>_. None),
     orig_irqs = replicate 512 None, periode = KtimeSet 0 0, faketimer_t = KtimeSet 0 0,
     faketimer_running = 0, timer_fn = None, faketimer_fn = None\<rparr>"

definition demo_fake_sys :: fake_sys where
  "demo_fake_sys = \<lparr>shared = demo_timer_state, cpu_pc = (\<lambda>_. Outside), fake_armed = False,
     fake_callback = NotRunning\<rparr>"

lemma demo_fake_reach: "reach fake_start fake_step demo_fake_sys"
  by (rule reach_start) (simp add: fake_start_def demo_fake_sys_def demo_timer_state_def)

definition demo_env :: kenv where
  "demo_env = \<lparr>entropy = (\<lambda>n. word_of_nat (1000 * n)), kallsyms_lookup_name = (\<lambda>_. 4096),
     vmalloc_result = (\<lambda>n. word_of_nat (8192 + 64 * n)), possible_cpus = [0, 1, 2, 3],
     online_cpus = [0, 1, 2],
     i8042_ports = [\<lparr>serio = 512, port_irq = 12, port_exists = True, driver_bound = True, mux = -1\<rparr>,
                    \<lparr>serio = 640, port_irq = 1, port_exists = True, driver_bound = True, mux = -1\<rparr>],
     i8042_install_filter_result = 0, own_code_addr = (\<lambda>_. 65536), sizeof_size_t = 8,
     linux_version_code = kernel_version 4 6 0, arch_x86 = True\<rparr>"

lemma demo_fair: "fair_entropy demo_env"
  unfolding fair_entropy_def
proof
  fix n :: nat
  have "1000 * (n + n * 4294967295) = 4294967296 * (1000 * n)" by simp
  then have "(2 :: nat) ^ LENGTH(32) dvd 1000 * (n + n * 4294967295)" by simp
  then have "entropy demo_env (n + n * 4294967295) = 0"
    unfolding demo_env_def kenv.simps by (simp only: word_of_nat_eq_0_iff)
  then show "\<exists>k. entropy demo_env (n + k) < 2 ^ 31" by (intro exI [of _ "n * 4294967295"]) simp
qed

section \<open>Properties\<close>

text \<open>
  The injection period is uniform over real and fake key strokes: from the same state, the
  re-arming after a fake key stroke (\<open>timer_restart\<close>) and the one after a real key stroke
  (\<open>timer_reset\<close>) draw the same random period, of 0 to 20 ms, and schedule the timer with it;
  they differ only in the kernel calls that do so.
\<close>

theorem period_same_for_real_and_fake:
  assumes "drawable env RND_MIN RND_MAX s"
  shows "\<exists>n pos. n \<le> 20000000
     \<and> timer_restart env s = Inr (HRTIMER_RESTART, s\<lparr>entropy_pos := pos, periode := KtimeSet 0 n,
          klog := klog s @ [HrtimerForwardNow MainTimer (KtimeSet 0 n)]\<rparr>)
     \<and> timer_reset env s = Inr ((), s\<lparr>entropy_pos := pos, periode := KtimeSet 0 n,
          klog := klog s @ [HrtimerCancel MainTimer, HrtimerStart MainTimer (KtimeSet 0 n)]\<rparr>)"
proof -
  obtain r pos where "get_randomk env RND_MIN RND_MAX s = Inr (r, s\<lparr>entropy_pos := pos\<rparr>)"
      "unat r \<le> 20000000"
    using period_draw [OF assms] by blast
  then show ?thesis
    by (intro exI [of _ "unat r"] exI [of _ pos]) (simp add: timer_reset_apply timer_restart_apply)
qed

theorem period_same_for_real_and_fake_witness:
  "\<exists>n pos. n \<le> 20000000
     \<and> timer_restart demo_env demo_timer_state = Inr (HRTIMER_RESTART, demo_timer_state
         \<lparr>entropy_pos := pos, periode := KtimeSet 0 n,
          klog := klog demo_timer_state @ [HrtimerForwardNow MainTimer (KtimeSet 0 n)]\<rparr>)
     \<and> timer_reset demo_env demo_timer_state = Inr ((), demo_timer_state
         \<lparr>entropy_pos := pos, periode := KtimeSet 0 n,
          klog := klog demo_timer_state @ [HrtimerCancel MainTimer, HrtimerStart MainTimer (KtimeSet 0 n)]\<rparr>)"
  by (rule period_same_for_real_and_fake)
     (simp add: drawable_def RND_MIN_def RND_MAX_def rand_truncation_def demo_env_def
       demo_timer_state_def exI [of _ 0])

text \<open>
  \<open>timer_inject_irq\<close>, alone: it returns 0 exactly when no fake timer was running, then
  initialises the timer and starts it with delay 0; otherwise it returns \<open>-EBUSY\<close> without any
  call. Either way the flag is 1 afterwards, and the micro-steps used for several CPUs, run without
  interruption, end in the same state.
\<close>

theorem timer_inject_irq_spec:
  "\<exists>r s'. timer_inject_irq s = Inr (r, s') \<and> faketimer_running s' = 1
     \<and> r = (if faketimer_running s = 0 then 0 else - EBUSY)
     \<and> klog s' = klog s @ (if r = 0 then [HrtimerInit FakeTimer, HrtimerStart FakeTimer (KtimeSet 0 0)]
                          else [])
     \<and> bindk (inject_micro Outside) (inject_run 4) s = Inr (Outside, s')"
proof (cases "faketimer_running s = 0")
  case True
  then have "\<exists>r. timer_inject_irq s = Inr (r, s\<lparr>faketimer_running := 1, faketimer_t := KtimeSet 0 0,
               faketimer_fn := Some FaketimerFunction,
               klog := klog s @ [HrtimerInit FakeTimer, HrtimerStart FakeTimer (KtimeSet 0 0)]\<rparr>)"
    by (simp add: kprog_simps)
  then have "bindk (inject_micro Outside) (inject_run 4) s = Inr (Outside,
      s\<lparr>faketimer_running := 1, faketimer_t := KtimeSet 0 0, faketimer_fn := Some FaketimerFunction,
        klog := klog s @ [HrtimerInit FakeTimer, HrtimerStart FakeTimer (KtimeSet 0 0)]\<rparr>)"
    by (simp only: inject_micro_sequential)
  with True show ?thesis by (simp add: kprog_simps)
next
  case False
  then have "\<exists>r. timer_inject_irq s = Inr (r, s\<lparr>faketimer_running := 1\<rparr>)"
    by (simp add: kprog_simps)
  then have "bindk (inject_micro Outside) (inject_run 4) s = Inr (Outside, s\<lparr>faketimer_running := 1\<rparr>)"
    by (simp only: inject_micro_sequential)
  with False show ?thesis by (simp add: kprog_simps EBUSY_def)
qed

text \<open>
  C7. Mutual exclusion: with any number of CPUs inside \<open>timer_inject_irq\<close>, at most one of them is
  past the exchange, and while it prepares the timer, the timer is not armed and its callback is
  not about to run.
\<close>

theorem fake_timer_single_owner:
  assumes "reach fake_start fake_step S" and "cpu_pc S c \<noteq> Outside"
  shows "(\<forall>d. cpu_pc S d \<noteq> Outside \<longrightarrow> d = c) \<and> \<not> fake_armed S \<and> fake_callback S \<noteq> Entered
           \<and> faketimer_running (shared S) = 1"
proof -
  from fake.reach_inv [OF assms(1)] obtain ho where ho: "\<And>h. holds S h \<longleftrightarrow> ho = Some h"
    and run: "faketimer_running (shared S) = (if ho = None then 0 else 1)"
    unfolding fake_inv_def by blast
  from assms(2) ho [of "CpuHolds c"] have "ho = Some (CpuHolds c)" by simp
  then show ?thesis using run ho [of "CpuHolds _"] ho [of TimerHolds] ho [of CallbackHolds] by auto
qed

theorem fake_timer_single_owner_witness:
  "\<exists>S. reach fake_start fake_step S \<and> cpu_pc S 2 \<noteq> Outside
     \<and> (\<forall>d. cpu_pc S d \<noteq> Outside \<longrightarrow> d = 2) \<and> \<not> fake_armed S \<and> fake_callback S \<noteq> Entered
     \<and> faketimer_running (shared S) = 1"
proof -
  obtain S where S: "fake_schedule [CpuMoves 2, CpuMoves 1] demo_fake_sys = Some S"
      "cpu_pc S 2 \<noteq> Outside"
    by (simp add: fake_eval demo_fake_sys_def demo_timer_state_def)
  note r = fake_schedule_reach [OF demo_fake_reach S(1)]
  from r S(2) fake_timer_single_owner [OF r S(2)] show ?thesis
    by (elim conjE) (intro exI [of _ S] conjI)
qed

text \<open>
  C28. The flag is never left behind: it is always 0 or 1, and it is 1 exactly while some CPU
  prepares the timer, the timer is armed, or its callback has not cleared the flag yet. So a fake
  interrupt refused with \<open>-EBUSY\<close> always has another one on its way.
\<close>

theorem fake_flag_accounted:
  assumes "reach fake_start fake_step S"
  shows "faketimer_running (shared S) =
     (if (\<exists>c. cpu_pc S c \<noteq> Outside) \<or> fake_armed S \<or> fake_callback S = Entered then 1 else 0)"
proof -
  from fake.reach_inv [OF assms] obtain ho where ho: "\<And>h. holds S h \<longleftrightarrow> ho = Some h"
    and run: "faketimer_running (shared S) = (if ho = None then 0 else 1)"
    unfolding fake_inv_def by blast
  have "ho \<noteq> None \<longleftrightarrow> (\<exists>c. cpu_pc S c \<noteq> Outside) \<or> fake_armed S \<or> fake_callback S = Entered"
  proof (cases ho)
    case None
    then show ?thesis using ho [of "CpuHolds _"] ho [of TimerHolds] ho [of CallbackHolds] by auto
  next
    case (Some h)
    then show ?thesis
      using ho [of "CpuHolds _"] ho [of TimerHolds] ho [of CallbackHolds] by (cases h) auto
  qed
  with run show ?thesis by (cases "ho = None") (simp_all only: if_True if_False simp_thms)
qed

theorem fake_flag_accounted_witness:
  "\<exists>S :: fake_sys. fake_armed S \<and> faketimer_running (shared S) =
     (if (\<exists>c. cpu_pc S c \<noteq> Outside) \<or> fake_armed S \<or> fake_callback S = Entered then 1 else 0)"
proof -
  obtain S where S: "fake_schedule [CpuMoves 2, CpuMoves 2, CpuMoves 2, CpuMoves 2, CpuMoves 2]
      demo_fake_sys = Some S" "fake_armed S"
    by (simp add: fake_eval demo_fake_sys_def demo_timer_state_def)
  from S(2) fake_flag_accounted [OF fake_schedule_reach [OF demo_fake_reach S(1)]] show ?thesis
    by (intro exI [of _ S] conjI)
qed

text \<open>
  What the flag does not exclude: the callback clears it before it returns, so another CPU can
  run \<open>hrtimer_init\<close> on the fake timer while the callback of the same timer is still executing.
\<close>

theorem fake_timer_reinit_during_callback:
  "\<exists>S. reach fake_start fake_step S \<and> fake_callback S = Cleared \<and> cpu_pc S 1 = Inited
     \<and> klog (shared S) = [HrtimerInit FakeTimer, HrtimerStart FakeTimer (KtimeSet 0 0),
                          HrtimerInit FakeTimer]"
proof -
  obtain S where "fake_schedule ([CpuMoves 0, CpuMoves 0, CpuMoves 0, CpuMoves 0, CpuMoves 0,
      TimerFires, CallbackClears, CpuMoves 1, CpuMoves 1, CpuMoves 1]) demo_fake_sys = Some S"
    "fake_callback S = Cleared" "cpu_pc S 1 = Inited"
    "klog (shared S) = [HrtimerInit FakeTimer, HrtimerStart FakeTimer (KtimeSet 0 0),
                          HrtimerInit FakeTimer]"
    by (simp add: fake_eval demo_fake_sys_def demo_timer_state_def)
  then show ?thesis using fake_schedule_reach [OF demo_fake_reach] by blast
qed

end
