(* ===== verification/KD_Period.thy ===== *)
theory KD_Period
  imports KD_Timer
begin

text \<open>
  The variable \<open>periode\<close> of \<open>source/timer.c\<close> on several CPUs. The callback of the injection timer
  (\<open>timer_restart\<close>) and the tasklets of real input (\<open>timer_reset\<close>) store the period they drew in it
  and read it back when they program the timer, without a lock. Each access is a step; the random
  draws use the entropy in the order in which they happen.
\<close>

section \<open>Steps\<close>

datatype period_pc = PIdle | ResetDrawn u32 | ResetStored | ResetCancelled | RestartDrawn u32 | RestartStored

definition reset_begin :: "kenv \<Rightarrow> (timer_state, period_pc) kprog" where
  "reset_begin env = bindk (get_randomk env RND_MIN RND_MAX) (\<lambda>r. retk (ResetDrawn r))"

definition restart_begin :: "kenv \<Rightarrow> (timer_state, period_pc) kprog" where
  "restart_begin env = bindk (get_randomk env RND_MIN RND_MAX) (\<lambda>r. retk (RestartDrawn r))"

definition store_period :: "u32 \<Rightarrow> (timer_state, unit) kprog" where
  "store_period r = modk (\<lambda>s. s\<lparr>periode := KtimeSet MIN_TIMER_SECONDS (unat r)\<rparr>)"

definition period_micro :: "period_pc \<Rightarrow> (timer_state, period_pc) kprog" where
  "period_micro pc =
     (case pc of
        PIdle \<Rightarrow> retk PIdle
      | ResetDrawn r \<Rightarrow> seqk (store_period r) (retk ResetStored)
      | ResetStored \<Rightarrow> seqk (emit (HrtimerCancel MainTimer)) (retk ResetCancelled)
      | ResetCancelled \<Rightarrow> seqk (bindk (readk periode) (\<lambda>p. emit (HrtimerStart MainTimer p))) (retk PIdle)
      | RestartDrawn r \<Rightarrow> seqk (store_period r) (retk RestartStored)
      | RestartStored \<Rightarrow> seqk (bindk (readk periode) (\<lambda>p. emit (HrtimerForwardNow MainTimer p))) (retk PIdle))"

text \<open>Run without interruption, the steps are the two functions.\<close>

lemma period_micro_sequential:
  "bindk (bindk (bindk (reset_begin env) period_micro) period_micro) period_micro s = Inr (PIdle, s')
     \<longleftrightarrow> timer_reset env s = Inr ((), s')"
  "bindk (bindk (restart_begin env) period_micro) period_micro s = Inr (PIdle, s')
     \<longleftrightarrow> timer_restart env s = Inr (HRTIMER_RESTART, s')"
  by (auto simp: reset_begin_def restart_begin_def period_micro_def store_period_def timer_reset_def
      timer_restart_def bindk_Inr_iff seqk_Inr_iff kprog_simps get_randomk_Inr_iff)

text \<open>
  The system. The kernel runs the timer's callback only when the timer is armed, on one CPU at a
  time, and \<open>hrtimer_cancel\<close> waits for it to return; tasklets may run on any CPU.
\<close>

record period_sys =
  pshared :: timer_state
  period_pc_of :: "nat \<Rightarrow> period_pc"

definition in_callback :: "period_pc \<Rightarrow> bool" where
  "in_callback pc \<longleftrightarrow> (case pc of RestartDrawn r \<Rightarrow> True | RestartStored \<Rightarrow> True | _ \<Rightarrow> False)"

definition callback_runs :: "period_sys \<Rightarrow> bool" where
  "callback_runs S \<longleftrightarrow> (\<exists>c. in_callback (period_pc_of S c))"

inductive period_step :: "kenv \<Rightarrow> period_sys \<Rightarrow> period_sys \<Rightarrow> bool" for env where
  input_enters: "period_pc_of S c = PIdle \<Longrightarrow> reset_begin env (pshared S) = Inr (pc, s') \<Longrightarrow>
     period_step env S (S\<lparr>pshared := s', period_pc_of := (period_pc_of S)(c := pc)\<rparr>)"
| timer_fires: "period_pc_of S c = PIdle \<Longrightarrow> timer_armed MainTimer (pshared S) \<Longrightarrow> \<not> callback_runs S \<Longrightarrow>
     restart_begin env (pshared S) = Inr (pc, s') \<Longrightarrow>
     period_step env S (S\<lparr>pshared := s', period_pc_of := (period_pc_of S)(c := pc)\<rparr>)"
| cpu_goes_on: "period_pc_of S c \<noteq> PIdle \<Longrightarrow> (period_pc_of S c = ResetStored \<longrightarrow> \<not> callback_runs S) \<Longrightarrow>
     period_micro (period_pc_of S c) (pshared S) = Inr (pc, s') \<Longrightarrow>
     period_step env S (S\<lparr>pshared := s', period_pc_of := (period_pc_of S)(c := pc)\<rparr>)"

definition period_start :: "timer_state \<Rightarrow> period_sys \<Rightarrow> bool" where
  "period_start s0 S \<longleftrightarrow> pshared S = s0 \<and> period_pc_of S = (\<lambda>_. PIdle)"

section \<open>The periods that are programmed\<close>

definition short_period :: "ktime \<Rightarrow> bool" where
  "short_period p \<longleftrightarrow> ktime_secs p = 0 \<and> ktime_nsecs p \<le> 20000000"

fun period_call_ok :: "kcall \<Rightarrow> bool" where
  "period_call_ok (HrtimerStart t p) \<longleftrightarrow> t = MainTimer \<and> short_period p"
| "period_call_ok (HrtimerForwardNow t p) \<longleftrightarrow> t = MainTimer \<and> short_period p"
| "period_call_ok (HrtimerCancel t) \<longleftrightarrow> t = MainTimer"
| "period_call_ok _ \<longleftrightarrow> False"

text \<open>Every CPU holds a short period, or has stored one.\<close>

definition pc_ok :: "ktime \<Rightarrow> period_pc \<Rightarrow> bool" where
  "pc_ok p pc \<longleftrightarrow> (case pc of
     PIdle \<Rightarrow> True | ResetDrawn r \<Rightarrow> r \<le> RND_MAX | RestartDrawn r \<Rightarrow> r \<le> RND_MAX | _ \<Rightarrow> short_period p)"

definition period_inv :: "timer_state \<Rightarrow> period_sys \<Rightarrow> bool" where
  "period_inv s0 S \<longleftrightarrow> (\<forall>c. pc_ok (periode (pshared S)) (period_pc_of S c))
     \<and> (\<exists>cs. klog (pshared S) = klog s0 @ cs \<and> list_all period_call_ok cs)"

lemma draw_begins:
  assumes "reset_begin env s = Inr (pc, s') \<or> restart_begin env s = Inr (pc, s')"
  shows "pc_ok p pc" "klog s' = klog s" "periode s' = periode s"
  using assms
  by (auto simp: reset_begin_def restart_begin_def bindk_Inr_iff retk_apply pc_ok_def get_randomk_Inr_iff
      RND_MIN_def dest: get_random_bounds [rotated])

lemma period_micro_keeps:
  assumes "period_micro pc s = Inr (pc', s')" and "pc \<noteq> PIdle" and "pc_ok (periode s) pc"
  shows "pc_ok (periode s') pc'" "short_period (periode s') \<or> periode s' = periode s"
    "\<exists>cs. klog s' = klog s @ cs \<and> list_all period_call_ok cs"
  using assms
  by (cases pc; auto simp: period_micro_def store_period_def pc_ok_def short_period_def seqk_def bindk_def
      kprog_simps MIN_TIMER_SECONDS_def RND_MAX_def word_le_nat_alt)+

lemma pc_ok_period: "pc_ok p pc \<Longrightarrow> short_period q \<or> q = p \<Longrightarrow> pc_ok q pc"
  by (cases pc) (auto simp: pc_ok_def)

interpretation periods: invariant_system "period_start s0" "period_step env" "period_inv s0" for env s0
proof unfold_locales
  fix S assume "period_start s0 S"
  then show "period_inv s0 S" by (simp add: period_start_def period_inv_def pc_ok_def)
next
  fix S T assume inv: "period_inv s0 S" and "period_step env S T"
  then have ok: "\<And>c. pc_ok (periode (pshared S)) (period_pc_of S c)"
    and log: "\<exists>cs. klog (pshared S) = klog s0 @ cs \<and> list_all period_call_ok cs"
    by (simp_all add: period_inv_def)
  have more: "\<exists>cs'. klog (pshared S) @ cs = klog s0 @ cs' \<and> list_all period_call_ok cs'"
    if "list_all period_call_ok cs" for cs using log that by auto
  from \<open>period_step env S T\<close> show "period_inv s0 T"
  proof cases
    case (input_enters c pc s')
    with draw_begins [of env "pshared S" pc s'] ok log show ?thesis by (simp add: period_inv_def)
  next
    case (timer_fires c pc s')
    with draw_begins [of env "pshared S" pc s'] ok log show ?thesis by (simp add: period_inv_def)
  next
    case (cpu_goes_on c pc s')
    note k = period_micro_keeps [OF cpu_goes_on(4) cpu_goes_on(2) ok]
    have "pc_ok (periode s') (period_pc_of S d)" for d by (rule pc_ok_period [OF ok k(2)])
    with k(1,3) more cpu_goes_on(1) show ?thesis by (auto simp: period_inv_def)
  qed
qed

section \<open>A race\<close>

text \<open>
  A real input draws and stores its period; the timer fires on another CPU, draws, stores and
  forwards; the input goes on, cancels and starts the timer.
\<close>

lemma race_run:
  assumes "timer_armed MainTimer s" and "get_random (entropy env) RND_MIN RND_MAX (entropy_pos s) = Inr (r0, pos0)"
    and "get_random (entropy env) RND_MIN RND_MAX pos0 = Inr (r1, pos1)"
  shows "\<exists>S. reach (period_start s) (period_step env) S
     \<and> klog (pshared S) = klog s @ [HrtimerForwardNow MainTimer (KtimeSet 0 (unat r1)),
          HrtimerCancel MainTimer, HrtimerStart MainTimer (KtimeSet 0 (unat r1))]"
proof -
  let ?pcs = "\<lambda>a b c :: nat. if c = 0 then a else if c = 1 then b else PIdle"
  let ?S = "\<lambda>t a b. \<lparr>pshared = t, period_pc_of = ?pcs a b\<rparr>"
  let ?s1 = "s\<lparr>entropy_pos := pos0\<rparr>" let ?s2 = "?s1\<lparr>periode := KtimeSet 0 (unat r0)\<rparr>"
  let ?s3 = "?s2\<lparr>entropy_pos := pos1\<rparr>" let ?s4 = "?s3\<lparr>periode := KtimeSet 0 (unat r1)\<rparr>"
  let ?s5 = "?s4\<lparr>klog := klog s @ [HrtimerForwardNow MainTimer (KtimeSet 0 (unat r1))]\<rparr>"
  let ?s6 = "?s5\<lparr>klog := klog ?s5 @ [HrtimerCancel MainTimer]\<rparr>"
  let ?s7 = "?s6\<lparr>klog := klog ?s6 @ [HrtimerStart MainTimer (KtimeSet 0 (unat r1))]\<rparr>"
  have pcs: "(?pcs a b)(0 := a') = ?pcs a' b" "(?pcs a b)(Suc 0 := b') = ?pcs a b'" for a b a' b'
    by auto
  have idle: "\<not> callback_runs \<lparr>pshared = t, period_pc_of = ?pcs ResetStored PIdle\<rparr>" for t
    by (simp add: callback_runs_def in_callback_def)
  have armed: "timer_armed MainTimer ?s2" using assms(1) by (simp add: timer_armed_def)
  have p1: "period_step env (?S s PIdle PIdle) (?S ?s1 (ResetDrawn r0) PIdle)"
    using input_enters [of "?S s PIdle PIdle" 0 env "ResetDrawn r0" ?s1] assms(2)
    by (simp add: reset_begin_def bindk_def get_randomk_def retk_apply pcs)
  have p2: "period_step env (?S ?s1 (ResetDrawn r0) PIdle) (?S ?s2 ResetStored PIdle)"
    using cpu_goes_on [of "?S ?s1 (ResetDrawn r0) PIdle" 0 ResetStored ?s2 env]
    by (simp add: period_micro_def store_period_def seqk_def bindk_def kprog_simps MIN_TIMER_SECONDS_def pcs)
  have p3: "period_step env (?S ?s2 ResetStored PIdle) (?S ?s3 ResetStored (RestartDrawn r1))"
    using timer_fires [of "?S ?s2 ResetStored PIdle" 1 env "RestartDrawn r1" ?s3] assms(3) armed idle
    by (simp add: restart_begin_def bindk_def get_randomk_def retk_apply pcs)
  have p4: "period_step env (?S ?s3 ResetStored (RestartDrawn r1)) (?S ?s4 ResetStored RestartStored)"
    using cpu_goes_on [of "?S ?s3 ResetStored (RestartDrawn r1)" 1 RestartStored ?s4 env]
    by (simp add: period_micro_def store_period_def seqk_def bindk_def kprog_simps MIN_TIMER_SECONDS_def pcs)
  have p5: "period_step env (?S ?s4 ResetStored RestartStored) (?S ?s5 ResetStored PIdle)"
    using cpu_goes_on [of "?S ?s4 ResetStored RestartStored" 1 PIdle ?s5 env]
    by (simp add: period_micro_def seqk_def bindk_def kprog_simps pcs)
  have p6: "period_step env (?S ?s5 ResetStored PIdle) (?S ?s6 ResetCancelled PIdle)"
    using cpu_goes_on [of "?S ?s5 ResetStored PIdle" 0 ResetCancelled ?s6 env] idle
    by (simp add: period_micro_def seqk_def bindk_def kprog_simps pcs)
  have p7: "period_step env (?S ?s6 ResetCancelled PIdle) (?S ?s7 PIdle PIdle)"
    using cpu_goes_on [of "?S ?s6 ResetCancelled PIdle" 0 PIdle ?s7 env]
    by (simp add: period_micro_def seqk_def bindk_def kprog_simps pcs)
  note step = reach_step [of "period_start s" "period_step env"]
  have p0: "reach (period_start s) (period_step env) (?S s PIdle PIdle)"
    by (rule reach_start) (auto simp: period_start_def)
  have "reach (period_start s) (period_step env) (?S ?s7 PIdle PIdle)"
    by (rule step [OF step [OF step [OF step [OF step [OF step [OF step [OF p0 p1] p2] p3] p4] p5] p6] p7])
  then show ?thesis by (intro exI [of _ "?S ?s7 PIdle PIdle"]) simp
qed

section \<open>Properties\<close>

definition demo_period_start :: timer_state where
  "demo_period_start = demo_timer_state\<lparr>klog := [HrtimerStart MainTimer (KtimeSet 2 104167)]\<rparr>"

lemma demo_draws:
  "get_random (entropy demo_env) RND_MIN RND_MAX 0 = Inr (0, 1)"
  "get_random (entropy demo_env) RND_MIN RND_MAX 1 = Inr (1000, 2)"
  by (simp_all add: get_random_def RND_MIN_def RND_MAX_def rand_truncation_def demo_env_def
      get_random_loop_accept Let_def)

lemma demo_period_race:
  "timer_armed MainTimer demo_period_start"
  "get_random (entropy demo_env) RND_MIN RND_MAX (entropy_pos demo_period_start) = Inr (0, 1)"
  by (simp_all add: demo_draws demo_period_start_def demo_timer_state_def timer_armed_def)

text \<open>
  C15. Whatever the interleaving of the timer's callback with any number of tasklets on any CPUs, the
  injection timer is never programmed with anything but a period of at most 20 ms, although all of
  them share one variable without a lock.
\<close>

theorem raced_periods_bounded:
  assumes "reach (period_start s0) (period_step env) S"
  shows "\<exists>cs. klog (pshared S) = klog s0 @ cs \<and> list_all period_call_ok cs"
  using periods.reach_inv [OF assms] by (simp add: period_inv_def)

theorem raced_periods_bounded_witness:
  "\<exists>S cs. reach (period_start demo_period_start) (period_step demo_env) S
     \<and> length (klog (pshared S)) = 4 \<and> klog (pshared S) = klog demo_period_start @ cs \<and> list_all period_call_ok cs"
proof -
  from race_run [OF demo_period_race demo_draws(2)] obtain S where
    S: "reach (period_start demo_period_start) (period_step demo_env) S" "length (klog (pshared S)) = 4"
    by (auto simp: demo_period_start_def)
  with raced_periods_bounded [OF S(1)] show ?thesis by blast
qed

text \<open>
  The sharing does show: a real input whose store to \<open>periode\<close> is followed by a firing of the
  timer programs the timer with the period of the firing, not with its own. Both re-armings then use
  the same period, and the one drawn for the input is lost.
\<close>

theorem raced_periods_shared:
  assumes "timer_armed MainTimer s" and "get_random (entropy env) RND_MIN RND_MAX (entropy_pos s) = Inr (r0, pos0)"
    and "get_random (entropy env) RND_MIN RND_MAX pos0 = Inr (r1, pos1)"
  shows "\<exists>S. reach (period_start s) (period_step env) S
     \<and> klog (pshared S) = klog s @ [HrtimerForwardNow MainTimer (KtimeSet 0 (unat r1)),
          HrtimerCancel MainTimer, HrtimerStart MainTimer (KtimeSet 0 (unat r1))]"
  using race_run [OF assms] .

theorem raced_periods_shared_witness:
  "\<exists>S. reach (period_start demo_period_start) (period_step demo_env) S
     \<and> klog (pshared S) = klog demo_period_start @ [HrtimerForwardNow MainTimer (KtimeSet 0 (unat (1000 :: u32))),
          HrtimerCancel MainTimer, HrtimerStart MainTimer (KtimeSet 0 (unat (1000 :: u32)))]"
  by (rule raced_periods_shared [OF demo_period_race demo_draws(2)])

end
