(* ===== verification/KD_Plugin.thy ===== *)
theory KD_Plugin
  imports KD_Timer
begin

text \<open>
  \<open>source/plugin.c\<close> and \<open>include/plugin.h\<close>: the registry of event plugins. A plugin object is
  reached through a pointer (its number); its function pointers name functions of the plugins and
  of \<open>main.c\<close>, and the registry calls them through a parameter, the dispatcher.
\<close>

section \<open>Definitions\<close>

datatype event_type = KEY_PRESS | KEY_RELEASE

record event =
  event_type :: event_type
  event_data :: addr
  event_len :: nat

text \<open>The functions a field of a plugin points to.\<close>

datatype plugin_fn =
    KeyboardInit | KeyboardCleanup | KeyboardInject | KeyboardUpdate | RealKey
  | TouchscreenInit | TouchscreenCleanup | TouchscreenEnable | TouchscreenDisable
  | TouchscreenInject | TouchscreenUpdate | RealTouchpad

record event_plugin =
  plugin_name :: "string option"
  init_fn :: "plugin_fn option"
  cleanup_fn :: "plugin_fn option"
  enable_fn :: "plugin_fn option"
  disable_fn :: "plugin_fn option"
  callback_fn :: "plugin_fn option"
  inject_fn :: "plugin_fn option"
  update_fn :: "plugin_fn option"
  plugin_id :: int
  plugin_data :: addr

text \<open>
  The prototypes: the parameters of a function as it is defined, and of a function pointer of the
  structure as it is declared (all return \<open>int\<close>). A plugin is well-typed when each pointer that is
  set holds a function of its prototype.
\<close>

datatype c_type = CInt | CVoidPtr | CVoidPtrPtr | CEventPtr

fun fn_params :: "plugin_fn \<Rightarrow> c_type list" where
  "fn_params KeyboardInit = [CVoidPtrPtr]"
| "fn_params KeyboardCleanup = [CVoidPtr]"
| "fn_params KeyboardInject = [CEventPtr, CVoidPtr]"
| "fn_params KeyboardUpdate = [CInt, CVoidPtr]"
| "fn_params RealKey = [CEventPtr, CVoidPtr]"
| "fn_params TouchscreenInit = [CVoidPtrPtr]"
| "fn_params TouchscreenCleanup = [CVoidPtr]"
| "fn_params TouchscreenEnable = [CVoidPtr]"
| "fn_params TouchscreenDisable = [CVoidPtr]"
| "fn_params TouchscreenInject = [CEventPtr, CVoidPtr]"
| "fn_params TouchscreenUpdate = [CInt, CVoidPtr]"
| "fn_params RealTouchpad = [CEventPtr, CVoidPtr]"

definition slot_typed :: "c_type list \<Rightarrow> plugin_fn option \<Rightarrow> bool" where
  "slot_typed params slot \<longleftrightarrow> (case slot of None \<Rightarrow> True | Some f \<Rightarrow> fn_params f = params)"

definition well_typed_plugin :: "event_plugin \<Rightarrow> bool" where
  "well_typed_plugin ob \<longleftrightarrow>
     slot_typed [CVoidPtrPtr] (init_fn ob)
     \<and> slot_typed [CVoidPtr] (cleanup_fn ob)
     \<and> slot_typed [CVoidPtr] (enable_fn ob)
     \<and> slot_typed [CVoidPtr] (disable_fn ob)
     \<and> slot_typed [CEventPtr, CVoidPtr] (callback_fn ob)
     \<and> slot_typed [CEventPtr, CVoidPtr] (inject_fn ob)
     \<and> slot_typed [CInt, CVoidPtr] (update_fn ob)"

definition MAX_PLUGINS :: int where "MAX_PLUGINS = 128"

record registry_state = timer_state +
  plugins :: "nat option list"
  plugin_count :: int
  plugin_objs :: "nat \<Rightarrow> event_plugin"

definition upd_plugin ::
  "nat \<Rightarrow> (event_plugin \<Rightarrow> event_plugin) \<Rightarrow> 'a registry_state_scheme \<Rightarrow> 'a registry_state_scheme" where
  "upd_plugin p f s = s\<lparr>plugin_objs := (plugin_objs s)(p := f (plugin_objs s p))\<rparr>"

definition plugin_register :: "nat \<Rightarrow> ('a registry_state_scheme, int) kprog" where
  "plugin_register plugin s =
     (if plugin_count s \<ge> MAX_PLUGINS - 1 then retk 1
      else
        bindk (liftk (arr_set (plugins s) (plugin_count s) (Some plugin))) (\<lambda>ps.
        seqk (modk (plugins_update (\<lambda>_. ps)))
       (seqk (modk (upd_plugin plugin (plugin_id_update (\<lambda>_. plugin_count s))))
       (seqk (modk (\<lambda>s. s\<lparr>plugin_count := plugin_count s + 1\<rparr>))
       (retk 0))))) s"

text \<open>
  The loop \<open>for (i = 0; i < plugin_count; i++)\<close> over the registered plugins, which reads
  \<open>plugin_count\<close> afresh each time. The fuel bounds the number of iterations; with at most 127
  plugins, 128 is enough (\<open>plugin_loop_for_each\<close> below).
\<close>

fun plugin_loop ::
  "(nat \<Rightarrow> ('a registry_state_scheme, unit) kprog) \<Rightarrow> nat \<Rightarrow> int \<Rightarrow> ('a registry_state_scheme, unit) kprog"
  where
  "plugin_loop body 0 i s = Inl Diverges"
| "plugin_loop body (Suc fuel) i s =
     (if i < plugin_count s
      then bindk (liftk (arr_get (plugins s) i)) (\<lambda>p.
           bindk (derefk p) (\<lambda>p. seqk (body p) (plugin_loop body fuel (i + 1)))) s
      else Inr ((), s))"

type_synonym 's dispatcher = "plugin_fn \<Rightarrow> nat \<Rightarrow> ('s, int) kprog"

definition call_init ::
  "'a registry_state_scheme dispatcher \<Rightarrow> nat \<Rightarrow> ('a registry_state_scheme, unit) kprog" where
  "call_init run p s =
     (case init_fn (plugin_objs s p) of
        None \<Rightarrow> retk ()
      | Some f \<Rightarrow> seqk (run f p) (retk ())) s"

definition call_cleanup ::
  "'a registry_state_scheme dispatcher \<Rightarrow> nat \<Rightarrow> ('a registry_state_scheme, unit) kprog" where
  "call_cleanup run p s =
     (case cleanup_fn (plugin_objs s p) of
        None \<Rightarrow> retk ()
      | Some f \<Rightarrow> seqk (run f p) (retk ())) s"

definition plugin_init :: "'a registry_state_scheme dispatcher \<Rightarrow> ('a registry_state_scheme, int) kprog" where
  "plugin_init run = seqk (plugin_loop (call_init run) (nat MAX_PLUGINS) 0) (retk 0)"

definition plugin_cleanup :: "'a registry_state_scheme dispatcher \<Rightarrow> ('a registry_state_scheme, int) kprog" where
  "plugin_cleanup run = seqk (plugin_loop (call_cleanup run) (nat MAX_PLUGINS) 0) (retk 0)"

definition list_plugin :: "nat \<Rightarrow> ('a registry_state_scheme, unit) kprog" where
  "list_plugin p s =
     (case plugin_name (plugin_objs s p) of
        None \<Rightarrow> retk ()
      | Some name \<Rightarrow> emit (PrintPlugin name)) s"

definition plugin_list :: "('a registry_state_scheme, unit) kprog" where
  "plugin_list = plugin_loop list_plugin (nat MAX_PLUGINS) 0"

section \<open>Well-formed registries\<close>

definition registry_inv :: "'a registry_state_scheme \<Rightarrow> bool" where
  "registry_inv s \<longleftrightarrow> length (plugins s) = 128 \<and> 0 \<le> plugin_count s \<and> plugin_count s \<le> 127
     \<and> list_all (\<lambda>p. p \<noteq> None) (take (nat (plugin_count s)) (plugins s))"

text \<open>The registered plugins, in the order of their registration.\<close>

definition registered :: "'a registry_state_scheme \<Rightarrow> nat list" where
  "registered s = map the (take (nat (plugin_count s)) (plugins s))"

definition same_registry :: "'a registry_state_scheme \<Rightarrow> 'a registry_state_scheme \<Rightarrow> bool" where
  "same_registry s s' \<longleftrightarrow> plugins s' = plugins s \<and> plugin_count s' = plugin_count s"

lemma same_registry_refl [simp]: "same_registry s s"
  by (simp add: same_registry_def)

lemma same_registry_trans: "same_registry s t \<Longrightarrow> same_registry t u \<Longrightarrow> same_registry s u"
  by (simp add: same_registry_def)

interpretation registry_frame: frame_relation
  "same_registry :: 'a registry_state_scheme \<Rightarrow> 'a registry_state_scheme \<Rightarrow> bool"
  by unfold_locales (simp_all add: same_registry_def)

lemma same_registry_inv: "same_registry s s' \<Longrightarrow> registry_inv s' = registry_inv s"
  by (simp add: same_registry_def registry_inv_def)

lemma same_registry_registered: "same_registry s s' \<Longrightarrow> registered s' = registered s"
  by (simp add: same_registry_def registered_def)

lemma plugin_register_ok:
  assumes "registry_inv s" and "plugin_count s < 127"
  shows "plugin_register p s = Inr (0, (upd_plugin p (plugin_id_update (\<lambda>_. plugin_count s)) s)
            \<lparr>plugins := (plugins s)[nat (plugin_count s) := Some p],
             plugin_count := plugin_count s + 1\<rparr>)"
  using assms
  by (simp add: plugin_register_def MAX_PLUGINS_def registry_inv_def kprog_simps upd_plugin_def)

lemma plugin_register_full:
  "127 \<le> plugin_count s \<Longrightarrow> plugin_register p s = Inr (1, s)"
  by (simp add: plugin_register_def MAX_PLUGINS_def kprog_simps)

lemma take_Suc_update:
  "n < length xs \<Longrightarrow> take (Suc n) (xs[n := x]) = take n xs @ [x]"
  by (simp add: take_Suc_conv_app_nth)

lemma registered_slot:
  assumes "registry_inv s" and "0 \<le> i" and "i < plugin_count s"
  shows "arr_get (plugins s) i = Inr (Some (registered s ! nat i))"
proof -
  have i: "nat i < nat (plugin_count s)" "nat i < length (plugins s)"
    using assms by (auto simp: registry_inv_def)
  then have "plugins s ! nat i \<noteq> None"
    using assms(1) by (auto simp: registry_inv_def list_all_length)
  moreover have "registered s ! nat i = the (plugins s ! nat i)"
    using i by (simp add: registered_def)
  ultimately show ?thesis using i assms(2) by simp
qed

lemma length_registered:
  "registry_inv s \<Longrightarrow> length (registered s) = nat (plugin_count s)"
  by (auto simp: registered_def registry_inv_def)

lemma length_registered_le: "registry_inv s \<Longrightarrow> length (registered s) \<le> 127"
  using length_registered [of s] by (auto simp: registry_inv_def)

section \<open>The dispatcher as an interface\<close>

text \<open>
  The registry relies on one thing only: a plugin function that returns has not changed the
  registry itself (it may change everything else, its plugin's data included).
\<close>

locale plugin_functions =
  fixes run :: "'a registry_state_scheme dispatcher"
  assumes run_keeps_registry: "run f p s = Inr (r, s') \<Longrightarrow> same_registry s s'"
begin

lemma call_init_keeps: "call_init run p s = Inr (u, s') \<Longrightarrow> same_registry s s'"
  by (auto simp: call_init_def retk_def seqk_Inr_iff split: option.splits
      dest: run_keeps_registry)

lemma call_cleanup_keeps: "call_cleanup run p s = Inr (u, s') \<Longrightarrow> same_registry s s'"
  by (auto simp: call_cleanup_def retk_def seqk_Inr_iff split: option.splits
      dest: run_keeps_registry)

end

text \<open>A loop whose body keeps the registry is a run over the registered plugins.\<close>

lemma plugin_loop_for_each:
  assumes "registry_inv s" and "i \<le> length (registered s)"
    and "length (registered s) - i < fuel"
    and "\<And>p s u s'. body p s = Inr (u, s') \<Longrightarrow> same_registry s s'"
  shows "plugin_loop body fuel (int i) s = for_eachk (drop i (registered s)) body s"
  using assms(1-3)
proof (induction fuel arbitrary: i s)
  case 0
  then show ?case by simp
next
  case (Suc fuel)
  have len: "length (registered s) = nat (plugin_count s)"
    by (rule length_registered [OF Suc.prems(1)])
  show ?case
  proof (cases "int i < plugin_count s")
    case False
    then have "drop i (registered s) = []" using len by simp
    with False show ?thesis by (simp add: retk_def)
  next
    case True
    then have i: "i < length (registered s)" using len by simp
    have slot: "arr_get (plugins s) (int i) = Inr (Some (registered s ! i))"
      using registered_slot [OF Suc.prems(1), of "int i"] True by simp
    have drop: "drop i (registered s) = registered s ! i # drop (Suc i) (registered s)"
      using i by (simp add: Cons_nth_drop_Suc)
    show ?thesis
    proof (cases "body (registered s ! i) s")
      case (Inl e)
      then show ?thesis using True slot drop by (simp add: kprog_simps)
    next
      case (Inr r)
      then obtain s1 where s1: "body (registered s ! i) s = Inr ((), s1)" by (cases r) auto
      then have same: "same_registry s s1" by (rule assms(4))
      have "plugin_loop body fuel (int (Suc i)) s1 = for_eachk (drop (Suc i) (registered s1)) body s1"
        using Suc.prems i same
        by (intro Suc.IH) (simp_all add: same_registry_inv same_registry_registered)
      then show ?thesis
        using True slot drop s1 same
        by (simp add: kprog_simps same_registry_registered add.commute)
    qed
  qed
qed

context plugin_functions
begin

lemma plugin_init_for_each:
  assumes "registry_inv s"
  shows "plugin_init run s = seqk (for_eachk (registered s) (call_init run)) (retk 0) s"
proof -
  have "length (registered s) < 128"
    using length_registered_le [OF assms] by simp
  then have "plugin_loop (call_init run) 128 0 s = for_eachk (registered s) (call_init run) s"
    using plugin_loop_for_each [OF assms, of 0 128 "call_init run"] call_init_keeps by simp
  then show ?thesis by (simp add: plugin_init_def MAX_PLUGINS_def seqk_def bindk_def)
qed

lemma plugin_cleanup_for_each:
  assumes "registry_inv s"
  shows "plugin_cleanup run s = seqk (for_eachk (registered s) (call_cleanup run)) (retk 0) s"
proof -
  have "length (registered s) < 128"
    using length_registered_le [OF assms] by simp
  then have "plugin_loop (call_cleanup run) 128 0 s = for_eachk (registered s) (call_cleanup run) s"
    using plugin_loop_for_each [OF assms, of 0 128 "call_cleanup run"] call_cleanup_keeps by simp
  then show ?thesis by (simp add: plugin_cleanup_def MAX_PLUGINS_def seqk_def bindk_def)
qed

end

lemma list_plugins:
  "for_eachk ps list_plugin s
     = Inr ((), s\<lparr>klog := klog s @ map PrintPlugin (List.map_filter (\<lambda>p. plugin_name (plugin_objs s p)) ps)\<rparr>)"
proof (induction ps arbitrary: s)
  case Nil
  then show ?case by (simp add: retk_apply map_filter_simps)
next
  case (Cons p ps)
  then show ?case
    by (cases "plugin_name (plugin_objs s p)")
       (simp_all add: list_plugin_def seqk_def bindk_def retk_apply emit_apply map_filter_simps)
qed

text \<open>The listing prints the names of the registered plugins, in the order of their registration.\<close>

lemma plugin_list_apply:
  assumes "registry_inv s"
  shows "plugin_list s = Inr ((), s\<lparr>klog := klog s
     @ map PrintPlugin (List.map_filter (\<lambda>p. plugin_name (plugin_objs s p)) (registered s))\<rparr>)"
proof -
  have "length (registered s) < 128"
    using length_registered_le [OF assms] by simp
  moreover have "same_registry s s'" if "list_plugin p s = Inr (u, s')" for p u and s s' :: "'a registry_state_scheme"
    using that by (cases "plugin_name (plugin_objs s p)")
      (auto simp: list_plugin_def retk_apply emit_apply same_registry_def)
  ultimately have "plugin_loop list_plugin 128 0 s = for_eachk (registered s) list_plugin s"
    using plugin_loop_for_each [OF assms, of 0 128 list_plugin] by simp
  then show ?thesis by (simp add: plugin_list_def MAX_PLUGINS_def list_plugins)
qed

section \<open>Registering several plugins\<close>

definition empty_registry :: "'a registry_state_scheme \<Rightarrow> bool" where
  "empty_registry s \<longleftrightarrow> plugins s = replicate 128 None \<and> plugin_count s = 0"

lemma empty_registry_inv: "empty_registry s \<Longrightarrow> registry_inv s \<and> registered s = []"
  by (simp add: empty_registry_def registry_inv_def registered_def)

lemma plugin_register_step:
  assumes "registry_inv s" and "length (registered s) < 127"
  shows "\<exists>s'. plugin_register p s = Inr (0, s') \<and> registry_inv s'
           \<and> registered s' = registered s @ [p]
           \<and> plugin_id (plugin_objs s' p) = int (length (registered s))
           \<and> (\<forall>q. q \<noteq> p \<longrightarrow> plugin_objs s' q = plugin_objs s q)"
proof -
  have cnt: "plugin_count s < 127" "nat (plugin_count s) < length (plugins s)"
    using assms length_registered [OF assms(1)] by (auto simp: registry_inv_def)
  have sn: "nat (plugin_count s + 1) = Suc (nat (plugin_count s))"
    using assms(1) by (simp add: registry_inv_def nat_add_distrib)
  show ?thesis
    using assms(1) cnt length_registered [OF assms(1)]
    by (simp add: plugin_register_ok [OF assms(1) cnt(1)] registry_inv_def registered_def
        sn take_Suc_update upd_plugin_def)
qed

fun register_all :: "nat list \<Rightarrow> ('a registry_state_scheme, int list) kprog" where
  "register_all [] = retk []"
| "register_all (p # ps) =
     bindk (plugin_register p) (\<lambda>r. bindk (register_all ps) (\<lambda>rs. retk (r # rs)))"

lemma register_all_results:
  assumes "registry_inv s"
  shows "\<exists>s'. register_all ps s
           = Inr (map (\<lambda>k. if length (registered s) + k < 127 then 0 else 1) [0..<length ps], s')
         \<and> registry_inv s' \<and> registered s' = take 127 (registered s @ ps)"
  using assms
proof (induction ps arbitrary: s)
  case Nil
  have "length (registered s) \<le> 127"
    by (rule length_registered_le [OF Nil])
  with Nil show ?case by (simp add: retk_def)
next
  case (Cons p ps)
  have split: "[0..<length (p # ps)] = 0 # map Suc [0..<length ps]"
    by (simp add: map_Suc_upt upt_conv_Cons del: upt_Suc)
  show ?case
  proof (cases "length (registered s) < 127")
    case True
    then obtain s1 where s1: "plugin_register p s = Inr (0, s1)" "registry_inv s1"
        "registered s1 = registered s @ [p]"
      using plugin_register_step [OF Cons.prems] by blast
    from Cons.IH [OF s1(2)] s1(1,3) True show ?thesis
      unfolding split by (auto simp: kprog_simps o_def)
  next
    case False
    have len: "length (registered s) = 127"
      using length_registered_le [OF Cons.prems] False by simp
    then have "plugin_register p s = Inr (1, s)"
      using length_registered [OF Cons.prems] by (intro plugin_register_full) linarith
    with Cons.IH [OF Cons.prems] len show ?thesis
      unfolding split by (auto simp: kprog_simps o_def)
  qed
qed

section \<open>Properties\<close>

text \<open>
  C33. Registration: from an empty registry, plugins are stored in the order of their
  registration; the first 127 calls return 0 and every further one returns 1 and stores nothing
  (the last of the 128 slots is never used). The well-formedness of the registry is kept.
\<close>

theorem plugin_register_capacity:
  assumes "empty_registry s"
  shows "\<exists>s'. register_all ps s = Inr (map (\<lambda>k. if k < 127 then 0 else 1) [0..<length ps], s')
           \<and> registry_inv s' \<and> registered s' = take 127 ps"
  using register_all_results [of s ps] empty_registry_inv [OF assms] by simp

definition demo_registry :: registry_state where
  "demo_registry = timer_state.extend demo_timer_state \<lparr>plugins = replicate 128 None, plugin_count = 0,
     plugin_objs = (\<lambda>p. \<lparr>plugin_name = Some ''8042 keyboard'', init_fn = Some KeyboardInit,
       cleanup_fn = Some KeyboardCleanup, enable_fn = None, disable_fn = None,
       callback_fn = None, inject_fn = Some KeyboardInject, update_fn = Some KeyboardUpdate,
       plugin_id = 0, plugin_data = 0\<rparr>)\<rparr>"

lemma demo_registry_empty: "empty_registry demo_registry"
  by (simp add: empty_registry_def demo_registry_def timer_state.defs)

theorem plugin_register_capacity_witness:
  "\<exists>s'. register_all [0, 1] demo_registry = Inr (map (\<lambda>k. if k < 127 then 0 else 1) [0..<length [0, 1 :: nat]], s')
     \<and> registry_inv s' \<and> registered s' = take 127 [0, 1]"
  by (rule plugin_register_capacity [OF demo_registry_empty])

text \<open>
  A successful registration gives the plugin the number of its slot as \<open>_id\<close> and changes no
  other plugin object; registering never fails while fewer than 127 plugins are there.
\<close>

theorem plugin_register_id:
  assumes "registry_inv s" and "length (registered s) < 127"
  shows "\<exists>s'. plugin_register p s = Inr (0, s')
           \<and> plugin_id (plugin_objs s' p) = int (length (registered s))
           \<and> registered s' ! nat (plugin_id (plugin_objs s' p)) = p
           \<and> (\<forall>q. q \<noteq> p \<longrightarrow> plugin_objs s' q = plugin_objs s q)"
  using plugin_register_step [OF assms, of p] by auto

theorem plugin_register_id_witness:
  "\<exists>s'. plugin_register 3 demo_registry = Inr (0, s')
     \<and> plugin_id (plugin_objs s' 3) = int (length (registered demo_registry))
     \<and> registered s' ! nat (plugin_id (plugin_objs s' 3)) = 3
     \<and> (\<forall>q. q \<noteq> 3 \<longrightarrow> plugin_objs s' q = plugin_objs demo_registry q)"
  by (rule plugin_register_id) (simp_all add: empty_registry_inv [OF demo_registry_empty])

end
