(* ===== verification/KD_Interrupts.thy ===== *)
theory KD_Interrupts
  imports KD_Hook
begin

text \<open>
  \<open>source/interrupts.c\<close> (which CPUs an interrupt goes to), \<open>kstat_irqs\<close> of \<open>main.c\<close> (how often it
  was handled), and \<open>source/prefetch.c\<close> (touching the pages of a handler).
\<close>

section \<open>Definitions\<close>

text \<open>
  The affinity mask is read as its first 32 bits. Which field holds it depends on the kernel
  version; on x86 a pending change of the affinity takes precedence.
\<close>

definition get_irq_affinity :: "kenv \<Rightarrow> int \<Rightarrow> 'a kernel_scheme \<Rightarrow> u32 res" where
  "get_irq_affinity env irq s =
     (case irq_to_desc irq s of
        None \<Rightarrow> Inr 1
      | Some desc \<Rightarrow>
          (let mask = (if linux_version_code env \<ge> kernel_version 4 2 0
                       then common_affinity desc else affinity_hint desc)
           in if mask = None then Inr 1
              else (let mask = (if arch_x86 env \<and> affinity_pending desc
                                then pending_mask desc else mask)
                    in case mask of None \<Rightarrow> Inl NullDeref | Some m \<Rightarrow> Inr (word_of_nat m))))"

definition kstat_irqs :: "kenv \<Rightarrow> int \<Rightarrow> 'a kernel_scheme \<Rightarrow> u32" where
  "kstat_irqs env irq s =
     (case irq_to_desc irq s of
        None \<Rightarrow> 0
      | Some desc \<Rightarrow>
          (case desc_kstat desc of
             None \<Rightarrow> 0
           | Some per_cpu \<Rightarrow> foldl (\<lambda>sum cpu. sum + per_cpu cpu) 0 (possible_cpus env)))"

text \<open>One load per word of the range; a load from address 0 is a null dereference.\<close>

definition prefetch_range :: "kenv \<Rightarrow> addr \<Rightarrow> nat \<Rightarrow> ('a kernel_scheme, unit) kprog" where
  "prefetch_range env start len =
     for_eachk [0..<len div sizeof_size_t env] (\<lambda>i.
       let a = start + word_of_nat (i * sizeof_size_t env)
       in if a = 0 then stopk NullDeref else emit (PrefetchTouch a))"

section \<open>Facts\<close>

text \<open>The mask the code ends up reading.\<close>

definition effective_affinity :: "kenv \<Rightarrow> irq_desc \<Rightarrow> nat option" where
  "effective_affinity env desc =
     (if arch_x86 env \<and> affinity_pending desc then pending_mask desc
      else if linux_version_code env \<ge> kernel_version 4 2 0 then common_affinity desc
      else affinity_hint desc)"

lemma get_irq_affinity_mask:
  assumes "descs s irq = Some desc" and "effective_affinity env desc = Some m"
    and "linux_version_code env \<ge> kernel_version 4 2 0 \<Longrightarrow> common_affinity desc \<noteq> None"
    and "linux_version_code env < kernel_version 4 2 0 \<Longrightarrow> affinity_hint desc \<noteq> None"
  shows "get_irq_affinity env irq s = Inr (word_of_nat m)"
  using assms
  by (auto simp: get_irq_affinity_def irq_to_desc_def effective_affinity_def Let_def not_le
      split: if_splits)

text \<open>Hooking an interrupt does not change where interrupts go.\<close>

lemma affinity_hook_upd: "get_irq_affinity env j (hook_upd i h s) = get_irq_affinity env j s"
  by (cases "j = i"; cases "descs s j")
     (auto simp: get_irq_affinity_def irq_to_desc_def hook_upd_def upd_desc_def Let_def)

lemma affinity_same_hooks:
  "same_hooks s s' \<Longrightarrow> get_irq_affinity env i s' = get_irq_affinity env i s"
  by (simp add: get_irq_affinity_def irq_to_desc_def same_hooks_def)

lemma foldl_word_sum: "foldl (\<lambda>sum c. sum + f c) (a :: u32) cs = a + sum_list (map f cs)"
  by (induction cs arbitrary: a) (simp_all add: add.assoc)

lemma unat_sum_list_word:
  "unat (sum_list (map f cs) :: u32) = sum_list (map (\<lambda>c. unat (f c)) cs) mod 2 ^ 32"
proof (induction cs)
  case Nil
  then show ?case by simp
next
  case (Cons c cs)
  have "unat (f c + sum_list (map f cs)) = (unat (f c) + unat (sum_list (map f cs))) mod 2 ^ 32"
    by (simp add: unat_word_ariths)
  with Cons.IH show ?case by (simp add: mod_add_right_eq)
qed

text \<open>The addresses \<open>prefetch_range\<close> touches, where none of them is 0.\<close>

definition prefetched :: "kenv \<Rightarrow> addr \<Rightarrow> nat \<Rightarrow> addr list" where
  "prefetched env start len =
     map (\<lambda>i. start + word_of_nat (i * sizeof_size_t env)) [0..<len div sizeof_size_t env]"

lemma for_eachk_emit:
  fixes s :: "'a kernel_scheme"
  assumes "\<And>i. i \<in> set js \<Longrightarrow> f i \<noteq> 0"
  shows "for_eachk js (\<lambda>i. let a = f i in if a = 0 then stopk NullDeref else emit (PrefetchTouch a)) s
    = Inr ((), s\<lparr>klog := klog s @ map (\<lambda>i. PrefetchTouch (f i)) js\<rparr>)"
  using assms
proof (induction js arbitrary: s)
  case (Cons i js)
  have "for_eachk js (\<lambda>i. let a = f i in if a = 0 then stopk NullDeref else emit (PrefetchTouch a)) t
      = Inr ((), t\<lparr>klog := klog t @ map (\<lambda>i. PrefetchTouch (f i)) js\<rparr>)" for t :: "'a kernel_scheme"
    by (rule Cons.IH) (use Cons.prems in simp)
  with Cons.prems show ?case by (simp add: kprog_simps Let_def)
qed (simp add: kprog_simps)

lemma prefetch_range_ok:
  assumes "0 \<notin> set (prefetched env start len)"
  shows "prefetch_range env start len s =
           Inr ((), s\<lparr>klog := klog s @ map PrefetchTouch (prefetched env start len)\<rparr>)"
  unfolding prefetch_range_def
  using assms by (subst for_eachk_emit) (auto simp: prefetched_def image_iff o_def)

lemma prefetched_nonzero:
  assumes "sizeof_size_t env = 8" and "0 < unat a" and "unat a \<le> 65536"
  shows "0 \<notin> set (prefetched env a 4096)"
proof -
  have small: "unat a + i * 8 < 2 ^ 64" if "i < 512" for i
    using that assms(3) by simp
  have "unat (a + word_of_nat (i * 8)) = unat a + i * 8" if "i < 512" for i
    using small [OF that] by (simp add: unat_word_ariths unat_of_nat take_bit_eq_mod)
  with assms(2) have "a + word_of_nat (i * 8) \<noteq> 0" if "i < 512" for i
    using that by (metis add_gr_0 less_numeral_extra(3) unsigned_0)
  with assms(1) show ?thesis by (auto simp: prefetched_def)
qed

lemma prefetch_range_null:
  assumes "0 < sizeof_size_t env" and "sizeof_size_t env \<le> len"
  shows "prefetch_range env 0 len s = Inl NullDeref"
proof -
  have "0 < len div sizeof_size_t env" using assms by (simp add: div_greater_zero_iff)
  then obtain n where "len div sizeof_size_t env = Suc n" by (cases "len div sizeof_size_t env") auto
  then show ?thesis
    by (simp add: prefetch_range_def upt_conv_Cons kprog_simps Let_def del: upt_Suc)
qed

section \<open>Properties\<close>

text \<open>
  \<open>get_irq_affinity\<close> reports CPU \<open>c\<close> (of the first 32) exactly when the mask in force for the
  interrupt contains it: the pending mask on x86 while an affinity change is pending, else the
  mask of the descriptor; without a descriptor or without a mask it reports CPU 0 alone.
\<close>

theorem get_irq_affinity_bits:
  assumes "linux_version_code env \<ge> kernel_version 4 2 0"
    and "\<And>desc. descs s irq = Some desc \<Longrightarrow> affinity_pending desc \<Longrightarrow> pending_mask desc \<noteq> None"
  shows "\<exists>w. get_irq_affinity env irq s = Inr w \<and> (\<forall>c < 32. bit w c =
     (case descs s irq of
        None \<Rightarrow> c = 0
      | Some desc \<Rightarrow>
          if common_affinity desc = None then c = 0
          else bit (the (effective_affinity env desc)) c))"
proof -
  have one: "bit (1 :: u32) c = (c = 0)" for c by (simp add: bit_1_iff)
  have nat: "c < 32 \<Longrightarrow> bit (word_of_nat m :: u32) c = bit m c" for m c
    by (simp add: unsigned_of_nat bit_simps)
  show ?thesis
  proof (cases "descs s irq")
    case None
    then show ?thesis by (simp add: get_irq_affinity_def irq_to_desc_def one)
  next
    case (Some desc)
    show ?thesis
    proof (cases "common_affinity desc")
      case None
      then show ?thesis
        using Some assms(1) by (simp add: get_irq_affinity_def irq_to_desc_def one)
    next
      case mask: (Some m)
      have "effective_affinity env desc \<noteq> None"
        using assms(1) assms(2) [OF Some] mask by (auto simp: effective_affinity_def)
      then obtain m' where m': "effective_affinity env desc = Some m'" by blast
      have "get_irq_affinity env irq s = Inr (word_of_nat m')"
        using Some m' assms(1) mask by (intro get_irq_affinity_mask) auto
      with Some mask m' show ?thesis by (simp add: nat)
    qed
  qed
qed

definition affine_kernel :: kernel where
  "affine_kernel = \<lparr>klog = [], entropy_pos = 0, alloc_pos = 0,
     descs = (\<lambda>i. if i = 1 then Some \<lparr>handle_irq = Some (OtherHandler 2), irqs_unhandled = 0,
        has_action = True, common_affinity = Some 5, affinity_hint = None, affinity_pending = True,
        pending_mask = Some 9, desc_kstat = Some (\<lambda>c. 4294967290 + word_of_nat c)\<rparr> else None)\<rparr>"

definition affine_env :: kenv where
  "affine_env = \<lparr>entropy = (\<lambda>_. 0), kallsyms_lookup_name = (\<lambda>_. 0), vmalloc_result = (\<lambda>_. 0),
     possible_cpus = [0, 1, 2, 3], online_cpus = [0, 1], i8042_ports = [],
     i8042_install_filter_result = 0, own_code_addr = (\<lambda>_. 4096), sizeof_size_t = 8,
     linux_version_code = kernel_version 4 6 0, arch_x86 = True\<rparr>"

theorem get_irq_affinity_bits_witness:
  "\<exists>w. get_irq_affinity affine_env 1 affine_kernel = Inr w \<and> (\<forall>c < 32. bit w c =
     (case descs affine_kernel 1 of
        None \<Rightarrow> c = 0
      | Some desc \<Rightarrow>
          if common_affinity desc = None then c = 0
          else bit (the (effective_affinity affine_env desc)) c))"
  by (rule get_irq_affinity_bits)
     (auto simp: affine_env_def affine_kernel_def kernel_version_def split: if_splits)

text \<open>
  \<open>kstat_irqs\<close> is the number of times the interrupt was handled on all possible CPUs, modulo
  \<open>2^32\<close>, and 0 without a descriptor or without statistics.
\<close>

theorem kstat_irqs_total:
  "unat (kstat_irqs env irq s) =
     (case Option.bind (descs s irq) desc_kstat of
        None \<Rightarrow> 0
      | Some per_cpu \<Rightarrow> sum_list (map (\<lambda>c. unat (per_cpu c)) (possible_cpus env)) mod 2 ^ 32)"
  by (auto simp: kstat_irqs_def irq_to_desc_def foldl_word_sum unat_sum_list_word split: option.splits)

end
