(* ===== verification/KD_Timing.thy ===== *)
theory KD_Timing
  imports KD_Prelude
begin

text \<open>
  The time sources behind \<open>get_timing\<close>: \<open>source/timing/monotonic.c\<close>, \<open>source/x86/timing.c\<close>,
  \<open>source/arm/timing.c\<close> and \<open>source/arm64/timing.c\<close>. An operation on the performance-monitor
  registers is a function from the values it reads to the list of its writes; what the hardware
  makes of a write is not in the sources and appears as a hypothesis where a property needs it.
\<close>

section \<open>Reading the time\<close>

record timespec =
  tv_sec :: int
  tv_nsec :: int

definition monotonic_get_timing :: "timespec \<Rightarrow> u64" where
  "monotonic_get_timing time = (word_of_int (tv_sec time) * 1000000000) + word_of_int (tv_nsec time)"

text \<open>x86 before Linux 3.17: the two halves that \<open>rdtsc\<close> leaves in \<open>eax\<close> and \<open>edx\<close>.\<close>

definition x86_get_timing :: "u32 \<Rightarrow> u32 \<Rightarrow> u64" where
  "x86_get_timing low high = ucast low OR push_bit 32 (ucast high)"

text \<open>ARMv7: the 32-bit cycle counter. ARMv8: the 64-bit one.\<close>

definition arm_get_timing :: "u32 \<Rightarrow> u64" where
  "arm_get_timing result = ucast result"

definition arm64_get_timing :: "u64 \<Rightarrow> u64" where
  "arm64_get_timing result = result"

section \<open>Starting and stopping the counters\<close>

text \<open>The two sources that have no counter to start: nothing happens.\<close>

definition x86_timing_init :: "('s, unit) kprog" where "x86_timing_init = retk ()"
definition x86_timing_terminate :: "('s, unit) kprog" where "x86_timing_terminate = retk ()"
definition monotonic_timing_init :: "('s, unit) kprog" where "monotonic_timing_init = retk ()"
definition monotonic_timing_terminate :: "('s, unit) kprog" where "monotonic_timing_terminate = retk ()"

datatype pmu_reg = PMCR | PMCNTENSET

definition ARMV7_PMCR_E :: u32 where "ARMV7_PMCR_E = push_bit 0 1"
definition ARMV7_PMCR_P :: u32 where "ARMV7_PMCR_P = push_bit 1 1"
definition ARMV7_PMCR_C :: u32 where "ARMV7_PMCR_C = push_bit 2 1"
definition ARMV7_PMCR_X :: u32 where "ARMV7_PMCR_X = push_bit 4 1"
definition ARMV7_PMCNTENSET_C :: u32 where "ARMV7_PMCNTENSET_C = push_bit 31 1"

text \<open>
  The value prepared for the overflow status register at the end of \<open>timing_init\<close> is never
  written, so it leaves no trace here.
\<close>

definition arm_timing_init :: "(pmu_reg \<times> u32) list" where
  "arm_timing_init =
     (let value = 0;
          value = value OR ARMV7_PMCR_E;
          value = value OR ARMV7_PMCR_P;
          value = value OR ARMV7_PMCR_C;
          value = value OR ARMV7_PMCR_X;
          enable = 0;
          enable = enable OR ARMV7_PMCNTENSET_C;
          enable = foldl (\<lambda>v x. v OR push_bit x 1) enable [0..<4]
      in [(PMCR, value), (PMCNTENSET, enable)])"

text \<open>
  The read of \<open>PMCR\<close> in \<open>timing_terminate\<close> names \<open>value\<close> as an input of the instruction, so the
  C code does not say what \<open>value\<close> holds afterwards: it is an argument here.
\<close>

definition arm_timing_terminate :: "u32 \<Rightarrow> (pmu_reg \<times> u32) list" where
  "arm_timing_terminate value =
     (let mask = 0;
          mask = mask OR ARMV7_PMCR_E;
          mask = mask OR ARMV7_PMCR_C;
          mask = mask OR ARMV7_PMCR_P;
          mask = mask OR ARMV7_PMCR_X
      in [(PMCR, value AND NOT mask)])"

definition ARMV8_PMCR_E :: u32 where "ARMV8_PMCR_E = push_bit 0 1"
definition ARMV8_PMCR_P :: u32 where "ARMV8_PMCR_P = push_bit 1 1"
definition ARMV8_PMCR_C :: u32 where "ARMV8_PMCR_C = push_bit 2 1"
definition ARMV8_PMCNTENSET_EL0_EN :: u32 where "ARMV8_PMCNTENSET_EL0_EN = push_bit 31 1"

definition arm64_timing_init :: "u32 \<Rightarrow> u32 \<Rightarrow> (pmu_reg \<times> u32) list" where
  "arm64_timing_init pmcr cntenset =
     (let value = pmcr OR ARMV8_PMCR_E;
          value = value OR ARMV8_PMCR_C;
          value = value OR ARMV8_PMCR_P
      in [(PMCR, value), (PMCNTENSET, cntenset OR ARMV8_PMCNTENSET_EL0_EN)])"

text \<open>\<open>timing_terminate\<close> reads \<open>PMCR\<close> twice, \<open>pmcr\<close> first and \<open>pmcr'\<close> at the end.\<close>

definition arm64_timing_terminate :: "u32 \<Rightarrow> u32 \<Rightarrow> u32 \<Rightarrow> (pmu_reg \<times> u32) list" where
  "arm64_timing_terminate pmcr cntenset pmcr' =
     (let mask = 0 OR ARMV8_PMCR_E OR ARMV8_PMCR_C OR ARMV8_PMCR_P;
          mask2 = 0 OR ARMV8_PMCNTENSET_EL0_EN
      in [(PMCR, pmcr AND NOT mask), (PMCNTENSET, cntenset AND NOT mask2),
          (PMCR, pmcr' OR ARMV8_PMCR_C)])"

lemmas pmu_bits = ARMV7_PMCR_E_def ARMV7_PMCR_P_def ARMV7_PMCR_C_def ARMV7_PMCR_X_def
  ARMV7_PMCNTENSET_C_def ARMV8_PMCR_E_def ARMV8_PMCR_P_def ARMV8_PMCR_C_def
  ARMV8_PMCNTENSET_EL0_EN_def

section \<open>Facts\<close>

definition valid_timespec :: "timespec \<Rightarrow> bool" where
  "valid_timespec t \<longleftrightarrow> 0 \<le> tv_sec t \<and> 0 \<le> tv_nsec t \<and> tv_nsec t < 1000000000
     \<and> tv_sec t * 1000000000 + tv_nsec t < 2 ^ 64"

lemma uint_monotonic_get_timing:
  assumes "valid_timespec t"
  shows "uint (monotonic_get_timing t) = tv_sec t * 1000000000 + tv_nsec t"
proof -
  have "monotonic_get_timing t = word_of_int (tv_sec t * 1000000000 + tv_nsec t)"
    by (simp add: monotonic_get_timing_def)
  moreover have "(tv_sec t * 1000000000 + tv_nsec t) mod 2 ^ 64 = tv_sec t * 1000000000 + tv_nsec t"
    using assms by (intro mod_pos_pos_trivial) (auto simp: valid_timespec_def)
  ultimately show ?thesis by (simp only: uint_word_of_int) simp
qed

lemma unat_x86_get_timing: "unat (x86_get_timing low high) = unat high * 2 ^ 32 + unat low"
proof -
  have "ucast low AND push_bit 32 (ucast high) = (0 :: u64)"
    by (rule bit_word_eqI) (auto simp: bit_simps dest: bit_imp_le_length)
  then have "x86_get_timing low high = push_bit 32 (ucast high) + ucast low"
    unfolding x86_get_timing_def
    by (simp add: or.commute and.commute disjunctive_add_eq_or)
  moreover have "unat (push_bit 32 (ucast high :: u64)) = unat high * 2 ^ 32"
  proof -
    have "unat high * 2 ^ 32 < (2 :: nat) ^ 64" using unat_u32_less [of high] by simp
    then show ?thesis
      by (simp add: push_bit_eq_mult unat_word_ariths unat_ucast_32_64 mult.commute)
  qed
  moreover have "unat high * 2 ^ 32 + unat low < (2 :: nat) ^ 64"
    using unat_u32_less [of high] unat_u32_less [of low] by simp
  ultimately show ?thesis
    by (simp add: unat_word_ariths unat_ucast_32_64)
qed

section \<open>Properties\<close>

text \<open>
  The monotonic time source keeps the order of time: as long as the nanoseconds since boot
  fit 64 bits, a later time gives a larger stamp, and no two times share one.
\<close>

theorem monotonic_get_timing_order:
  assumes "valid_timespec t" and "valid_timespec u"
  shows "monotonic_get_timing t < monotonic_get_timing u \<longleftrightarrow>
           tv_sec t < tv_sec u \<or> tv_sec t = tv_sec u \<and> tv_nsec t < tv_nsec u"
  using assms
  by (auto simp: word_less_def uint_monotonic_get_timing) (auto simp: valid_timespec_def)

theorem monotonic_get_timing_order_witness:
  "monotonic_get_timing \<lparr>tv_sec = 3, tv_nsec = 999999999\<rparr> < monotonic_get_timing \<lparr>tv_sec = 4, tv_nsec = 5\<rparr>
     \<longleftrightarrow> tv_sec \<lparr>tv_sec = 3, tv_nsec = 999999999\<rparr> < tv_sec \<lparr>tv_sec = 4, tv_nsec = 5\<rparr>
       \<or> tv_sec \<lparr>tv_sec = 3, tv_nsec = 999999999\<rparr> = tv_sec \<lparr>tv_sec = 4, tv_nsec = 5\<rparr>
         \<and> tv_nsec \<lparr>tv_sec = 3, tv_nsec = 999999999\<rparr> < tv_nsec \<lparr>tv_sec = 4, tv_nsec = 5\<rparr>"
  by (rule monotonic_get_timing_order) (simp_all add: valid_timespec_def)

text \<open>
  On ARMv8, unloading does not stop the cycle counter: \<open>timing_terminate\<close> clears the enable
  bit in what it writes to \<open>PMCNTENSET_EL0\<close>, but in that register a written 0 has no effect (the
  architecture gives it as write-one-to-set), so a counter that was enabled stays enabled.
\<close>

theorem arm64_cycle_counter_stays_enabled:
  assumes set_register: "\<And>old w. apply_write PMCNTENSET old w = old OR w"
    and "bit cntenset 31"
  shows "(PMCNTENSET, cntenset AND NOT ARMV8_PMCNTENSET_EL0_EN)
           \<in> set (arm64_timing_terminate pmcr cntenset pmcr')
       \<and> bit (foldl (\<lambda>r (reg, w). if reg = PMCNTENSET then apply_write reg r w else r) cntenset
           (arm64_timing_terminate pmcr cntenset pmcr')) 31"
  using assms by (simp add: arm64_timing_terminate_def Let_def bit_simps)

theorem arm64_cycle_counter_stays_enabled_witness:
  "(PMCNTENSET, 2147483648 AND NOT ARMV8_PMCNTENSET_EL0_EN)
        \<in> set (arm64_timing_terminate 7 2147483648 0)
     \<and> bit (foldl (\<lambda>r (reg, w). if reg = PMCNTENSET then (\<lambda>_ old w. old OR w) reg r w else r) 2147483648
           (arm64_timing_terminate 7 2147483648 0)) 31"
  by (rule arm64_cycle_counter_stays_enabled) (simp_all add: bit_simps)

end
