(* ===== verification/KD_Traces.thy ===== *)
theory KD_Traces
  imports KD_Plugin
begin

text \<open>
  \<open>source/traces.c\<close>: two buffers of time stamps (real and fake key strokes), each filled by the
  kernel side and read by user space through a misc device. \<open>TRACES_BUFFER\<close>, which no file of the
  repository defines, is the length of the buffer, a parameter.
\<close>

section \<open>Definitions\<close>

text \<open>The pointer to a buffer: null, allocated, or left over after \<open>vfree\<close>.\<close>

datatype trace_buffer = NoBuffer | Buffer "u64 list" | FreedBuffer

record trace_ring =
  traces :: trace_buffer
  traces_count :: u64
  traces_read :: u64

text \<open>
  \<open>copy_to_user\<close> of \<open>n\<close> stamps from position \<open>i\<close>: nothing is touched when \<open>n = 0\<close>; reading a
  missing or freed buffer, or past the end of the buffer, is undefined.
\<close>

definition copy_stamps :: "trace_buffer \<Rightarrow> nat \<Rightarrow> nat \<Rightarrow> u64 list res" where
  "copy_stamps b i n =
     (if n = 0 then Inr []
      else (case b of
              NoBuffer \<Rightarrow> Inl NullDeref
            | FreedBuffer \<Rightarrow> Inl OutOfBounds
            | Buffer xs \<Rightarrow> if i + n \<le> length xs then Inr (take n (drop i xs)) else Inl OutOfBounds))"

text \<open>
  \<open>__traces_dev_read\<close>: the result is the return value and the stamps copied. The argument
  \<open>copy_fault\<close> says whether \<open>copy_to_user\<close> reports a fault in the user's buffer.
\<close>

definition traces_dev_read :: "bool \<Rightarrow> u64 \<Rightarrow> (trace_ring, int \<times> u64 list) kprog" where
  "traces_dev_read copy_fault len s =
     (if len mod 8 \<noteq> 0 then retk (- EFAULT, [])
      else
        (let maximum_read = len div 8;
             maximum_available = traces_count s - traces_read s;
             actual_read = (if maximum_read > maximum_available then maximum_available
                            else maximum_read)
         in bindk (liftk (copy_stamps (traces s) (unat (traces_read s)) (unat actual_read))) (\<lambda>xs.
            if copy_fault then retk (- EFAULT, [])
            else seqk (modk (\<lambda>s. s\<lparr>traces_read := traces_read s + actual_read\<rparr>))
                      (retk (uint (actual_read * 8), xs))))) s"

definition POLLIN :: u32 where "POLLIN = 1"
definition POLLRDNORM :: u32 where "POLLRDNORM = 64"

definition traces_dev_poll :: "trace_ring \<Rightarrow> u32" where
  "traces_dev_poll s =
     (let mask = 0
      in if traces_read s < traces_count s then mask OR (POLLIN OR POLLRDNORM) else mask)"

definition traces_store :: "trace_buffer \<Rightarrow> nat \<Rightarrow> u64 \<Rightarrow> trace_buffer res" where
  "traces_store b i v =
     (case b of
        NoBuffer \<Rightarrow> Inl NullDeref
      | FreedBuffer \<Rightarrow> Inl OutOfBounds
      | Buffer xs \<Rightarrow> if i < length xs then Inr (Buffer (xs[i := v])) else Inl OutOfBounds)"

text \<open>Appending a stamp, the common part of \<open>traces_add_real\<close> and \<open>traces_add_fake\<close>.\<close>

definition traces_add :: "u64 \<Rightarrow> u64 \<Rightarrow> (trace_ring, unit) kprog" where
  "traces_add TRACES_BUFFER ts s =
     bindk (liftk (traces_store (traces s) (unat (traces_count s)) ts)) (\<lambda>b.
     seqk (modk (\<lambda>s. s\<lparr>traces := b, traces_count := traces_count s + 1\<rparr>))
          (modk (\<lambda>s. if traces_count s \<ge> TRACES_BUFFER then s\<lparr>traces_count := 0\<rparr> else s))) s"

definition stamp_event :: "event_type \<Rightarrow> u64 \<Rightarrow> u64" where
  "stamp_event ty ts =
     (case ty of KEY_PRESS \<Rightarrow> ts OR 1 | KEY_RELEASE \<Rightarrow> ts AND NOT 1)"

definition traces_add_real :: "u64 \<Rightarrow> u64 \<Rightarrow> event \<Rightarrow> (trace_ring, unit) kprog" where
  "traces_add_real TRACES_BUFFER ts e = traces_add TRACES_BUFFER (stamp_event (event_type e) ts)"

definition traces_add_fake :: "u64 \<Rightarrow> u64 \<Rightarrow> (trace_ring, unit) kprog" where
  "traces_add_fake TRACES_BUFFER ts = traces_add TRACES_BUFFER ts"

definition traces_ring_reset :: "trace_ring \<Rightarrow> trace_ring" where
  "traces_ring_reset s = s\<lparr>traces_count := 0, traces_read := 0\<rparr>"

section \<open>Setting up and tearing down\<close>

record traces_state =
  traces_real :: trace_ring
  traces_fake :: trace_ring
  real_dev_registered :: bool
  fake_dev_registered :: bool

definition set_real_buffer :: "trace_buffer \<Rightarrow> traces_state \<Rightarrow> traces_state" where
  "set_real_buffer b s = s\<lparr>traces_real := (traces_real s)\<lparr>traces := b\<rparr>\<rparr>"

definition set_fake_buffer :: "trace_buffer \<Rightarrow> traces_state \<Rightarrow> traces_state" where
  "set_fake_buffer b s = s\<lparr>traces_fake := (traces_fake s)\<lparr>traces := b\<rparr>\<rparr>"

definition vfree_real :: "traces_state \<Rightarrow> traces_state" where
  "vfree_real s = (case traces (traces_real s) of
     NoBuffer \<Rightarrow> s | _ \<Rightarrow> set_real_buffer FreedBuffer s)"

definition vfree_fake :: "traces_state \<Rightarrow> traces_state" where
  "vfree_fake s = (case traces (traces_fake s) of
     NoBuffer \<Rightarrow> s | _ \<Rightarrow> set_fake_buffer FreedBuffer s)"

definition traces_reset :: "traces_state \<Rightarrow> traces_state" where
  "traces_reset s = s\<lparr>traces_real := traces_ring_reset (traces_real s),
                      traces_fake := traces_ring_reset (traces_fake s)\<rparr>"

text \<open>
  \<open>traces_init\<close>, with what the kernel answers: the results of registering the two devices, and
  the buffers that the two \<open>vmalloc\<close> calls yield (\<open>NoBuffer\<close> for failure). The labels at the end
  fall through into each other.
\<close>

definition error_traces_fake :: "traces_state \<Rightarrow> int \<times> traces_state" where
  "error_traces_fake s = (1, vfree_real s)"

definition error_traces_real :: "traces_state \<Rightarrow> int \<times> traces_state" where
  "error_traces_real s = error_traces_fake (s\<lparr>fake_dev_registered := False\<rparr>)"

definition error_real_dev :: "traces_state \<Rightarrow> int \<times> traces_state" where
  "error_real_dev s = error_traces_real (s\<lparr>real_dev_registered := False\<rparr>)"

definition traces_init ::
  "int \<Rightarrow> int \<Rightarrow> trace_buffer \<Rightarrow> trace_buffer \<Rightarrow> traces_state \<Rightarrow> int \<times> traces_state" where
  "traces_init reg_real reg_fake mem_real mem_fake s =
     (if reg_real \<noteq> 0 then (1, s)
      else let s = s\<lparr>real_dev_registered := True\<rparr>
      in if reg_fake \<noteq> 0 then error_real_dev s
      else let s = s\<lparr>fake_dev_registered := True\<rparr>;
               s = set_real_buffer mem_real s
      in if mem_real = NoBuffer then error_traces_real s
      else let s = set_fake_buffer mem_fake s
      in if mem_fake = NoBuffer then error_traces_fake s
      else (0, s))"

definition traces_cleanup :: "traces_state \<Rightarrow> int \<times> traces_state" where
  "traces_cleanup s =
     (0, vfree_fake (vfree_real (s\<lparr>fake_dev_registered := False, real_dev_registered := False\<rparr>)))"

section \<open>The two devices\<close>

definition on_real :: "(trace_ring, 'b) kprog \<Rightarrow> (traces_state, 'b) kprog" where
  "on_real m s = (case m (traces_real s) of Inl e \<Rightarrow> Inl e | Inr (x, r) \<Rightarrow> Inr (x, s\<lparr>traces_real := r\<rparr>))"

definition on_fake :: "(trace_ring, 'b) kprog \<Rightarrow> (traces_state, 'b) kprog" where
  "on_fake m s = (case m (traces_fake s) of Inl e \<Rightarrow> Inl e | Inr (x, r) \<Rightarrow> Inr (x, s\<lparr>traces_fake := r\<rparr>))"

definition traces_dev_read_real :: "bool \<Rightarrow> u64 \<Rightarrow> (traces_state, int \<times> u64 list) kprog" where
  "traces_dev_read_real copy_fault len = on_real (traces_dev_read copy_fault len)"

definition traces_dev_read_fake :: "bool \<Rightarrow> u64 \<Rightarrow> (traces_state, int \<times> u64 list) kprog" where
  "traces_dev_read_fake copy_fault len = on_fake (traces_dev_read copy_fault len)"

definition traces_dev_poll_real :: "traces_state \<Rightarrow> u32" where
  "traces_dev_poll_real s = traces_dev_poll (traces_real s)"

definition traces_dev_poll_fake :: "traces_state \<Rightarrow> u32" where
  "traces_dev_poll_fake s = traces_dev_poll (traces_fake s)"

text \<open>Adding and reading on both sides, in any order, with what each device delivered.\<close>

datatype trace_op = AddReal event u64 | AddFake u64 | ReadReal nat | ReadFake nat

fun run_traces :: "u64 \<Rightarrow> trace_op list \<Rightarrow> (traces_state, u64 list \<times> u64 list) kprog" where
  "run_traces N [] = retk ([], [])"
| "run_traces N (AddReal e ts # ops) = seqk (on_real (traces_add_real N ts e)) (run_traces N ops)"
| "run_traces N (AddFake ts # ops) = seqk (on_fake (traces_add_fake N ts)) (run_traces N ops)"
| "run_traces N (ReadReal n # ops) =
     bindk (traces_dev_read_real False (word_of_nat (8 * n))) (\<lambda>(r, xs).
     bindk (run_traces N ops) (\<lambda>(ys, zs). retk (xs @ ys, zs)))"
| "run_traces N (ReadFake n # ops) =
     bindk (traces_dev_read_fake False (word_of_nat (8 * n))) (\<lambda>(r, xs).
     bindk (run_traces N ops) (\<lambda>(ys, zs). retk (ys, xs @ zs)))"

section \<open>The queue contract\<close>

text \<open>
  The abstract specification of a trace: a queue with room for so many more entries; pushing
  appends, pulling \<open>n\<close> takes at most \<open>n\<close> entries from the front.
\<close>

datatype 'a fifo_op = Push 'a | Pull nat

fun run_fifo ::
  "('a \<Rightarrow> ('s, unit) kprog) \<Rightarrow> (nat \<Rightarrow> ('s, 'a list) kprog) \<Rightarrow> 'a fifo_op list \<Rightarrow> ('s, 'a list) kprog"
  where
  "run_fifo push pull [] = retk []"
| "run_fifo push pull (Push x # ops) = seqk (push x) (run_fifo push pull ops)"
| "run_fifo push pull (Pull n # ops) =
     bindk (pull n) (\<lambda>xs. bindk (run_fifo push pull ops) (\<lambda>ys. retk (xs @ ys)))"

fun pushed :: "'a fifo_op list \<Rightarrow> 'a list" where
  "pushed [] = []"
| "pushed (Push x # ops) = x # pushed ops"
| "pushed (Pull n # ops) = pushed ops"

fun pull_sizes :: "'a fifo_op list \<Rightarrow> nat list" where
  "pull_sizes [] = []"
| "pull_sizes (Push x # ops) = pull_sizes ops"
| "pull_sizes (Pull n # ops) = n # pull_sizes ops"

locale fifo =
  fixes push :: "'a \<Rightarrow> ('s, unit) kprog"
    and pull :: "nat \<Rightarrow> ('s, 'a list) kprog"
    and inv :: "'s \<Rightarrow> bool"
    and contents :: "'s \<Rightarrow> 'a list"
    and room :: "'s \<Rightarrow> nat"
    and fits :: "nat \<Rightarrow> bool"
  assumes push_fifo: "inv s \<Longrightarrow> 0 < room s \<Longrightarrow>
      \<exists>s'. push x s = Inr ((), s') \<and> inv s' \<and> contents s' = contents s @ [x] \<and> room s = Suc (room s')"
    and pull_fifo: "inv s \<Longrightarrow> fits n \<Longrightarrow>
      \<exists>s'. pull n s = Inr (take n (contents s), s') \<and> inv s' \<and> contents s' = drop n (contents s)
           \<and> room s' = room s"
begin

lemma run_fifo_order:
  assumes "inv s" and "length (pushed ops) \<le> room s" and "list_all fits (pull_sizes ops)"
  shows "\<exists>out s'. run_fifo push pull ops s = Inr (out, s') \<and> inv s'
           \<and> out @ contents s' = contents s @ pushed ops"
  using assms
proof (induction ops arbitrary: s)
  case Nil
  then show ?case by (simp add: retk_def)
next
  case (Cons p ops)
  show ?case
  proof (cases p)
    case (Push x)
    with Cons.prems have "0 < room s" by simp
    from push_fifo [OF Cons.prems(1) this, of x] obtain s1 where
      s1: "push x s = Inr ((), s1)" "inv s1" "contents s1 = contents s @ [x]" "room s = Suc (room s1)"
      by blast
    obtain out s' where "run_fifo push pull ops s1 = Inr (out, s')" "inv s'"
        "out @ contents s' = contents s1 @ pushed ops"
      using Cons.IH [OF s1(2)] Cons.prems s1(4) Push by auto
    then show ?thesis using Push s1 by (simp add: kprog_simps)
  next
    case (Pull n)
    with Cons.prems have "fits n" by simp
    from pull_fifo [OF Cons.prems(1) this] obtain s1 where
      s1: "pull n s = Inr (take n (contents s), s1)" "inv s1" "contents s1 = drop n (contents s)"
          "room s1 = room s" by blast
    obtain out s' where r: "run_fifo push pull ops s1 = Inr (out, s')" "inv s'"
        "out @ contents s' = contents s1 @ pushed ops"
      using Cons.IH [OF s1(2)] Cons.prems s1(4) Pull by auto
    have "take n (contents s) @ out @ contents s' = contents s @ pushed ops"
      unfolding r(3) s1(3) by simp
    with r s1 Pull show ?thesis by (simp add: kprog_simps)
  qed
qed

end

section \<open>A trace is a queue until it wraps\<close>

definition ring_inv :: "u64 \<Rightarrow> trace_ring \<Rightarrow> bool" where
  "ring_inv N s \<longleftrightarrow> (case traces s of Buffer xs \<Rightarrow> length xs = unat N | _ \<Rightarrow> False)
     \<and> traces_count s < N \<and> traces_read s \<le> traces_count s"

text \<open>The stamps that were added and not read yet.\<close>

definition unread :: "trace_ring \<Rightarrow> u64 list" where
  "unread s = (case traces s of
     Buffer xs \<Rightarrow> take (unat (traces_count s) - unat (traces_read s)) (drop (unat (traces_read s)) xs)
   | _ \<Rightarrow> [])"

definition ring_room :: "u64 \<Rightarrow> trace_ring \<Rightarrow> nat" where
  "ring_room N s = unat N - 1 - unat (traces_count s)"

text \<open>Reading \<open>n\<close> stamps into a buffer of exactly that size.\<close>

definition read_stamps :: "nat \<Rightarrow> (trace_ring, u64 list) kprog" where
  "read_stamps n = bindk (traces_dev_read False (word_of_nat (8 * n))) (\<lambda>(r, xs). retk xs)"

lemma traces_add_ok:
  assumes "ring_inv N s" and "0 < ring_room N s"
  shows "\<exists>s'. traces_add N ts s = Inr ((), s') \<and> ring_inv N s' \<and> unread s' = unread s @ [ts]
           \<and> ring_room N s = Suc (ring_room N s')"
proof -
  from assms(1) obtain xs where xs: "traces s = Buffer xs" "length xs = unat N"
    and lt: "unat (traces_count s) < unat N" and le: "unat (traces_read s) \<le> unat (traces_count s)"
    by (auto simp: ring_inv_def word_less_nat_alt word_le_nat_alt split: trace_buffer.splits)
  let ?c = "unat (traces_count s)" and ?r = "unat (traces_read s)"
  have room: "Suc ?c < unat N" using assms(2) by (simp add: ring_room_def)
  then have "Suc ?c < 2 ^ 64" using unat_u64_less [of N] by simp
  then have c1: "unat (traces_count s + 1) = Suc ?c"
    by (simp add: unat_word_ariths)
  have add: "traces_add N ts s = Inr ((), s\<lparr>traces := Buffer (xs[?c := ts]),
                                           traces_count := traces_count s + 1\<rparr>)"
    using xs lt room c1
    by (simp add: traces_add_def traces_store_def kprog_simps word_le_nat_alt)
  have "take (Suc ?c - ?r) (drop ?r (xs[?c := ts])) = take (?c - ?r) (drop ?r xs) @ [ts]"
  proof -
    have "drop ?r (xs[?c := ts]) = (drop ?r xs)[?c - ?r := ts]"
      using le by (simp add: drop_update_swap)
    moreover have "?c - ?r < length (drop ?r xs)" using lt le xs(2) by simp
    moreover have "Suc ?c - ?r = Suc (?c - ?r)" using le by simp
    ultimately show ?thesis by (simp add: take_Suc_update)
  qed
  with add show ?thesis
    using xs lt le room c1
    by (simp add: ring_inv_def unread_def ring_room_def word_less_nat_alt word_le_nat_alt)
qed

definition stamps_to_read :: "u64 \<Rightarrow> trace_ring \<Rightarrow> u64" where
  "stamps_to_read len s =
     (if len div 8 > traces_count s - traces_read s then traces_count s - traces_read s else len div 8)"

lemma traces_dev_read_apply:
  assumes "len mod 8 = 0"
  shows "traces_dev_read False len s =
     (case copy_stamps (traces s) (unat (traces_read s)) (unat (stamps_to_read len s)) of
        Inl e \<Rightarrow> Inl e
      | Inr xs \<Rightarrow> Inr ((uint (stamps_to_read len s * 8), xs),
                     s\<lparr>traces_read := traces_read s + stamps_to_read len s\<rparr>))"
  using assms
  unfolding traces_dev_read_def Let_def stamps_to_read_def [symmetric]
  by (simp add: bindk_def seqk_def kprog_simps liftk_def split: sum.splits)

lemma read_stamps_ok:
  assumes "ring_inv N s" and "n < 2 ^ 60"
  shows "\<exists>s'. read_stamps n s = Inr (take n (unread s), s') \<and> ring_inv N s'
           \<and> unread s' = drop n (unread s) \<and> ring_room N s' = ring_room N s"
proof -
  from assms(1) obtain xs where xs: "traces s = Buffer xs" "length xs = unat N"
    and lt: "unat (traces_count s) < unat N" and le: "unat (traces_read s) \<le> unat (traces_count s)"
    by (auto simp: ring_inv_def word_less_nat_alt word_le_nat_alt split: trace_buffer.splits)
  let ?c = "unat (traces_count s)" and ?r = "unat (traces_read s)"
  define a where "a = min n (?c - ?r)"
  have len: "unat (word_of_nat (8 * n) :: u64) = 8 * n"
    by (subst unat_of_nat) (use assms(2) in simp)
  define len64 where "len64 = (word_of_nat (8 * n) :: u64)"
  have len: "unat len64 = 8 * n" using len by (simp only: len64_def)
  have mod: "len64 mod 8 = 0" by (simp add: word_unat_eq_iff unat_mod len)
  have div: "unat (len64 div 8) = n" by (simp add: unat_div len)
  have avail: "unat (traces_count s - traces_read s) = ?c - ?r"
    using le by (simp add: unat_sub word_le_nat_alt)
  define w where "w = stamps_to_read len64 s"
  have w: "unat w = a"
    unfolding w_def a_def stamps_to_read_def using div avail by (auto simp: word_less_nat_alt)
  have bound: "?r + a \<le> length xs" using lt le xs(2) by (simp add: a_def)
  then have r1: "unat (traces_read s + w) = ?r + a"
    using xs(2) unat_u64_less [of N] w by (simp add: unat_word_ariths)
  have take: "take n (unread s) = take a (drop ?r xs)" "unread s = take (?c - ?r) (drop ?r xs)"
    using xs by (simp_all add: unread_def a_def take_take)
  have "copy_stamps (traces s) ?r (unat w) = Inr (take a (drop ?r xs))"
    using xs(1) bound w by (simp add: copy_stamps_def)
  then have read: "read_stamps n s = Inr (take n (unread s), s\<lparr>traces_read := traces_read s + w\<rparr>)"
    unfolding read_stamps_def bindk_def len64_def [symmetric] traces_dev_read_apply [OF mod]
      w_def [symmetric] take(1)
    by (simp add: retk_def)
  have "drop a (drop ?r xs) = drop (?r + a) xs" by (simp add: add.commute)
  then have "take (?c - (?r + a)) (drop (?r + a) xs) = drop a (take (?c - ?r) (drop ?r xs))"
    by (simp add: drop_take)
  also have "\<dots> = drop n (unread s)"
    unfolding take(2) a_def by (auto simp: min_def)
  finally have "take (?c - (?r + a)) (drop (?r + a) xs) = drop n (unread s)" .
  moreover have "?r + a \<le> ?c" using le by (simp add: a_def)
  ultimately show ?thesis
    using xs lt r1 assms(1)
    by (simp add: read ring_inv_def unread_def ring_room_def word_less_nat_alt word_le_nat_alt)
qed

interpretation trace_queue: fifo "traces_add N" read_stamps "ring_inv N" unread "ring_room N"
  "\<lambda>n. n < 2 ^ 60" for N
  by unfold_locales (simp_all add: traces_add_ok read_stamps_ok)

section \<open>Two independent queues\<close>

fun real_ops :: "trace_op list \<Rightarrow> u64 fifo_op list" where
  "real_ops [] = []"
| "real_ops (AddReal e ts # ops) = Push (stamp_event (event_type e) ts) # real_ops ops"
| "real_ops (ReadReal n # ops) = Pull n # real_ops ops"
| "real_ops (_ # ops) = real_ops ops"

fun fake_ops :: "trace_op list \<Rightarrow> u64 fifo_op list" where
  "fake_ops [] = []"
| "fake_ops (AddFake ts # ops) = Push ts # fake_ops ops"
| "fake_ops (ReadFake n # ops) = Pull n # fake_ops ops"
| "fake_ops (_ # ops) = fake_ops ops"

lemma read_stamps_Inr_iff:
  "read_stamps n s = Inr (xs, s') \<longleftrightarrow> (\<exists>i. traces_dev_read False (word_of_nat (8 * n)) s = Inr ((i, xs), s'))"
  by (auto simp: read_stamps_def bindk_Inr_iff retk_apply)

lemma run_traces_split:
  assumes "run_fifo (traces_add N) read_stamps (real_ops ops) (traces_real s) = Inr (xs, r)"
    and "run_fifo (traces_add N) read_stamps (fake_ops ops) (traces_fake s) = Inr (ys, f)"
  shows "run_traces N ops s = Inr ((xs, ys), s\<lparr>traces_real := r, traces_fake := f\<rparr>)"
  using assms
proof (induction ops arbitrary: s xs ys)
  case Nil
  then show ?case by (simp add: retk_apply)
next
  case (Cons p ops)
  show ?case
  proof (cases p)
    case (AddReal e ts)
    with Cons.prems(1) obtain r1 where
      "traces_add N (stamp_event (event_type e) ts) (traces_real s) = Inr ((), r1)"
      "run_fifo (traces_add N) read_stamps (real_ops ops) r1 = Inr (xs, r)"
      by (auto simp: seqk_Inr_iff)
    with AddReal Cons.IH [of "s\<lparr>traces_real := r1\<rparr>" xs ys] Cons.prems(2) show ?thesis
      by (simp add: on_real_def traces_add_real_def seqk_def bindk_def)
  next
    case (AddFake ts)
    with Cons.prems(2) obtain f1 where "traces_add N ts (traces_fake s) = Inr ((), f1)"
      "run_fifo (traces_add N) read_stamps (fake_ops ops) f1 = Inr (ys, f)"
      by (auto simp: seqk_Inr_iff)
    with AddFake Cons.IH [of "s\<lparr>traces_fake := f1\<rparr>" xs ys] Cons.prems(1) show ?thesis
      by (simp add: on_fake_def traces_add_fake_def seqk_def bindk_def)
  next
    case (ReadReal n)
    with Cons.prems(1) obtain i as r1 bs where
      "traces_dev_read False (word_of_nat (8 * n)) (traces_real s) = Inr ((i, as), r1)"
      "run_fifo (traces_add N) read_stamps (real_ops ops) r1 = Inr (bs, r)" "xs = as @ bs"
      by (auto simp: read_stamps_Inr_iff bindk_Inr_iff retk_apply)
    with ReadReal Cons.IH [of "s\<lparr>traces_real := r1\<rparr>" bs ys] Cons.prems(2) show ?thesis
      by (simp add: on_real_def traces_dev_read_real_def bindk_def retk_apply)
  next
    case (ReadFake n)
    with Cons.prems(2) obtain i as f1 bs where
      "traces_dev_read False (word_of_nat (8 * n)) (traces_fake s) = Inr ((i, as), f1)"
      "run_fifo (traces_add N) read_stamps (fake_ops ops) f1 = Inr (bs, f)" "ys = as @ bs"
      by (auto simp: read_stamps_Inr_iff bindk_Inr_iff retk_apply)
    with ReadFake Cons.IH [of "s\<lparr>traces_fake := f1\<rparr>" xs bs] Cons.prems(1) show ?thesis
      by (simp add: on_fake_def traces_dev_read_fake_def bindk_def retk_apply)
  qed
qed

lemma bit_stamp_event:
  "bit (stamp_event ty ts) n = (if n = 0 then ty = KEY_PRESS else bit ts n)"
proof (cases ty)
  case KEY_PRESS
  then show ?thesis by (auto simp: stamp_event_def bit_or_iff bit_1_iff)
next
  case KEY_RELEASE
  have "bit (ts AND NOT 1) n \<longleftrightarrow> bit ts n \<and> n \<noteq> 0"
    unfolding bit_and_iff bit_not_iff bit_1_iff using bit_imp_possible_bit by blast
  with KEY_RELEASE show ?thesis by (simp only: stamp_event_def event_type.case) auto
qed

section \<open>Properties\<close>

text \<open>
  Refinement: until a buffer wraps, the two traces are two independent queues. From any
  well-formed state, any interleaving of additions of real events and of fake ones (at most as many
  of each as its buffer has room for) and of reads from the two devices never leaves a buffer; and
  for each device, the stamps read, in order, followed by those still unread are exactly the ones
  that were unread before, followed by those added, where a real stamp carries the type of its event
  in its lowest bit: nothing is lost, repeated, reordered or mixed up between the two.
\<close>

theorem traces_refine_queues:
  assumes "ring_inv N (traces_real s)" and "ring_inv N (traces_fake s)"
    and "length (pushed (real_ops ops)) \<le> ring_room N (traces_real s)"
    and "length (pushed (fake_ops ops)) \<le> ring_room N (traces_fake s)"
    and "list_all (\<lambda>n. n < 2 ^ 60) (pull_sizes (real_ops ops) @ pull_sizes (fake_ops ops))"
  shows "\<exists>xs ys s'. run_traces N ops s = Inr ((xs, ys), s')
     \<and> ring_inv N (traces_real s') \<and> ring_inv N (traces_fake s')
     \<and> xs @ unread (traces_real s') = unread (traces_real s) @ pushed (real_ops ops)
     \<and> ys @ unread (traces_fake s') = unread (traces_fake s) @ pushed (fake_ops ops)"
proof -
  from trace_queue.run_fifo_order [OF assms(1,3)] assms(5) obtain xs r where
    r: "run_fifo (traces_add N) read_stamps (real_ops ops) (traces_real s) = Inr (xs, r)" "ring_inv N r"
      "xs @ unread r = unread (traces_real s) @ pushed (real_ops ops)" by auto
  from trace_queue.run_fifo_order [OF assms(2,4)] assms(5) obtain ys f where
    f: "run_fifo (traces_add N) read_stamps (fake_ops ops) (traces_fake s) = Inr (ys, f)" "ring_inv N f"
      "ys @ unread f = unread (traces_fake s) @ pushed (fake_ops ops)" by auto
  from run_traces_split [OF r(1) f(1)] r(2,3) f(2,3) show ?thesis by simp
qed

definition demo_ring :: trace_ring where
  "demo_ring = \<lparr>traces = Buffer [0, 0, 0, 0], traces_count = 0, traces_read = 0\<rparr>"

definition demo_traces :: traces_state where
  "demo_traces = \<lparr>traces_real = demo_ring, traces_fake = demo_ring, real_dev_registered = True,
     fake_dev_registered = True\<rparr>"

definition demo_trace_ops :: "trace_op list" where
  "demo_trace_ops = [AddReal \<lparr>event_type = KEY_PRESS, event_data = 0, event_len = 0\<rparr> 10, AddFake 12, ReadReal 5,
     AddReal \<lparr>event_type = KEY_RELEASE, event_data = 0, event_len = 0\<rparr> 13, AddFake 14, ReadFake 1]"

theorem traces_refine_queues_witness:
  "\<exists>xs ys s'. run_traces 4 demo_trace_ops demo_traces = Inr ((xs, ys), s')
     \<and> ring_inv 4 (traces_real s') \<and> ring_inv 4 (traces_fake s')
     \<and> xs @ unread (traces_real s') = unread (traces_real demo_traces) @ pushed (real_ops demo_trace_ops)
     \<and> ys @ unread (traces_fake s') = unread (traces_fake demo_traces) @ pushed (fake_ops demo_trace_ops)"
  by (rule traces_refine_queues)
     (simp_all add: ring_inv_def ring_room_def demo_ring_def demo_traces_def demo_trace_ops_def)



text \<open>
  The lowest bit of a real stamp tells a press from a release, and the rest of the time stamp
  is the time read: the event type is recovered from the stamp.
\<close>

theorem stamp_event_roundtrip:
  "bit (stamp_event ty ts) 0 = (ty = KEY_PRESS)
     \<and> drop_bit 1 (stamp_event ty ts) = drop_bit 1 ts"
  by (auto simp: bit_stamp_event bit_drop_bit_eq intro!: bit_word_eqI)

text \<open>
  C39. \<open>traces_init\<close>: on success both devices are registered over live buffers, and a failed
  registration leaves no device behind; but after a failed allocation a device stays registered:
  the real one when the first allocation fails, both (the real one over a freed buffer) when the
  second fails.
\<close>

theorem traces_init_outcomes:
  assumes "\<not> real_dev_registered s" and "\<not> fake_dev_registered s"
    and "mem_real \<noteq> FreedBuffer" and "mem_fake \<noteq> FreedBuffer"
    and "traces_init reg_real reg_fake mem_real mem_fake s = (r, s')"
  shows "if reg_real \<noteq> 0 \<or> reg_fake \<noteq> 0
         then r = 1 \<and> \<not> real_dev_registered s' \<and> \<not> fake_dev_registered s'
         else if mem_real = NoBuffer then r = 1 \<and> real_dev_registered s' \<and> \<not> fake_dev_registered s'
         else if mem_fake = NoBuffer
         then r = 1 \<and> real_dev_registered s' \<and> fake_dev_registered s'
                \<and> traces (traces_real s') = FreedBuffer
         else r = 0 \<and> real_dev_registered s' \<and> fake_dev_registered s'
                \<and> traces (traces_real s') = mem_real \<and> traces (traces_fake s') = mem_fake"
  using assms
  by (auto simp: traces_init_def error_real_dev_def error_traces_real_def error_traces_fake_def
      vfree_real_def set_real_buffer_def set_fake_buffer_def Let_def
      split: if_splits trace_buffer.splits)

definition idle_traces :: traces_state where
  "idle_traces = \<lparr>traces_real = demo_ring\<lparr>traces := NoBuffer\<rparr>,
     traces_fake = demo_ring\<lparr>traces := NoBuffer\<rparr>,
     real_dev_registered = False, fake_dev_registered = False\<rparr>"

theorem traces_init_outcomes_witness:
  "\<exists>r s'. traces_init 0 0 (Buffer [0, 0]) NoBuffer idle_traces = (r, s')
     \<and> r = 1 \<and> real_dev_registered s' \<and> fake_dev_registered s' \<and> traces (traces_real s') = FreedBuffer"
proof -
  obtain r s' where i: "traces_init 0 0 (Buffer [0, 0]) NoBuffer idle_traces = (r, s')" by fastforce
  have "r = 1 \<and> real_dev_registered s' \<and> fake_dev_registered s' \<and> traces (traces_real s') = FreedBuffer"
    using traces_init_outcomes [OF _ _ _ _ i] by (simp add: idle_traces_def)
  with i show ?thesis by blast
qed

end
