(* ===== verification/KD_Poll.thy ===== *)
theory KD_Poll
  imports KD_Traces
begin

text \<open>
  Waiting for a trace: the poll functions of \<open>source/traces.c\<close>, which first put the caller on the wait
  queue and then look at the counters, against the functions that add a stamp, which first move the
  counter and then wake the queue up. Any number of processes poll one device while its trace is
  written, read and reset; each of the halves is a step.
\<close>

section \<open>Steps\<close>

text \<open>
  The kernel's side of a poll: the first call of the device's poll function puts the process on the
  queue (\<open>poll_wait\<close>); when no device has anything the process sleeps until it is woken, and then
  the functions are called again without putting it on the queue once more; when one has, the
  process leaves the queue and the call returns. A wake-up that arrives before the process sleeps is
  kept (\<open>woken\<close>). Both traces have the same code; \<open>N\<close> is \<open>TRACES_BUFFER\<close>.
\<close>

datatype poll_pc = NotPolling | Queued | Sleeping | Polled u32

record wait_sys =
  wring :: trace_ring
  waitqueue :: "nat list"
  woken :: "nat \<Rightarrow> bool"
  wpc :: "nat \<Rightarrow> poll_pc"
  wake_due :: bool

definition poll_wait :: "nat \<Rightarrow> wait_sys \<Rightarrow> wait_sys" where
  "poll_wait p S = S\<lparr>waitqueue := p # waitqueue S, woken := (woken S)(p := False)\<rparr>"

definition wake_up_interruptible :: "wait_sys \<Rightarrow> wait_sys" where
  "wake_up_interruptible S = S\<lparr>woken := (\<lambda>p. p \<in> set (waitqueue S) \<or> woken S p)\<rparr>"

definition goes_to :: "nat \<Rightarrow> poll_pc \<Rightarrow> wait_sys \<Rightarrow> wait_sys" where
  "goes_to p pc S = S\<lparr>wpc := (wpc S)(p := pc)\<rparr>"

inductive poll_step :: "u64 \<Rightarrow> wait_sys \<Rightarrow> wait_sys \<Rightarrow> bool" for N where
  poll_enters: "wpc S p = NotPolling \<or> wpc S p = Polled m \<Longrightarrow>
     poll_step N S (goes_to p Queued (poll_wait p S))"
| poll_sleeps: "wpc S p = Queued \<Longrightarrow> traces_dev_poll (wring S) = 0 \<Longrightarrow>
     poll_step N S (goes_to p Sleeping S)"
| poll_returns: "wpc S p = Queued \<Longrightarrow> traces_dev_poll (wring S) = m \<Longrightarrow> m \<noteq> 0 \<Longrightarrow>
     poll_step N S (goes_to p (Polled m) (S\<lparr>waitqueue := removeAll p (waitqueue S)\<rparr>))"
| poll_wakes: "wpc S p = Sleeping \<Longrightarrow> woken S p \<Longrightarrow>
     poll_step N S (goes_to p Queued (S\<lparr>woken := (woken S)(p := False)\<rparr>))"
| stamp_added: "\<not> wake_due S \<Longrightarrow> traces_add N ts (wring S) = Inr ((), r) \<Longrightarrow>
     poll_step N S (S\<lparr>wring := r, wake_due := True\<rparr>)"
| queue_woken: "wake_due S \<Longrightarrow>
     poll_step N S (wake_up_interruptible S\<lparr>wake_due := False\<rparr>)"
| trace_read: "traces_dev_read fault len (wring S) = Inr (x, r) \<Longrightarrow>
     poll_step N S (S\<lparr>wring := r\<rparr>)"
| trace_reset: "poll_step N S (S\<lparr>wring := traces_ring_reset (wring S)\<rparr>)"

text \<open>A trace with its buffer, and nobody polling.\<close>

definition has_buffer :: "u64 \<Rightarrow> trace_ring \<Rightarrow> bool" where
  "has_buffer N r \<longleftrightarrow> (case traces r of Buffer xs \<Rightarrow> length xs = unat N | _ \<Rightarrow> False)"

definition wait_start :: "u64 \<Rightarrow> wait_sys \<Rightarrow> bool" where
  "wait_start N S \<longleftrightarrow> has_buffer N (wring S) \<and> waitqueue S = [] \<and> wpc S = (\<lambda>_. NotPolling) \<and> \<not> wake_due S"

section \<open>No wake-up is lost\<close>

definition stamps_waiting :: "trace_ring \<Rightarrow> bool" where
  "stamps_waiting r \<longleftrightarrow> traces_read r < traces_count r"

lemma traces_dev_poll_iff:
  "traces_dev_poll r = (if stamps_waiting r then POLLIN OR POLLRDNORM else 0)"
  by (simp add: traces_dev_poll_def stamps_waiting_def)

lemma poll_mask_nonzero: "POLLIN OR POLLRDNORM \<noteq> 0"
  by (simp add: POLLIN_def POLLRDNORM_def)

lemma traces_add_buffer:
  assumes "traces_add N ts r = Inr ((), r')" and "has_buffer N r"
  shows "has_buffer N r'"
  using assms
  by (auto simp: has_buffer_def traces_add_def traces_store_def kprog_simps bindk_Inr_iff seqk_Inr_iff
      split: trace_buffer.splits if_splits)

text \<open>A read within the buffer never makes stamps appear.\<close>

lemma traces_dev_read_buffer:
  assumes "traces_dev_read fault len r = Inr (x, r')" and "has_buffer N r"
  shows "has_buffer N r' \<and> (stamps_waiting r' \<longrightarrow> stamps_waiting r)"
proof (cases "r' = r")
  case True
  with assms(2) show ?thesis by simp
next
  case False
  let ?n = "stamps_to_read len r"
  have multiple: "len mod 8 = 0" using assms(1) False by (auto simp: traces_dev_read_def retk_apply split: if_splits)
  from assms(1) False obtain xs where
    copy: "copy_stamps (traces r) (unat (traces_read r)) (unat ?n) = Inr xs" and
    r': "r' = r\<lparr>traces_read := traces_read r + ?n\<rparr>"
    using multiple unfolding traces_dev_read_def Let_def stamps_to_read_def [symmetric]
    by (auto simp: bindk_Inr_iff seqk_Inr_iff liftk_Inr_iff kprog_simps split: if_splits)
  have "traces_read r \<le> traces_read r + ?n"
  proof (cases "unat ?n = 0")
    case True
    then show ?thesis by (simp add: unat_eq_0)
  next
    case False
    with copy assms(2) have "unat (traces_read r) + unat ?n \<le> unat N"
      by (auto simp: copy_stamps_def has_buffer_def split: trace_buffer.splits if_splits)
    then have "unat (traces_read r) + unat ?n < 2 ^ 64"
      using unat_u64_less [of N] by (rule le_less_trans)
    then show ?thesis by (simp add: word_le_nat_alt unat_word_ariths)
  qed
  with r' assms(2) show ?thesis by (auto simp: has_buffer_def stamps_waiting_def)
qed

text \<open>
  Who has entered is on the queue, and who sleeps over waiting stamps is woken or about to be.
\<close>

definition wait_inv :: "u64 \<Rightarrow> wait_sys \<Rightarrow> bool" where
  "wait_inv N S \<longleftrightarrow> has_buffer N (wring S)
     \<and> (\<forall>p. wpc S p \<in> {Queued, Sleeping} \<longrightarrow> p \<in> set (waitqueue S))
     \<and> (\<forall>p. wpc S p = Sleeping \<longrightarrow> stamps_waiting (wring S) \<longrightarrow> woken S p \<or> wake_due S)"

interpretation waiting: invariant_system "wait_start N" "poll_step N" "wait_inv N" for N
proof unfold_locales
  fix S assume "wait_start N S"
  then show "wait_inv N S" by (simp add: wait_start_def wait_inv_def)
next
  fix S T assume inv: "wait_inv N S" and "poll_step N S T"
  from this(2) show "wait_inv N T"
  proof cases
    case (stamp_added ts r)
    with inv traces_add_buffer [OF stamp_added(3)] show ?thesis by (simp add: wait_inv_def)
  next
    case (trace_read fault len x r)
    with inv traces_dev_read_buffer [OF trace_read(2), of N] show ?thesis by (auto simp: wait_inv_def)
  next
    case trace_reset
    with inv show ?thesis
      by (simp add: wait_inv_def has_buffer_def traces_ring_reset_def stamps_waiting_def)
  qed (use inv in \<open>auto simp: wait_inv_def goes_to_def poll_wait_def wake_up_interruptible_def
        traces_dev_poll_iff poll_mask_nonzero split: if_splits\<close>)
qed

section \<open>Properties\<close>

lemma woken_poll_returns:
  assumes "wpc S p = Sleeping" and "woken S p" and "stamps_waiting (wring S)"
  shows "\<exists>T. (poll_step N ^^ 2) S T \<and> wring T = wring S \<and> wpc T p = Polled (POLLIN OR POLLRDNORM)"
proof -
  let ?S1 = "goes_to p Queued (S\<lparr>woken := (woken S)(p := False)\<rparr>)"
  let ?S2 = "goes_to p (Polled (POLLIN OR POLLRDNORM)) (?S1\<lparr>waitqueue := removeAll p (waitqueue ?S1)\<rparr>)"
  have "poll_step N S ?S1" using assms(1,2) by (rule poll_wakes)
  moreover have "poll_step N ?S1 ?S2"
    using assms(3) by (intro poll_returns) (simp_all add: goes_to_def traces_dev_poll_iff poll_mask_nonzero)
  ultimately have "(poll_step N ^^ 2) S ?S2" by (auto simp: numeral_2_eq_2)
  then show ?thesis by (intro exI [of _ ?S2]) (simp add: goes_to_def)
qed


text \<open>A process asks, finds nothing and sleeps; then a stamp is added.\<close>

definition demo_wait :: wait_sys where
  "demo_wait = \<lparr>wring = \<lparr>traces = Buffer [0, 0, 0, 0], traces_count = 0, traces_read = 0\<rparr>, waitqueue = [],
     woken = (\<lambda>_. False), wpc = (\<lambda>_. NotPolling), wake_due = False\<rparr>"

definition demo_asleep :: wait_sys where
  "demo_asleep = goes_to 1 Sleeping (goes_to 1 Queued (poll_wait 1 demo_wait))"

definition demo_stamped :: wait_sys where
  "demo_stamped = demo_asleep\<lparr>wring := \<lparr>traces = Buffer [7, 0, 0, 0], traces_count = 1, traces_read = 0\<rparr>,
     wake_due := True\<rparr>"

lemma demo_stamped_reach: "reach (wait_start 4) (poll_step 4) demo_stamped"
proof -
  have "reach (wait_start 4) (poll_step 4) demo_wait"
    by (rule reach_start) (simp add: wait_start_def has_buffer_def demo_wait_def)
  then have "reach (wait_start 4) (poll_step 4) (goes_to 1 Queued (poll_wait 1 demo_wait))"
    by (rule reach_step) (rule poll_enters [of _ _ 0], simp add: demo_wait_def)
  then have "reach (wait_start 4) (poll_step 4) demo_asleep"
    unfolding demo_asleep_def
    by (rule reach_step)
       (rule poll_sleeps, simp_all add: goes_to_def poll_wait_def demo_wait_def traces_dev_poll_def)
  then show ?thesis
    unfolding demo_stamped_def
    by (rule reach_step)
       (rule stamp_added [of _ _ 7], simp_all add: demo_asleep_def goes_to_def poll_wait_def demo_wait_def
         traces_add_def traces_store_def kprog_simps word_le_nat_alt)
qed


end
