(* ===== verification/KD_Main.thy ===== *)
theory KD_Main
  imports KD_Plugin KD_Interrupts KD_Timing
begin

text \<open>
  \<open>main.c\<close>: the control file, the injection timer's callback, the reaction to real input, and
  loading and unloading the module. The architecture (\<open>arch_x86\<close>) selects what the preprocessor
  selects. The functions of the linked plugin are reached through the dispatcher; what the module
  relies on of them is the locale \<open>linked_module\<close>, which the theories of the two builds interpret.
\<close>

section \<open>State\<close>

record main_state = registry_state +
  injection :: int

text \<open>The numbers of the objects \<open>plugin_keyboard\<close> and \<open>plugin_touchscreen\<close>.\<close>

definition plugin_keyboard :: nat where "plugin_keyboard = 0"
definition plugin_touchscreen :: nat where "plugin_touchscreen = 1"

definition STATE_INJECT :: int where "STATE_INJECT = 1"

section \<open>The control file\<close>

text \<open>
  \<open>kstrtoint_from_user\<close> is a kernel function: \<open>parsed\<close> is what it makes of the written text, \<open>None\<close>
  for an error. The plugin's \<open>enable\<close> and \<open>disable\<close> are called on the phones only.
\<close>

definition switch_touchscreen ::
  "'a main_state_scheme dispatcher \<Rightarrow> bool \<Rightarrow> ('a main_state_scheme, unit) kprog" where
  "switch_touchscreen run on =
     bindk (readk (\<lambda>s. (if on then enable_fn else disable_fn) (plugin_objs s plugin_touchscreen))) (\<lambda>f.
       case f of None \<Rightarrow> retk () | Some f \<Rightarrow> seqk (run f plugin_touchscreen) (retk ()))"

definition keydrown_write ::
  "'a main_state_scheme dispatcher \<Rightarrow> kenv \<Rightarrow> int option \<Rightarrow> nat \<Rightarrow> ('a main_state_scheme, int) kprog" where
  "keydrown_write run env parsed count =
     (case parsed of
        None \<Rightarrow> retk (- EINVAL)
      | Some val \<Rightarrow>
          seqk (modk (\<lambda>s. s\<lparr>injection := val\<rparr>))
         (seqk (if arch_x86 env then retk () else switch_touchscreen run (val \<noteq> 0))
         (retk (int count))))"

text \<open>The text \<open>"%d\n"\<close> of the state.\<close>

fun show_nat :: "nat \<Rightarrow> string" where
  "show_nat n = (if n < 10 then [char_of (48 + n)] else show_nat (n div 10) @ [char_of (48 + n mod 10)])"

definition show_int :: "int \<Rightarrow> string" where
  "show_int i = (if i < 0 then CHR ''-'' # show_nat (nat (- i)) else show_nat (nat i))"

definition keydrown_read :: "'a main_state_scheme \<Rightarrow> string" where
  "keydrown_read s = show_int (injection s) @ [char_of (10 :: nat)]"

section \<open>Real input and the injection timer\<close>

definition real_key :: "kenv \<Rightarrow> ('a timer_state_scheme, int) kprog" where
  "real_key env =
     seqk timer_inject_irq
    (seqk (timer_reset env)
    (seqk (prefetch_range env (own_code_addr env ''timer_restart'') 4096)
    (retk 0)))"

definition real_touchpad :: "kenv \<Rightarrow> ('a timer_state_scheme, int) kprog" where
  "real_touchpad env =
     seqk timer_inject_irq
    (seqk (timer_reset env)
    (seqk (prefetch_range env (own_code_addr env ''timer_restart'') 4096)
    (retk 0)))"

text \<open>The call of \<open>inject\<close> and the prefetch of the function that handles real input.\<close>

definition timer_inject ::
  "'a main_state_scheme dispatcher \<Rightarrow> kenv \<Rightarrow> ('a main_state_scheme, unit) kprog" where
  "timer_inject run env =
     (let p = (if arch_x86 env then plugin_keyboard else plugin_touchscreen);
          real = (if arch_x86 env then ''real_key'' else ''real_touchpad'')
      in bindk (bindk (readk (\<lambda>s. inject_fn (plugin_objs s p))) derefk) (\<lambda>f.
         seqk (run f p)
              (prefetch_range env (own_code_addr env real) 4096)))"

definition timer_function ::
  "'a main_state_scheme dispatcher \<Rightarrow> kenv \<Rightarrow> ('a main_state_scheme, hrtimer_restart) kprog" where
  "timer_function run env =
     bindk (readk injection) (\<lambda>state.
     seqk (if state AND STATE_INJECT \<noteq> 0 then timer_inject run env else retk ())
    (seqk (prefetch_range env (own_code_addr env ''timer_reset'') 4096)
    (timer_restart env)))"

section \<open>Loading and unloading\<close>

text \<open>The time source the Makefile links: the time stamp counter on x86, the monotonic clock on the phones.\<close>

definition timing_init :: "kenv \<Rightarrow> ('s, unit) kprog" where
  "timing_init env = (if arch_x86 env then x86_timing_init else monotonic_timing_init)"

definition timing_terminate :: "kenv \<Rightarrow> ('s, unit) kprog" where
  "timing_terminate env = (if arch_x86 env then x86_timing_terminate else monotonic_timing_terminate)"

lemma timing_apply [kprog_simps]:
  "timing_init env s = Inr ((), s)" "timing_terminate env s = Inr ((), s)"
  by (simp_all add: timing_init_def timing_terminate_def x86_timing_init_def x86_timing_terminate_def
      monotonic_timing_init_def monotonic_timing_terminate_def retk_apply)

text \<open>\<open>proc_ok\<close> says whether \<open>proc_create\<close> succeeds.\<close>

definition inthide_init ::
  "'a main_state_scheme dispatcher \<Rightarrow> kenv \<Rightarrow> bool \<Rightarrow> ('a main_state_scheme, int) kprog" where
  "inthide_init run env proc_ok =
     (let p = (if arch_x86 env then plugin_keyboard else plugin_touchscreen);
          real = (if arch_x86 env then RealKey else RealTouchpad)
      in seqk (emit (ProcCreate proc_ok))
        (if \<not> proc_ok then retk (- ENODEV)
         else bindk (plugin_register p) (\<lambda>r.
           if r \<noteq> 0 then seqk (emit ProcRemove) (retk (- ENODEV))
           else
             seqk (modk (upd_plugin p (callback_fn_update (\<lambda>_. Some real))))
            (seqk (timing_init env)
            (seqk plugin_list
            (seqk (plugin_init run)
            (seqk (timer_init TimerFunction)
            (retk 0))))))))"

definition inthide_exit ::
  "'a main_state_scheme dispatcher \<Rightarrow> kenv \<Rightarrow> ('a main_state_scheme, unit) kprog" where
  "inthide_exit run env =
     seqk (emit ProcRemove)
    (seqk (timing_terminate env)
    (seqk timer_cleanup
    (seqk (plugin_cleanup run)
    (retk ()))))"

text \<open>
  Unloading while something else happens between the cancellation of the timer and the clean-up of
  the plugins; with nothing in between it is \<open>inthide_exit\<close>.
\<close>

definition inthide_exit_with ::
  "'a main_state_scheme dispatcher \<Rightarrow> kenv \<Rightarrow> ('a main_state_scheme, unit) kprog \<Rightarrow> ('a main_state_scheme, unit) kprog" where
  "inthide_exit_with run env between =
     seqk (emit ProcRemove)
    (seqk (timing_terminate env)
    (seqk timer_cleanup
    (seqk between
    (seqk (plugin_cleanup run)
    (retk ())))))"

lemma inthide_exit_with_nothing: "inthide_exit_with run env (retk ()) = inthide_exit run env"
  by (rule ext) (simp add: inthide_exit_with_def inthide_exit_def seqk_def bindk_def retk_apply timing_apply
      split: sum.split)

section \<open>The entry of the control file\<close>

text \<open>A call that makes or removes an entry, and whether the control file exists after a sequence of calls.\<close>

fun proc_call :: "kcall \<Rightarrow> bool" where
  "proc_call (ProcCreate ok) \<longleftrightarrow> True"
| "proc_call ProcRemove \<longleftrightarrow> True"
| "proc_call c \<longleftrightarrow> False"

fun proc_after :: "bool \<Rightarrow> kcall list \<Rightarrow> bool" where
  "proc_after b [] = b"
| "proc_after b (ProcCreate ok # cs) = proc_after (ok \<or> b) cs"
| "proc_after b (ProcRemove # cs) = proc_after False cs"
| "proc_after b (c # cs) = proc_after b cs"

lemma proc_after_append: "proc_after b (xs @ ys) = proc_after (proc_after b xs) ys"
  by (induction b xs rule: proc_after.induct) auto

lemma proc_after_other: "list_all (\<lambda>c. \<not> proc_call c) cs \<Longrightarrow> proc_after b cs = b"
  by (induction b cs rule: proc_after.induct) auto

definition control_file :: "'a kernel_scheme \<Rightarrow> bool" where
  "control_file s = proc_after False (klog s)"

definition same_file :: "'a kernel_scheme \<Rightarrow> 'a kernel_scheme \<Rightarrow> bool" where
  "same_file s s' \<longleftrightarrow> control_file s' = control_file s"

interpretation file_frame: frame_relation "same_file :: 'a kernel_scheme \<Rightarrow> 'a kernel_scheme \<Rightarrow> bool"
  by unfold_locales (auto simp: same_file_def)

lemma keeps_fileD: "keeps same_file m \<Longrightarrow> m s = Inr (r, s') \<Longrightarrow> control_file s' = control_file s"
  by (auto dest: keepsD simp: same_file_def)

lemma same_file_log: "klog s' = klog s \<Longrightarrow> same_file s s'"
  by (simp add: same_file_def control_file_def)

lemma keeps_file_emit:
  "\<not> proc_call c \<Longrightarrow> keeps same_file (emit c :: ('a kernel_scheme, unit) kprog)"
  by (simp add: keeps_def emit_apply same_file_def control_file_def proc_after_append proc_after_other)

lemma keeps_file_vmalloc [intro!]: "keeps same_file (vmalloc env :: ('a kernel_scheme, addr) kprog)"
  by (simp add: keeps_def vmalloc_def Let_def same_file_def control_file_def proc_after_append)

lemma keeps_file_hook [intro!]:
  "keeps same_file (hook_interrupt i h :: ('a hook_state_scheme, int) kprog)"
  "keeps same_file (unhook_interrupt i :: ('a hook_state_scheme, unit) kprog)"
proof -
  show "keeps same_file (hook_interrupt i h :: ('a hook_state_scheme, int) kprog)"
    by (rule keepsI) (auto simp: hook_interrupt_def bindk_Inr_iff seqk_Inr_iff liftk_Inr_iff kprog_simps
        intro!: same_file_log split: option.splits if_splits)
  show "keeps same_file (unhook_interrupt i :: ('a hook_state_scheme, unit) kprog)"
    by (rule keepsI) (auto simp: unhook_interrupt_def bindk_Inr_iff seqk_Inr_iff liftk_Inr_iff kprog_simps
        intro!: same_file_log split: option.splits if_splits)
qed

text \<open>A load that is refused, by the kernel or because the registry is full, changes nothing.\<close>

lemma inthide_init_no_entry:
  "inthide_init run env False s = Inr (- ENODEV, s\<lparr>klog := klog s @ [ProcCreate False]\<rparr>)"
  by (simp add: inthide_init_def Let_def seqk_def bindk_def kprog_simps)

lemma inthide_init_full:
  assumes "registry_inv s" and "length (registered s) = 127"
  shows "inthide_init run env True s = Inr (- ENODEV, s\<lparr>klog := klog s @ [ProcCreate True, ProcRemove]\<rparr>)"
proof -
  have "127 \<le> plugin_count s" using assms by (simp add: registry_inv_def registered_def)
  then show ?thesis
    by (simp add: inthide_init_def Let_def seqk_def bindk_def kprog_simps plugin_register_def MAX_PLUGINS_def)
qed

section \<open>Frames\<close>

text \<open>The pointers of a plugin object, without its data.\<close>

definition plugin_code :: "event_plugin \<Rightarrow> event_plugin" where
  "plugin_code o1 = o1\<lparr>plugin_data := 0\<rparr>"

lemma plugin_code_fns:
  assumes "plugin_code o2 = plugin_code o1"
  shows "inject_fn o2 = inject_fn o1" "callback_fn o2 = callback_fn o1" "enable_fn o2 = enable_fn o1"
    "disable_fn o2 = disable_fn o1"
  using assms by (cases o1; cases o2; simp add: plugin_code_def)+

text \<open>
  Two states between which no hook, no registration and no plugin function has changed: what
  everything the module does between loading and unloading keeps.
\<close>

definition quiet :: "'a main_state_scheme \<Rightarrow> 'a main_state_scheme \<Rightarrow> bool" where
  "quiet s s' \<longleftrightarrow> same_hooks s s' \<and> same_registry s s'
     \<and> (\<forall>q. plugin_code (plugin_objs s' q) = plugin_code (plugin_objs s q))"

text \<open>The part of it that hooking an interrupt keeps as well.\<close>

definition same_modules :: "'a main_state_scheme \<Rightarrow> 'a main_state_scheme \<Rightarrow> bool" where
  "same_modules s s' \<longleftrightarrow> same_registry s s'
     \<and> (\<forall>q. plugin_code (plugin_objs s' q) = plugin_code (plugin_objs s q))"

lemma quiet_iff: "quiet s s' \<longleftrightarrow> same_hooks s s' \<and> same_modules s s'"
  by (auto simp: quiet_def same_modules_def)

interpretation modules_frame: frame_relation
  "same_modules :: 'a main_state_scheme \<Rightarrow> 'a main_state_scheme \<Rightarrow> bool"
  by unfold_locales (auto simp: same_modules_def same_registry_def)

lemma same_modules_updates [simp]:
  fixes s :: "'a main_state_scheme"
  shows "same_modules s (s\<lparr>klog := l\<rparr>)" "same_modules s (hook_upd i h s)"
    "same_modules s (unhook_upd i s)" "same_modules s (upd_plugin p (plugin_data_update f) s)"
    "same_modules s (s\<lparr>orig_irqs := os\<rparr>)" "same_modules s (upd_desc i g s)"
  by (auto simp: same_modules_def same_registry_def hook_upd_def unhook_upd_def upd_desc_def
      upd_plugin_def plugin_code_def)

lemma keeps_modules_emit [intro!]: "keeps same_modules (emit c :: ('a main_state_scheme, unit) kprog)"
  by (simp add: keeps_def emit_apply)

lemma keeps_modules_vmalloc [intro!]: "keeps same_modules (vmalloc env :: ('a main_state_scheme, addr) kprog)"
  by (simp add: keeps_def vmalloc_def Let_def same_modules_def same_registry_def)

lemma keeps_modules_hook [intro!]:
  "keeps same_modules (hook_interrupt i h :: ('a main_state_scheme, int) kprog)"
proof (rule keepsI)
  fix s r and s' :: "'a main_state_scheme"
  assume "hook_interrupt i h s = Inr (r, s')"
  then show "same_modules s s'"
    by (auto simp: hook_interrupt_def bindk_Inr_iff seqk_Inr_iff liftk_Inr_iff kprog_simps
        same_modules_def same_registry_def upd_desc_def split: option.splits if_splits)
qed

lemma keeps_modules_unhook [intro!]:
  "keeps same_modules (unhook_interrupt i :: ('a main_state_scheme, unit) kprog)"
proof (rule keepsI)
  fix s r and s' :: "'a main_state_scheme"
  assume "unhook_interrupt i s = Inr (r, s')"
  then show "same_modules s s'"
    by (auto simp: unhook_interrupt_def bindk_Inr_iff seqk_Inr_iff liftk_Inr_iff kprog_simps
        same_modules_def same_registry_def upd_desc_def split: option.splits if_splits)
qed

text \<open>The variables the plugins do not read are timers, entropy, the log and the control state.\<close>

definition same_plugin_view :: "'a main_state_scheme \<Rightarrow> 'a main_state_scheme \<Rightarrow> bool" where
  "same_plugin_view s s' \<longleftrightarrow> same_hooks s s' \<and> main_state.more s' = main_state.more s
     \<and> plugin_objs s' = plugin_objs s \<and> same_registry s s'"

interpretation quiet_frame: frame_relation
  "quiet :: 'a main_state_scheme \<Rightarrow> 'a main_state_scheme \<Rightarrow> bool"
  by unfold_locales (auto simp: quiet_def same_hooks_def same_registry_def)

interpretation view_frame: frame_relation
  "same_plugin_view :: 'a main_state_scheme \<Rightarrow> 'a main_state_scheme \<Rightarrow> bool"
  by unfold_locales (auto simp: same_plugin_view_def same_hooks_def same_registry_def)

lemma view_quiet: "same_plugin_view s s' \<Longrightarrow> quiet s s'"
  by (simp add: same_plugin_view_def quiet_def)

lemma same_plugin_view_updates [simp]:
  fixes s :: "'a main_state_scheme"
  shows "same_plugin_view s (s\<lparr>klog := l\<rparr>)" "same_plugin_view s (s\<lparr>entropy_pos := n\<rparr>)"
    "same_plugin_view s (s\<lparr>periode := k\<rparr>)" "same_plugin_view s (s\<lparr>faketimer_t := k\<rparr>)"
    "same_plugin_view s (s\<lparr>faketimer_running := i\<rparr>)" "same_plugin_view s (s\<lparr>timer_fn := f\<rparr>)"
    "same_plugin_view s (s\<lparr>faketimer_fn := f\<rparr>)" "same_plugin_view s (s\<lparr>injection := i\<rparr>)"
  by (simp_all add: same_plugin_view_def same_hooks_def same_registry_def)

lemma same_hooks_main_updates [simp]:
  fixes s :: "'a main_state_scheme"
  shows "same_hooks s s" "same_hooks s (s\<lparr>injection := i\<rparr>)" "same_hooks s (s\<lparr>faketimer_running := n\<rparr>)"
  by (simp_all add: same_hooks_def)

lemma keeps_view_modules: "keeps same_plugin_view m \<Longrightarrow> keeps same_modules m"
  by (auto simp: keeps_def same_plugin_view_def same_modules_def)

lemma keeps_view_hooks: "keeps same_plugin_view m \<Longrightarrow> keeps same_hooks m"
  by (auto simp: keeps_def same_plugin_view_def)

lemma keeps_view_emit [intro!]: "keeps same_plugin_view (emit c :: ('a main_state_scheme, unit) kprog)"
  by (simp add: keeps_def emit_apply)

lemma keeps_view_random [intro!]:
  "keeps same_plugin_view (get_randomk env low high :: ('a main_state_scheme, u32) kprog)"
  by (auto simp: keeps_def get_randomk_Inr_iff)

lemma keeps_view_prefetch [intro!]:
  "keeps same_plugin_view (prefetch_range env a n :: ('a main_state_scheme, unit) kprog)"
  by (auto simp: prefetch_range_def Let_def intro!: view_frame.keeps_rules)

lemma keeps_view_timers [intro!]:
  "keeps same_plugin_view (timer_init cb :: ('a main_state_scheme, int) kprog)"
  "keeps same_plugin_view (timer_cleanup :: ('a main_state_scheme, unit) kprog)"
  "keeps same_plugin_view (timer_restart env :: ('a main_state_scheme, hrtimer_restart) kprog)"
  "keeps same_plugin_view (timer_reset env :: ('a main_state_scheme, unit) kprog)"
  "keeps same_plugin_view (faketimer_function :: ('a main_state_scheme, hrtimer_restart) kprog)"
proof -
  show "keeps same_plugin_view (timer_init cb :: ('a main_state_scheme, int) kprog)"
    by (auto simp: timer_init_def intro!: view_frame.keeps_rules)
  show "keeps same_plugin_view (timer_cleanup :: ('a main_state_scheme, unit) kprog)"
    by (auto simp: timer_cleanup_def intro!: view_frame.keeps_rules)
  show "keeps same_plugin_view (timer_restart env :: ('a main_state_scheme, hrtimer_restart) kprog)"
    by (auto simp: timer_restart_def intro!: view_frame.keeps_rules)
  show "keeps same_plugin_view (timer_reset env :: ('a main_state_scheme, unit) kprog)"
    by (auto simp: timer_reset_def intro!: view_frame.keeps_rules)
  show "keeps same_plugin_view (faketimer_function :: ('a main_state_scheme, hrtimer_restart) kprog)"
    by (auto simp: faketimer_function_def intro!: view_frame.keeps_rules)
qed

lemma keeps_view_inject_irq [intro!]:
  "keeps same_plugin_view (timer_inject_irq :: ('a main_state_scheme, int) kprog)"
  by (rule keepsI) (auto simp: kprog_simps sync_lock_test_and_set_running_def timer_inject_irq_def
      bindk_Inr_iff seqk_Inr_iff same_plugin_view_def same_hooks_def same_registry_def split: if_splits)

lemma keeps_view_real [intro!]:
  "keeps same_plugin_view (real_key env :: ('a main_state_scheme, int) kprog)"
  "keeps same_plugin_view (real_touchpad env :: ('a main_state_scheme, int) kprog)"
  by (auto simp: real_key_def real_touchpad_def intro!: view_frame.keeps_rules)

section \<open>What real input and a tick of the timer do\<close>

lemma drawable_cong: "entropy_pos s' = entropy_pos s \<Longrightarrow> drawable env low high s' = drawable env low high s"
  by (simp add: drawable_def)

lemma timer_restart_returns:
  assumes "drawable env RND_MIN RND_MAX s"
  shows "\<exists>r s'. timer_restart env s = Inr (HRTIMER_RESTART, s') \<and> unat r \<le> 20000000
     \<and> klog s' = klog s @ [HrtimerForwardNow MainTimer (KtimeSet 0 (unat (r :: u32)))]"
  using period_draw [OF assms] by (fastforce dest: timer_restart_apply)

lemma timer_reset_returns:
  assumes "drawable env RND_MIN RND_MAX s"
  shows "\<exists>r s'. timer_reset env s = Inr ((), s') \<and> unat r \<le> 20000000 \<and> faketimer_running s' = faketimer_running s
     \<and> klog s' = klog s @ [HrtimerCancel MainTimer, HrtimerStart MainTimer (KtimeSet 0 (unat (r :: u32)))]"
  using period_draw [OF assms] by (fastforce dest: timer_reset_apply)

text \<open>The calls one real input makes.\<close>

definition real_input_calls :: "kenv \<Rightarrow> int \<Rightarrow> nat \<Rightarrow> kcall list" where
  "real_input_calls env running ns =
     (if running = 0 then [HrtimerInit FakeTimer, HrtimerStart FakeTimer (KtimeSet 0 0)] else [])
     @ [HrtimerCancel MainTimer, HrtimerStart MainTimer (KtimeSet 0 ns)]
     @ map PrefetchTouch (prefetched env (own_code_addr env ''timer_restart'') 4096)"

lemma real_input_returns:
  assumes "drawable env RND_MIN RND_MAX s"
    and "0 \<notin> set (prefetched env (own_code_addr env ''timer_restart'') 4096)"
  shows "\<exists>ns s'. real_key env s = Inr (0, s') \<and> ns \<le> 20000000 \<and> faketimer_running s' = 1
     \<and> klog s' = klog s @ real_input_calls env (faketimer_running s) ns"
proof -
  obtain r s1 where s1: "timer_inject_irq s = Inr (r, s1)" "entropy_pos s1 = entropy_pos s"
    "faketimer_running s1 = 1" "klog s1 = klog s @ (if faketimer_running s = 0
        then [HrtimerInit FakeTimer, HrtimerStart FakeTimer (KtimeSet 0 0)] else [])"
    by (cases "faketimer_running s = 0") (simp_all add: kprog_simps)
  have "drawable env RND_MIN RND_MAX s1" using assms(1) drawable_cong [OF s1(2)] by simp
  from timer_reset_returns [OF this] obtain ns s2 where s2: "timer_reset env s1 = Inr ((), s2)"
    "unat ns \<le> 20000000" "faketimer_running s2 = 1"
    "klog s2 = klog s1 @ [HrtimerCancel MainTimer, HrtimerStart MainTimer (KtimeSet 0 (unat (ns :: u32)))]"
    using s1(3) by metis
  have "real_key env s = Inr (0, s2\<lparr>klog := klog s2
      @ map PrefetchTouch (prefetched env (own_code_addr env ''timer_restart'') 4096)\<rparr>)"
    using s1(1) s2(1) prefetch_range_ok [OF assms(2), of s2]
    by (simp add: real_key_def seqk_def bindk_def retk_apply)
  with s1(4) s2 show ?thesis
    by (intro exI [of _ "unat ns"]) (auto simp: real_input_calls_def)
qed

lemma real_touchpad_key: "real_touchpad env s = real_key env s"
  by (simp add: real_touchpad_def real_key_def)

section \<open>A module linked with its plugin\<close>

text \<open>
  What happens to a loaded module: writes to the control file, input (the plugin's tasklets running,
  interrupts arriving), and the two timers.
\<close>

datatype input_event = Tasklet bool | Irq int

datatype module_event = WriteControl "int option" nat | TimerTick | Input input_event | FakeTick

definition exec_event ::
  "'a main_state_scheme dispatcher \<Rightarrow> kenv \<Rightarrow> (input_event \<Rightarrow> ('a main_state_scheme, unit) kprog) \<Rightarrow> module_event
     \<Rightarrow> ('a main_state_scheme, unit) kprog" where
  "exec_event run env notify ev =
     (case ev of
        WriteControl parsed n \<Rightarrow> seqk (keydrown_write run env parsed n) (retk ())
      | TimerTick \<Rightarrow> seqk (timer_function run env) (retk ())
      | Input x \<Rightarrow> notify x
      | FakeTick \<Rightarrow> seqk faketimer_function (retk ()))"

definition module_plugin :: "kenv \<Rightarrow> nat" where
  "module_plugin env = (if arch_x86 env then plugin_keyboard else plugin_touchscreen)"

text \<open>
  The object of the plugin names the two functions, names neither for anything else, and is
  well-typed.
\<close>

definition linked_object :: "plugin_fn \<Rightarrow> plugin_fn \<Rightarrow> event_plugin \<Rightarrow> bool" where
  "linked_object initf cleanupf ob \<longleftrightarrow> init_fn ob = Some initf \<and> cleanup_fn ob = Some cleanupf
     \<and> inject_fn ob \<notin> {Some initf, Some cleanupf} \<and> enable_fn ob \<notin> {Some initf, Some cleanupf}
     \<and> disable_fn ob \<notin> {Some initf, Some cleanupf} \<and> callback_fn ob \<notin> {Some initf, Some cleanupf}
     \<and> well_typed_plugin ob"

lemma linked_object_code:
  assumes "plugin_code o2 = plugin_code o1"
  shows "linked_object i c o2 = linked_object i c o1"
  using assms by (cases o1; cases o2) (simp add: plugin_code_def linked_object_def well_typed_plugin_def)

definition same_linked :: "'a main_state_scheme \<Rightarrow> 'a main_state_scheme \<Rightarrow> bool" where
  "same_linked s s' \<longleftrightarrow> same_hooks s s' \<and> main_state.more s' = main_state.more s"

text \<open>The module is loaded with plugin \<open>p\<close>, and was loaded from \<open>s0\<close>.\<close>

definition module_loaded ::
  "('a main_state_scheme \<Rightarrow> bool) \<Rightarrow> int \<Rightarrow> nat \<Rightarrow> plugin_fn \<Rightarrow> plugin_fn
     \<Rightarrow> 'a main_state_scheme \<Rightarrow> 'a main_state_scheme \<Rightarrow> bool" where
  "module_loaded ready irq p initf cleanupf s0 s \<longleftrightarrow> ready s \<and> registry_inv s \<and> registered s = [p]
     \<and> linked_object initf cleanupf (plugin_objs s p)
     \<and> native_handler s = native_handler s0 \<and> (\<forall>j. hooked s j \<longrightarrow> j = irq)"

locale linked_module = plugin_functions run
  for run :: "'a main_state_scheme dispatcher" +
  fixes env :: kenv
    and irq :: int
    and initf cleanupf realf :: plugin_fn
    and notify :: "input_event \<Rightarrow> ('a main_state_scheme, unit) kprog"
    and loadable ready :: "'a main_state_scheme \<Rightarrow> bool"
  assumes realf: "realf = (if arch_x86 env then RealKey else RealTouchpad)"
    and realf_other: "realf \<notin> {initf, cleanupf}"
    and loadable_view: "same_linked s s' \<Longrightarrow> loadable s' = loadable s"
    and ready_view: "same_linked s s' \<Longrightarrow> ready s' = ready s"
    and init_linked: "loadable s \<Longrightarrow> \<exists>r s'. run initf (module_plugin env) s = Inr (r, s') \<and> ready s'
        \<and> native_handler s' = native_handler s \<and> (\<forall>j. hooked s' j \<longrightarrow> hooked s j \<or> j = irq)
        \<and> (\<forall>q. plugin_code (plugin_objs s' q) = plugin_code (plugin_objs s q))"
    and cleanup_linked: "ready s \<Longrightarrow> \<exists>s'. run cleanupf (module_plugin env) s = Inr (0, s')
        \<and> native_handler s' = native_handler s \<and> (\<forall>j. hooked s' j \<longleftrightarrow> hooked s j \<and> j \<noteq> irq)
        \<and> (\<forall>t. timer_armed t s' = timer_armed t s)"
    and run_quiet: "f \<notin> {initf, cleanupf} \<Longrightarrow> run f p s = Inr (r, s') \<Longrightarrow>
        quiet s s' \<and> (ready s \<longrightarrow> ready s')"
    and notify_quiet: "callback_fn (plugin_objs s (module_plugin env)) \<notin> {Some initf, Some cleanupf} \<Longrightarrow>
        notify x s = Inr (u, s') \<Longrightarrow> quiet s s' \<and> (ready s \<longrightarrow> ready s')"
    and run_file: "f \<in> {initf, cleanupf} \<Longrightarrow> run f p s = Inr (r, s') \<Longrightarrow> control_file s' = control_file s"
begin

abbreviation loaded :: "'a main_state_scheme \<Rightarrow> 'a main_state_scheme \<Rightarrow> bool" where
  "loaded \<equiv> module_loaded ready irq (module_plugin env) initf cleanupf"

lemma loaded_quiet:
  assumes "loaded s0 s" and q: "quiet s s'" and "ready s'"
  shows "loaded s0 s'"
proof -
  from q have sm: "same_hooks s s'" and reg: "same_registry s s'"
    and code: "\<And>q. plugin_code (plugin_objs s' q) = plugin_code (plugin_objs s q)"
    by (simp_all add: quiet_def)
  with assms show ?thesis
    by (simp add: module_loaded_def same_hooksD [OF sm] same_registry_inv same_registry_registered
        linked_object_code [OF code])
qed

lemma view_linked: "same_plugin_view s s' \<Longrightarrow> same_linked s s'"
  by (simp add: same_plugin_view_def same_linked_def)

lemma view_loaded: "loaded s0 s \<Longrightarrow> same_plugin_view s s' \<Longrightarrow> loaded s0 s'"
  using loaded_quiet [of s0 s s'] view_quiet [of s s'] ready_view [OF view_linked, of s s']
  by (auto simp: module_loaded_def)

lemma run_loaded:
  "loaded s0 s \<Longrightarrow> f \<notin> {initf, cleanupf} \<Longrightarrow> run f p s = Inr (r, s') \<Longrightarrow> loaded s0 s'"
  using loaded_quiet [of s0 s s'] run_quiet [of f p s r s'] by (simp add: module_loaded_def)

lemma inject_loaded:
  assumes l: "loaded s0 s" and inj: "timer_inject run env s = Inr (u, s')"
  shows "loaded s0 s'"
proof -
  from inj obtain f r s1 where
    f: "inject_fn (plugin_objs s (module_plugin env)) = Some f"
    and r: "run f (module_plugin env) s = Inr (r, s1)"
    and pre: "prefetch_range env (own_code_addr env
        (if arch_x86 env then ''real_key'' else ''real_touchpad'')) 4096 s1 = Inr (u, s')"
    unfolding timer_inject_def Let_def module_plugin_def [symmetric]
    by (auto simp: bindk_Inr_iff seqk_Inr_iff derefk_Inr_iff readk_apply)
  have "f \<notin> {initf, cleanupf}" using l f by (auto simp: module_loaded_def linked_object_def)
  from run_loaded [OF l this r] show ?thesis
    by (rule view_loaded) (rule keepsD [OF keeps_view_prefetch pre])
qed

lemma tick_loaded:
  assumes l: "loaded s0 s" and tick: "timer_function run env s = Inr (r, s')"
  shows "loaded s0 s'"
proof -
  from tick obtain s1 u1 s2 u2 where
    s1: "(if injection s AND STATE_INJECT \<noteq> 0 then timer_inject run env else retk ()) s = Inr (u1, s1)"
    and s2: "prefetch_range env (own_code_addr env ''timer_reset'') 4096 s1 = Inr (u2, s2)"
    and s3: "timer_restart env s2 = Inr (r, s')"
    by (auto simp: timer_function_def bindk_Inr_iff seqk_Inr_iff readk_apply)
  have "loaded s0 s1"
    using s1 l inject_loaded by (auto simp: retk_apply split: if_splits)
  then have "loaded s0 s2" by (rule view_loaded) (rule keepsD [OF keeps_view_prefetch s2])
  then show ?thesis by (rule view_loaded) (rule keepsD [OF keeps_view_timers(3) s3])
qed

lemma write_loaded:
  assumes l: "loaded s0 s" and wr: "keydrown_write run env parsed n s = Inr (r, s')"
  shows "loaded s0 s'"
proof (cases parsed)
  case None
  with l wr show ?thesis by (simp add: keydrown_write_def retk_apply)
next
  case (Some v)
  let ?s1 = "s\<lparr>injection := v\<rparr>"
  have l1: "loaded s0 ?s1" by (rule view_loaded [OF l]) simp
  show ?thesis
  proof (cases "arch_x86 env")
    case True
    with wr Some l1 show ?thesis
      by (simp add: keydrown_write_def seqk_def bindk_def modk_apply retk_apply)
  next
    case False
    let ?f = "(if v \<noteq> 0 then enable_fn else disable_fn) (plugin_objs ?s1 plugin_touchscreen)"
    have "?f \<notin> {Some initf, Some cleanupf}"
      using l False by (auto simp: module_loaded_def linked_object_def module_plugin_def)
    moreover from wr Some False obtain u s2 where
      sw: "switch_touchscreen run (v \<noteq> 0) ?s1 = Inr (u, s2)" and "s' = s2"
      by (auto simp: keydrown_write_def seqk_Inr_iff modk_apply retk_apply)
    ultimately show ?thesis
      using l1 run_loaded [OF l1]
      by (cases ?f) (auto simp: switch_touchscreen_def bindk_Inr_iff seqk_Inr_iff readk_apply
          retk_apply split: if_splits)
  qed
qed

lemma event_loaded:
  assumes l: "loaded s0 s" and ev: "exec_event run env notify ev s = Inr (u, s')"
  shows "loaded s0 s'"
proof (cases ev)
  case (WriteControl parsed n)
  with ev write_loaded [OF l] show ?thesis by (auto simp: exec_event_def seqk_Inr_iff retk_apply)
next
  case TimerTick
  with ev tick_loaded [OF l] show ?thesis by (auto simp: exec_event_def seqk_Inr_iff retk_apply)
next
  case (Input x)
  with ev have "notify x s = Inr (u, s')" by (simp add: exec_event_def)
  with notify_quiet [OF _ this] l loaded_quiet [OF l] show ?thesis
    by (auto simp: module_loaded_def linked_object_def)
next
  case FakeTick
  with ev have "same_plugin_view s s'"
    using keepsD [OF keeps_view_timers(5)] by (auto simp: exec_event_def seqk_Inr_iff retk_apply)
  with l show ?thesis by (rule view_loaded)
qed

lemma events_loaded:
  "loaded s0 s \<Longrightarrow> for_eachk evs (exec_event run env notify) s = Inr (u, s') \<Longrightarrow> loaded s0 s'"
  by (induction evs arbitrary: s) (auto simp: retk_apply seqk_Inr_iff dest: event_loaded)

lemma same_linked_trans: "same_linked s t \<Longrightarrow> same_linked t u \<Longrightarrow> same_linked s u"
  by (simp add: same_linked_def same_hooks_def)

lemma load:
  fixes s :: "'a main_state_scheme"
  assumes "empty_registry s" and "linked_object initf cleanupf (plugin_objs s (module_plugin env))"
    and "loadable s" and "\<And>j. \<not> hooked s j"
  shows "\<exists>s1. inthide_init run env True s = Inr (0, s1) \<and> loaded s s1 \<and> timer_armed MainTimer s1 \<and> control_file s1
     \<and> (\<exists>l. klog s1 = l @ [HrtimerStart MainTimer (KtimeSet 2 104167)])
     \<and> plugin_code (plugin_objs s1 (module_plugin env))
         = plugin_code ((plugin_objs s (module_plugin env))\<lparr>plugin_id := 0, callback_fn := Some realf\<rparr>)
     \<and> (\<exists>s3 r s4. same_linked s s3 \<and> run initf (module_plugin env) s3 = Inr (r, s4) \<and> same_plugin_view s4 s1
          \<and> injection s3 = injection s \<and> injection s1 = injection s4
          \<and> plugin_objs s3 (module_plugin env)
            = (plugin_objs s (module_plugin env))\<lparr>plugin_id := 0, callback_fn := Some realf\<rparr>)"
proof -
  let ?p = "module_plugin env"
  let ?s1 = "s\<lparr>klog := klog s @ [ProcCreate True]\<rparr>"
  let ?s2 = "(upd_plugin ?p (plugin_id_update (\<lambda>_. 0)) ?s1)
      \<lparr>plugins := (plugins s)[0 := Some ?p], plugin_count := 1\<rparr>"
  let ?u3 = "upd_plugin ?p (callback_fn_update (\<lambda>_. Some realf)) ?s2"
  have reg: "plugin_register ?p ?s1 = Inr (0, ?s2)"
    using assms(1) plugin_register_ok [of ?s1 ?p]
    by (simp add: empty_registry_def registry_inv_def)
  have "registry_inv ?u3"
    using assms(1)
    by (simp add: empty_registry_def registry_inv_def upd_plugin_def replicate_Suc [of 127, simplified])
  from plugin_list_apply [OF this] obtain ns where
    list: "plugin_list ?u3 = Inr ((), ?u3\<lparr>klog := klog ?u3 @ map PrintPlugin ns\<rparr>)" by blast
  let ?l = "klog ?u3 @ map PrintPlugin ns"
  let ?s3 = "?u3\<lparr>klog := ?l\<rparr>"
  have reg3: "registry_inv ?s3" "registered ?s3 = [?p]"
    using assms(1)
    by (simp_all add: empty_registry_def registry_inv_def registered_def upd_plugin_def
        replicate_Suc [of 127, simplified])
  have sl: "same_linked s ?s3" and sm: "same_hooks s ?s3"
    by (simp_all add: same_linked_def same_hooks_def upd_plugin_def)
  have lo: "linked_object initf cleanupf (plugin_objs ?s3 ?p)"
    using assms(2) realf_other realf by (auto simp: linked_object_def upd_plugin_def well_typed_plugin_def slot_typed_def)
  have file3: "control_file ?s3"
    by (simp add: control_file_def proc_after_append proc_after_other list_all_iff upd_plugin_def)
  have inj3: "injection ?s3 = injection s" by (simp add: upd_plugin_def)
  have "loadable ?s3" using assms(3) loadable_view [OF sl] by simp
  from init_linked [OF this] obtain r s4 where
    s4: "run initf ?p ?s3 = Inr (r, s4)" "ready s4" "native_handler s4 = native_handler s"
      "\<forall>j. hooked s4 j \<longrightarrow> j = irq"
      "\<forall>q. plugin_code (plugin_objs s4 q) = plugin_code (plugin_objs ?s3 q)"
    using assms(4) by (auto simp: same_hooksD [OF sm])
  have same: "same_registry ?s3 s4" by (rule run_keeps_registry [OF s4(1)])
  have l4: "loaded s s4"
    using s4 same reg3 lo linked_object_code [of "plugin_objs s4 ?p" "plugin_objs ?s3 ?p" initf cleanupf]
    by (simp add: module_loaded_def same_registry_inv same_registry_registered)
  have "plugin_init run ?s3 = Inr (0, s4)"
    using plugin_init_for_each [OF reg3(1)] lo s4(1) reg3(2)
    by (simp add: kprog_simps seqk_def bindk_def call_init_def linked_object_def)
  moreover obtain s5 where s5: "timer_init TimerFunction s4 = Inr (0, s5)" "klog s5 = klog s4 @
      [HrtimerInit MainTimer, HrtimerStart MainTimer (KtimeSet 2 104167)]" "injection s5 = injection s4"
    by (simp add: timer_init_def seqk_def bindk_def kprog_simps)
  moreover have view: "same_plugin_view s4 s5" by (rule keepsD [OF keeps_view_timers(1) s5(1)])
  moreover have code: "plugin_code (plugin_objs s5 ?p)
      = plugin_code ((plugin_objs s ?p)\<lparr>plugin_id := 0, callback_fn := Some realf\<rparr>)"
    using s4(5) view by (simp add: same_plugin_view_def upd_plugin_def)
  moreover have object: "plugin_objs ?s3 ?p = (plugin_objs s ?p)\<lparr>plugin_id := 0, callback_fn := Some realf\<rparr>"
    by (simp add: upd_plugin_def)
  ultimately have "inthide_init run env True s = Inr (0, s5)"
    using reg list unfolding inthide_init_def Let_def module_plugin_def [symmetric] realf [symmetric]
    by (simp add: seqk_def bindk_def emit_apply modk_apply retk_apply timing_apply)
  moreover have "timer_armed MainTimer s5"
    by (simp add: timer_armed_def s5(2) armed_after_append)
  moreover have "\<exists>l. klog s5 = l @ [HrtimerStart MainTimer (KtimeSet 2 104167)]"
    by (rule exI [of _ "klog s4 @ [HrtimerInit MainTimer]"]) (simp add: s5(2))
  moreover have "control_file s5"
    using run_file [OF _ s4(1)] file3 by (simp add: control_file_def s5(2) proc_after_append)
  ultimately show ?thesis
    using view_loaded [OF l4 view] code s4(1) sl view object inj3 s5(3) by blast
qed

lemma unload:
  assumes l: "loaded s0 s"
  shows "\<exists>s2. inthide_exit run env s = Inr ((), s2) \<and> (\<forall>j. \<not> hooked s2 j)
     \<and> current_handler s2 = native_handler s0
     \<and> \<not> timer_armed MainTimer s2 \<and> timer_armed FakeTimer s2 = timer_armed FakeTimer s \<and> \<not> control_file s2
     \<and> (\<exists>sx. ready sx \<and> run cleanupf (module_plugin env) sx = Inr (0, s2))"
proof -
  let ?p = "module_plugin env"
  let ?s1 = "s\<lparr>klog := klog s @ [ProcRemove, HrtimerCancel MainTimer]\<rparr>"
  have view: "same_plugin_view s ?s1" by simp
  have l1: "loaded s0 ?s1" by (rule view_loaded [OF l view])
  then have ready1: "ready ?s1" by (simp add: module_loaded_def)
  from cleanup_linked [OF this] obtain s2 where
    s2: "run cleanupf ?p ?s1 = Inr (0, s2)" "native_handler s2 = native_handler ?s1"
      "\<And>j. hooked s2 j \<longleftrightarrow> hooked ?s1 j \<and> j \<noteq> irq" "\<And>t. timer_armed t s2 = timer_armed t ?s1"
    by blast
  have free: "\<not> hooked s2 j" for j using s2(3) l1 by (auto simp: module_loaded_def)
  have "plugin_cleanup run ?s1 = Inr (0, s2)"
    using l1 plugin_cleanup_for_each [of ?s1] s2(1)
    by (simp add: module_loaded_def kprog_simps seqk_def bindk_def call_cleanup_def linked_object_def)
  then have "inthide_exit run env s = Inr ((), s2)"
    by (simp add: inthide_exit_def timer_cleanup_def seqk_def bindk_def kprog_simps)
  moreover have "current_handler s2 = native_handler s0"
  proof (rule ext)
    fix j
    show "current_handler s2 j = native_handler s0 j"
      using free [of j] fun_cong [OF s2(2), of j] l1
      by (simp add: native_handler_def current_handler_def module_loaded_def fun_eq_iff)
  qed
  moreover have "\<not> timer_armed MainTimer s2" "timer_armed FakeTimer s2 = timer_armed FakeTimer s"
    by (simp_all add: s2(4)) (simp_all add: timer_armed_def armed_after_append)
  moreover have "\<not> control_file s2"
    using run_file [OF _ s2(1)] by (simp add: control_file_def proc_after_append)
  ultimately show ?thesis using free ready1 s2(1) by blast
qed

text \<open>The clean-up alone, from a loaded state.\<close>

lemma cleanup_loaded:
  assumes "loaded s0 s"
  shows "\<exists>s2. plugin_cleanup run s = Inr (0, s2) \<and> (\<forall>j. \<not> hooked s2 j)
     \<and> (\<forall>t. timer_armed t s2 = timer_armed t s)"
proof -
  have ready: "ready s" and reg: "registry_inv s" "registered s = [module_plugin env]"
    and lo: "linked_object initf cleanupf (plugin_objs s (module_plugin env))"
    and hk: "\<And>j. hooked s j \<Longrightarrow> j = irq"
    using assms by (simp_all add: module_loaded_def)
  from cleanup_linked [OF ready] obtain s2 where
    s2: "run cleanupf (module_plugin env) s = Inr (0, s2)" "\<And>j. hooked s2 j \<longleftrightarrow> hooked s j \<and> j \<noteq> irq"
      "\<forall>t. timer_armed t s2 = timer_armed t s" by blast
  have "plugin_cleanup run s = Inr (0, s2)"
    using plugin_cleanup_for_each [OF reg(1)] reg(2) lo s2(1)
    by (simp add: kprog_simps seqk_def bindk_def call_cleanup_def linked_object_def)
  with s2 hk show ?thesis by blast
qed

text \<open>Loading, any run of events that returns, unloading.\<close>

lemma load_run_unload:
  assumes "empty_registry s" and "linked_object initf cleanupf (plugin_objs s (module_plugin env))"
    and "loadable s" and "\<And>j. \<not> hooked s j"
  shows "\<exists>s1. inthide_init run env True s = Inr (0, s1) \<and> timer_armed MainTimer s1
     \<and> (\<forall>evs s2. for_eachk evs (exec_event run env notify) s1 = Inr ((), s2) \<longrightarrow>
          (\<exists>s3. inthide_exit run env s2 = Inr ((), s3) \<and> (\<forall>j. \<not> hooked s3 j)
             \<and> current_handler s3 = current_handler s \<and> \<not> timer_armed MainTimer s3 \<and> \<not> control_file s3
             \<and> (\<exists>sx. ready sx \<and> run cleanupf (module_plugin env) sx = Inr (0, s3))))"
proof -
  from load [OF assms] obtain s1 where s1: "inthide_init run env True s = Inr (0, s1)"
    "loaded s s1" "timer_armed MainTimer s1" by blast
  have "native_handler s = current_handler s"
    using assms(4) by (simp add: fun_eq_iff native_handler_def current_handler_def)
  then have "\<exists>s3. inthide_exit run env s2 = Inr ((), s3) \<and> (\<forall>j. \<not> hooked s3 j)
       \<and> current_handler s3 = current_handler s \<and> \<not> timer_armed MainTimer s3 \<and> \<not> control_file s3
       \<and> (\<exists>sx. ready sx \<and> run cleanupf (module_plugin env) sx = Inr (0, s3))"
    if "for_eachk evs (exec_event run env notify) s1 = Inr ((), s2)" for evs s2
    using unload [OF events_loaded [OF s1(2) that]] by metis
  with s1 show ?thesis by blast
qed

end

section \<open>Calls a running module makes\<close>

text \<open>
  The calls both builds may make: the fake timer at once and the injection timer after at most 20 ms,
  delays of the hook handler in its range, handlers of interrupts other than the module's own, and
  touched code.
\<close>

fun module_call_ok :: "flow_handler \<Rightarrow> u32 \<Rightarrow> u32 \<Rightarrow> kcall \<Rightarrow> bool" where
  "module_call_ok own low high (HrtimerStart t p) \<longleftrightarrow> ktime_secs p = 0
     \<and> ktime_nsecs p \<le> (case t of MainTimer \<Rightarrow> 20000000 | FakeTimer \<Rightarrow> 0)"
| "module_call_ok own low high (HrtimerForwardNow t p) \<longleftrightarrow> t = MainTimer \<and> ktime_secs p = 0 \<and> ktime_nsecs p \<le> 20000000"
| "module_call_ok own low high (HrtimerInit t) \<longleftrightarrow> t = FakeTimer"
| "module_call_ok own low high (HrtimerCancel t) \<longleftrightarrow> t = MainTimer"
| "module_call_ok own low high (Udelay d) \<longleftrightarrow> low \<le> d \<and> d \<le> high"
| "module_call_ok own low high (CallFlowHandler h) \<longleftrightarrow> h \<noteq> own"
| "module_call_ok own low high (PrefetchTouch a) \<longleftrightarrow> a \<noteq> 0"
| "module_call_ok own low high _ \<longleftrightarrow> False"

lemma module_call_no_proc: "module_call_ok own low high c \<Longrightarrow> \<not> proc_call c"
  by (cases c) simp_all

lemma module_call_ok_prefetch: "0 \<notin> set as \<Longrightarrow> list_all (module_call_ok own low high) (map PrefetchTouch as)"
  by (induction as) auto

lemma module_call_ok_input:
  assumes "0 \<notin> set (prefetched env (own_code_addr env ''timer_restart'') 4096)" and "ns \<le> 20000000"
  shows "list_all (module_call_ok own low high) (real_input_calls env running ns)"
  using assms(2) module_call_ok_prefetch [OF assms(1)] by (simp add: real_input_calls_def)

lemma irq_returns:
  fixes s :: "'a main_state_scheme"
  assumes "own_hooks own s" and "\<And>j. hooked s j \<Longrightarrow> j = i" and "drawable env low high s" and "low \<le> high"
    and "native_handler s j \<noteq> Some own"
  shows "\<exists>s' cs. deliver_irq own (delayed_handler env low high i call_flow) j s = Inr ((), s')
     \<and> same_plugin_view s s' \<and> klog s' = klog s @ cs \<and> list_all (module_call_ok own low high) cs"
proof -
  from deliver_irq_once [OF assms(1-4), of j] obtain pos d where
    d: "low \<le> d" "d \<le> high" and s': "deliver_irq own (delayed_handler env low high i call_flow) j s
       = Inr ((), s\<lparr>entropy_pos := pos, klog := klog s @ delivery s j d\<rparr>)" by auto
  have "list_all (module_call_ok own low high) (delivery s j d)"
    using d assms(5) by (auto simp: delivery_def split: option.split)
  moreover have "same_plugin_view s (s\<lparr>entropy_pos := pos, klog := klog s @ delivery s j d\<rparr>)"
    by (simp add: same_plugin_view_def same_hooks_def same_registry_def)
  ultimately show ?thesis using s' by (intro exI [of _ "s\<lparr>entropy_pos := pos, klog := klog s @ delivery s j d\<rparr>"]) auto
qed

section \<open>A module that always returns\<close>

text \<open>
  The contract of a plugin whose machine supports it: where the module may \<open>start\<close>, the plugin's
  initialisation leaves it \<open>alive\<close>, and an event of a module that is alive returns, leaves it alive
  and makes only calls that are \<open>ok\<close>. \<open>ob\<close> is the plugin object.
\<close>

locale running_module = linked_module run env irq initf cleanupf realf notify loadable ready
  for run :: "'a main_state_scheme dispatcher" and env irq initf cleanupf realf notify
    and loadable ready :: "'a main_state_scheme \<Rightarrow> bool" +
  fixes start alive :: "'a main_state_scheme \<Rightarrow> bool"
    and ob :: event_plugin
    and ok :: "kcall \<Rightarrow> bool"
  assumes start_view: "same_linked s s' \<Longrightarrow> start s' = start s"
    and alive_view: "same_plugin_view s s' \<Longrightarrow> alive s' = alive s"
    and start_loadable: "start s \<Longrightarrow> loadable s \<and> \<not> hooked s j"
    and ob_linked: "linked_object initf cleanupf ob"
    and start_alive: "start s \<Longrightarrow> plugin_objs s (module_plugin env) = ob\<lparr>plugin_id := 0, callback_fn := Some realf\<rparr> \<Longrightarrow>
        run initf (module_plugin env) s = Inr (r, s') \<Longrightarrow> alive s'"
    and alive_event: "alive s \<Longrightarrow> \<exists>s' cs. exec_event run env notify ev s = Inr ((), s') \<and> alive s'
        \<and> same_hooks s s' \<and> klog s' = klog s @ cs \<and> list_all ok cs"
    and ok_file: "ok c \<Longrightarrow> \<not> proc_call c"
begin

lemma ok_keeps_file:
  "klog s' = klog s @ cs \<Longrightarrow> list_all ok cs \<Longrightarrow> control_file s' = control_file s"
  using ok_file by (simp add: control_file_def proc_after_append proc_after_other list_all_iff)


lemma alive_events:
  "alive s \<Longrightarrow> \<exists>s' cs. for_eachk evs (exec_event run env notify) s = Inr ((), s') \<and> alive s'
     \<and> same_hooks s s' \<and> klog s' = klog s @ cs \<and> list_all ok cs"
proof (induction evs arbitrary: s)
  case Nil
  then show ?case by (simp add: retk_apply same_hooks_def)
next
  case (Cons ev evs)
  from alive_event [OF Cons.prems, of ev] obtain s1 cs1 where
    s1: "exec_event run env notify ev s = Inr ((), s1)" "alive s1" "same_hooks s s1"
      "klog s1 = klog s @ cs1" "list_all ok cs1" by blast
  from Cons.IH [OF s1(2)] obtain s2 cs2 where
    s2: "for_eachk evs (exec_event run env notify) s1 = Inr ((), s2)" "alive s2" "same_hooks s1 s2"
      "klog s2 = klog s1 @ cs2" "list_all ok cs2" by blast
  moreover have "same_hooks s s2" using s1(3) s2(3) by (simp add: same_hooks_def)
  ultimately show ?case using s1
    by (intro exI [of _ s2] exI [of _ "cs1 @ cs2"]) (simp add: seqk_def bindk_def)
qed

lemma start_load:
  assumes "empty_registry s" and "plugin_objs s (module_plugin env) = ob" and "start s"
  shows "\<exists>s1. inthide_init run env True s = Inr (0, s1) \<and> loaded s s1 \<and> timer_armed MainTimer s1 \<and> alive s1
     \<and> control_file s1
     \<and> (\<exists>l. klog s1 = l @ [HrtimerStart MainTimer (KtimeSet 2 104167)])
     \<and> (\<exists>s3 r s4. injection s3 = injection s \<and> run initf (module_plugin env) s3 = Inr (r, s4)
          \<and> injection s1 = injection s4)"
proof -
  have free: "\<not> hooked s j" for j using start_loadable [OF assms(3)] by blast
  have "loadable s" using start_loadable [OF assms(3)] by blast
  from load [OF assms(1) _ this free] ob_linked obtain s1 s3 r s4 where
    s1: "inthide_init run env True s = Inr (0, s1)" "loaded s s1" "timer_armed MainTimer s1"
      "same_linked s s3" "run initf (module_plugin env) s3 = Inr (r, s4)" "same_plugin_view s4 s1"
      "\<exists>l. klog s1 = l @ [HrtimerStart MainTimer (KtimeSet 2 104167)]"
      "plugin_objs s3 (module_plugin env) = ob\<lparr>plugin_id := 0, callback_fn := Some realf\<rparr>"
      "injection s3 = injection s" "injection s1 = injection s4" "control_file s1"
    by (auto simp: assms(2))
  have "alive s4" using start_alive [OF _ s1(8,5)] assms(3) start_view [OF s1(4)] by blast
  then have "alive s1" using alive_view [OF s1(6)] by blast
  with s1 show ?thesis by blast
qed

text \<open>The registered plugin stays well-typed: no function is ever called through a foreign prototype.\<close>

lemma stays_typed:
  assumes "empty_registry s" and "plugin_objs s (module_plugin env) = ob" and "start s"
  shows "\<exists>s1. inthide_init run env True s = Inr (0, s1)
     \<and> (\<forall>evs. \<exists>s2. for_eachk evs (exec_event run env notify) s1 = Inr ((), s2)
          \<and> registered s2 = [module_plugin env] \<and> well_typed_plugin (plugin_objs s2 (module_plugin env)))"
proof -
  from start_load [OF assms] obtain s1 where
    s1: "inthide_init run env True s = Inr (0, s1)" "loaded s s1" "alive s1" by blast
  have "\<exists>s2. for_eachk evs (exec_event run env notify) s1 = Inr ((), s2)
          \<and> registered s2 = [module_plugin env] \<and> well_typed_plugin (plugin_objs s2 (module_plugin env))" for evs
  proof -
    from alive_events [OF s1(3), of evs] obtain s2 where
      s2: "for_eachk evs (exec_event run env notify) s1 = Inr ((), s2)" by blast
    from events_loaded [OF s1(2) s2] s2 show ?thesis by (simp add: module_loaded_def linked_object_def)
  qed
  with s1(1) show ?thesis by blast
qed

text \<open>Loading, any run of events, unloading: all of it returns.\<close>

lemma life:
  assumes "empty_registry s" and "plugin_objs s (module_plugin env) = ob" and "start s"
  shows "\<exists>s1. inthide_init run env True s = Inr (0, s1) \<and> timer_armed MainTimer s1
     \<and> (\<forall>evs. \<exists>s2 cs s3. for_eachk evs (exec_event run env notify) s1 = Inr ((), s2)
          \<and> klog s2 = klog s1 @ cs \<and> list_all ok cs \<and> control_file s2
          \<and> inthide_exit run env s2 = Inr ((), s3) \<and> (\<forall>j. \<not> hooked s3 j)
          \<and> current_handler s3 = current_handler s \<and> \<not> timer_armed MainTimer s3 \<and> \<not> control_file s3
          \<and> (\<exists>sx. ready sx \<and> run cleanupf (module_plugin env) sx = Inr (0, s3)))"
proof -
  have free: "\<not> hooked s j" for j using start_loadable [OF assms(3)] by blast
  from start_load [OF assms] obtain s1 where
    s1: "inthide_init run env True s = Inr (0, s1)" "loaded s s1" "timer_armed MainTimer s1"
    and alive1: "alive s1" and file1: "control_file s1" by blast
  have native: "native_handler s = current_handler s"
    using free by (simp add: fun_eq_iff native_handler_def current_handler_def)
  have "\<exists>s2 cs s3. for_eachk evs (exec_event run env notify) s1 = Inr ((), s2)
          \<and> klog s2 = klog s1 @ cs \<and> list_all ok cs \<and> control_file s2
          \<and> inthide_exit run env s2 = Inr ((), s3) \<and> (\<forall>j. \<not> hooked s3 j)
          \<and> current_handler s3 = current_handler s \<and> \<not> timer_armed MainTimer s3 \<and> \<not> control_file s3
          \<and> (\<exists>sx. ready sx \<and> run cleanupf (module_plugin env) sx = Inr (0, s3))" for evs
  proof -
    from alive_events [OF alive1, of evs] obtain s2 cs where
      s2: "for_eachk evs (exec_event run env notify) s1 = Inr ((), s2)" "klog s2 = klog s1 @ cs" "list_all ok cs"
      by blast
    then have "control_file s2" using ok_keeps_file file1 by blast
    moreover from unload [OF events_loaded [OF s1(2) s2(1)]] native obtain s3 where
      "inthide_exit run env s2 = Inr ((), s3)" "\<forall>j. \<not> hooked s3 j" "current_handler s3 = current_handler s"
      "\<not> timer_armed MainTimer s3" "\<not> control_file s3"
      "\<exists>sx. ready sx \<and> run cleanupf (module_plugin env) sx = Inr (0, s3)" by metis
    ultimately show ?thesis using s2 by blast
  qed
  with s1(1,3) show ?thesis by blast
qed

end

section \<open>The text of the control file\<close>

text \<open>Reading a decimal number: a sign, digits, and at most one newline at the end.\<close>

fun digits_value :: "nat \<Rightarrow> string \<Rightarrow> nat option" where
  "digits_value acc [] = Some acc"
| "digits_value acc (c # cs) =
     (let d = (of_char c :: nat)
      in if 48 \<le> d \<and> d \<le> 57 then digits_value (acc * 10 + (d - 48)) cs else None)"

definition decimal_nat :: "string \<Rightarrow> nat option" where
  "decimal_nat cs = (if cs = [] then None else digits_value 0 cs)"

definition decimal :: "string \<Rightarrow> int option" where
  "decimal text =
     (let cs = (if text \<noteq> [] \<and> last text = char_of (10 :: nat) then butlast text else text)
      in case cs of
           [] \<Rightarrow> None
         | c # ds \<Rightarrow> if c = CHR ''-'' then map_option (\<lambda>n. - int n) (decimal_nat ds)
                     else map_option int (decimal_nat cs))"

declare show_nat.simps [simp del]

lemma digits_value_append:
  "digits_value acc (xs @ ys) = (case digits_value acc xs of None \<Rightarrow> None | Some a \<Rightarrow> digits_value a ys)"
  by (induction xs arbitrary: acc) (auto simp: Let_def)

lemma digits_value_digit: "d < 10 \<Longrightarrow> digits_value acc [char_of (48 + d)] = Some (acc * 10 + d)"
  by simp

lemma digits_value_show: "digits_value 0 (show_nat n) = Some n"
proof (induction n rule: show_nat.induct)
  case (1 n)
  show ?case
  proof (cases "n < 10")
    case True
    then show ?thesis using digits_value_digit [of n 0] by (simp add: show_nat.simps [of n])
  next
    case False
    have "n mod 10 < 10" by simp
    from digits_value_digit [OF this, of "n div 10"] 1 [OF False] False show ?thesis
      by (simp add: show_nat.simps [of n] digits_value_append del: digits_value.simps)
  qed
qed

lemma show_nat_digits:
  "show_nat n \<noteq> [] \<and> (\<forall>c \<in> set (show_nat n). 48 \<le> (of_char c :: nat) \<and> (of_char c :: nat) \<le> 57)"
proof (induction n rule: show_nat.induct)
  case (1 n)
  show ?case
  proof (cases "n < 10")
    case True
    then show ?thesis by (simp add: show_nat.simps [of n])
  next
    case False
    with 1 show ?thesis by (auto simp: show_nat.simps [of n])
  qed
qed

lemma decimal_read: "decimal (keydrown_read s) = Some (injection s)"
proof -
  have digits: "decimal_nat (show_nat n) = Some n" for n
    using digits_value_show [of n] show_nat_digits [of n] by (simp add: decimal_nat_def)
  have minus: "c \<noteq> CHR ''-''" if "c \<in> set (show_nat n)" for c n
    using show_nat_digits [of n] that by auto
  show ?thesis
  proof (cases "injection s < 0")
    case True
    then show ?thesis by (simp add: decimal_def keydrown_read_def show_int_def digits)
  next
    case False
    obtain c ds where cs: "show_nat (nat (injection s)) = c # ds"
      using show_nat_digits [of "nat (injection s)"] by (cases "show_nat (nat (injection s))") auto
    then have "c \<noteq> CHR ''-''" using minus by (metis list.set_intros(1))
    with False cs digits [of "nat (injection s)"] show ?thesis
      by (simp add: decimal_def keydrown_read_def show_int_def)
  qed
qed

section \<open>A property of the control file\<close>

lemma keydrown_write_x86:
  "arch_x86 env \<Longrightarrow> keydrown_write run env (Some v) n s = Inr (int n, s\<lparr>injection := v\<rparr>)"
  by (simp add: keydrown_write_def seqk_def bindk_def modk_apply retk_apply)

text \<open>
  The control file is a round trip. On x86, writing a number stores it and returns the length
  written; reading then yields a text that is its decimal numeral; writing the text that was read
  back changes nothing; and a text that is no number is refused with \<open>-EINVAL\<close> and changes
  nothing.
\<close>

theorem control_file_roundtrip:
  assumes "arch_x86 env"
  shows "\<exists>s'. keydrown_write run env (Some v) n s = Inr (int n, s') \<and> decimal (keydrown_read s') = Some v
     \<and> keydrown_write run env (decimal (keydrown_read s')) m s' = Inr (int m, s')
     \<and> keydrown_write run env None k s' = Inr (- EINVAL, s')"
proof -
  let ?s = "s\<lparr>injection := v\<rparr>"
  note wr = keydrown_write_x86 [OF assms]
  have "keydrown_write run env (decimal (keydrown_read ?s)) m ?s = Inr (int m, ?s)"
    unfolding decimal_read wr by simp
  then show ?thesis
    using wr [of run v n s] decimal_read [of ?s] by (intro exI [of _ ?s]) (simp add: keydrown_write_def retk_apply)
qed

definition demo_main_state :: main_state where
  "demo_main_state = registry_state.extend demo_registry \<lparr>injection = 0\<rparr>"

theorem control_file_roundtrip_witness:
  "\<exists>s'. keydrown_write (\<lambda>_ _. retk 0) demo_env (Some (- 17)) 4 demo_main_state = Inr (int 4, s')
     \<and> decimal (keydrown_read s') = Some (- 17)
     \<and> keydrown_write (\<lambda>_ _. retk 0) demo_env (decimal (keydrown_read s')) 4 s' = Inr (int 4, s')
     \<and> keydrown_write (\<lambda>_ _. retk 0) demo_env None 3 s' = Inr (- EINVAL, s')"
  by (rule control_file_roundtrip) (simp add: demo_env_def)

end
