(* ===== verification/KD_Observe.thy ===== *)
theory KD_Observe
  imports KD_Main
begin

text \<open>
  What KeyDrown is for, stated over whole runs of a loaded module: the timing an observer sees does
  not depend on which events are real input. The observer sees the periods the injection timer is
  set to, the delays of the hook handler and the handlers that run; the contract \<open>timed_module\<close> says
  how one event of a running module shows, and the theories of the two builds interpret it. The
  model has no clock: when an event happens is not part of it, only what the module makes of it.
\<close>

section \<open>Observations\<close>

datatype timing_obs = Armed ktime | Delayed u32 | Handled flow_handler

fun obs_of :: "kcall \<Rightarrow> timing_obs list" where
  "obs_of (HrtimerStart MainTimer p) = [Armed p]"
| "obs_of (HrtimerForwardNow MainTimer p) = [Armed p]"
| "obs_of (Udelay d) = [Delayed d]"
| "obs_of (CallFlowHandler h) = [Handled h]"
| "obs_of _ = []"

definition observed :: "kcall list \<Rightarrow> timing_obs list" where
  "observed cs = concat (map obs_of cs)"

lemma observed_simps [simp]:
  "observed [] = []" "observed (c # cs) = obs_of c @ observed cs" "observed (cs @ ds) = observed cs @ observed ds"
  by (simp_all add: observed_def)

text \<open>
  How an event counts: a tick of the injection timer and a real input alike as one new period, an
  interrupt as that interrupt, a write to the control file and the fake timer not at all.
\<close>

datatype timing_kind = Period | Interrupt int

fun timing_class :: "module_event \<Rightarrow> timing_kind option" where
  "timing_class TimerTick = Some Period"
| "timing_class (Input (Tasklet b)) = Some Period"
| "timing_class (Input (Irq j)) = Some (Interrupt j)"
| "timing_class (WriteControl v n) = None"
| "timing_class FakeTick = None"

text \<open>
  The observation an event of each class yields, and the entropy it uses up, from the position in
  the entropy and the hooked and native handlers of the machine alone.
\<close>

definition class_obs ::
  "kenv \<Rightarrow> u32 \<Rightarrow> u32 \<Rightarrow> (int \<Rightarrow> bool) \<Rightarrow> (int \<Rightarrow> flow_handler option) \<Rightarrow> timing_kind \<Rightarrow> nat
     \<Rightarrow> timing_obs list \<times> nat" where
  "class_obs env low high hk native c pos =
     (case c of
        Period \<Rightarrow>
          (case get_random (entropy env) RND_MIN RND_MAX pos of
             Inl _ \<Rightarrow> ([], pos)
           | Inr (r, pos') \<Rightarrow> ([Armed (KtimeSet 0 (unat r))], pos'))
      | Interrupt j \<Rightarrow>
          (let handled = (case native j of None \<Rightarrow> [] | Some h \<Rightarrow> [Handled h])
           in if hk j
              then (case get_random (entropy env) low high pos of
                      Inl _ \<Rightarrow> ([], pos)
                    | Inr (d, pos') \<Rightarrow> (Delayed d # handled, pos'))
              else (handled, pos)))"

fun timing_run ::
  "kenv \<Rightarrow> u32 \<Rightarrow> u32 \<Rightarrow> (int \<Rightarrow> bool) \<Rightarrow> (int \<Rightarrow> flow_handler option) \<Rightarrow> timing_kind list \<Rightarrow> nat
     \<Rightarrow> timing_obs list" where
  "timing_run env low high hk native [] pos = []"
| "timing_run env low high hk native (c # cs) pos =
     fst (class_obs env low high hk native c pos)
     @ timing_run env low high hk native cs (snd (class_obs env low high hk native c pos))"

section \<open>How programs show\<close>

text \<open>A call that neither shows nor concerns the injection timer.\<close>

definition quiet_call :: "kcall \<Rightarrow> bool" where
  "quiet_call c \<longleftrightarrow> obs_of c = [] \<and> c \<noteq> HrtimerCancel MainTimer"

lemma observed_quiet: "list_all quiet_call cs \<Longrightarrow> observed cs = []"
  by (induction cs) (simp_all add: quiet_call_def)

text \<open>Two states between which no entropy was used and only such calls were made.\<close>

definition same_timing :: "'a kernel_scheme \<Rightarrow> 'a kernel_scheme \<Rightarrow> bool" where
  "same_timing s s' \<longleftrightarrow> entropy_pos s' = entropy_pos s
     \<and> (\<exists>cs. klog s' = klog s @ cs \<and> list_all quiet_call cs)"

lemma same_timing_observed:
  "same_timing s s' \<Longrightarrow> entropy_pos s' = entropy_pos s \<and> observed (klog s') = observed (klog s)"
  by (auto simp: same_timing_def observed_quiet)

interpretation timing_frame: frame_relation "same_timing :: 'a kernel_scheme \<Rightarrow> 'a kernel_scheme \<Rightarrow> bool"
  by unfold_locales (auto simp: same_timing_def)

definition timed ::
  "kenv \<Rightarrow> u32 \<Rightarrow> u32 \<Rightarrow> timing_kind option \<Rightarrow> 'a hook_state_scheme \<Rightarrow> 'a hook_state_scheme \<Rightarrow> bool" where
  "timed env low high c s s' \<longleftrightarrow>
     (case c of
        None \<Rightarrow> same_timing s s'
      | Some c \<Rightarrow>
          observed (klog s') = observed (klog s)
            @ fst (class_obs env low high (hooked s) (native_handler s) c (entropy_pos s))
          \<and> entropy_pos s' = snd (class_obs env low high (hooked s) (native_handler s) c (entropy_pos s)))"

lemma keeps_timing_emit: "quiet_call c \<Longrightarrow> keeps same_timing (emit c :: ('a kernel_scheme, unit) kprog)"
  by (simp add: keeps_def emit_apply same_timing_def)

lemma keeps_timing_prefetch: "keeps same_timing (prefetch_range env a n :: ('a kernel_scheme, unit) kprog)"
  by (auto simp: prefetch_range_def Let_def quiet_call_def
      intro!: timing_frame.keeps_rules keeps_timing_emit)

lemma keeps_timing_inject_irq: "keeps same_timing (timer_inject_irq :: ('a timer_state_scheme, int) kprog)"
  by (rule keepsI) (auto simp: kprog_simps sync_lock_test_and_set_running_def timer_inject_irq_def
      bindk_Inr_iff seqk_Inr_iff same_timing_def quiet_call_def split: if_splits)

lemma keeps_timing_faketimer: "keeps same_timing (faketimer_function :: ('a timer_state_scheme, hrtimer_restart) kprog)"
  by (auto simp: faketimer_function_def same_timing_def intro!: timing_frame.keeps_rules)

lemma period_silent:
  "same_timing s t \<Longrightarrow> timed env low high (Some Period) t u \<Longrightarrow> timed env low high (Some Period) s u"
  "timed env low high (Some Period) s t \<Longrightarrow> same_timing t u \<Longrightarrow> timed env low high (Some Period) s u"
  by (drule same_timing_observed, simp add: timed_def class_obs_def)+

lemma timer_restart_timed:
  "timer_restart env s = Inr (x, s') \<Longrightarrow> timed env low high (Some Period) s s'"
  by (auto simp: timer_restart_def bindk_Inr_iff seqk_Inr_iff kprog_simps get_randomk_Inr_iff timed_def
      class_obs_def MIN_TIMER_SECONDS_def)

lemma timer_reset_timed:
  "timer_reset env s = Inr (x, s') \<Longrightarrow> timed env low high (Some Period) s s'"
  by (auto simp: timer_reset_def bindk_Inr_iff seqk_Inr_iff kprog_simps get_randomk_Inr_iff timed_def
      class_obs_def MIN_TIMER_SECONDS_def)

text \<open>A real input shows as one period.\<close>

lemma real_key_timed:
  assumes "real_key env s = Inr (r, s')"
  shows "timed env low high (Some Period) s s'"
proof -
  from assms obtain x1 s1 x2 s2 x3 where s1: "timer_inject_irq s = Inr (x1, s1)"
    and s2: "timer_reset env s1 = Inr (x2, s2)"
    and s3: "prefetch_range env (own_code_addr env ''timer_restart'') 4096 s2 = Inr (x3, s')"
    by (auto simp: real_key_def seqk_Inr_iff retk_apply)
  have "same_timing s s1" "same_timing s2 s'"
    using keepsD [OF keeps_timing_inject_irq s1] keepsD [OF keeps_timing_prefetch s3] by simp_all
  with timer_reset_timed [OF s2] show ?thesis by (blast intro: period_silent)
qed

text \<open>So does a tick of the timer, if the plugin's injection does not show at all.\<close>

lemma timer_function_timed:
  assumes inj: "\<And>u s1. timer_inject run env s = Inr (u, s1) \<Longrightarrow> same_timing s s1"
    and tick: "timer_function run env s = Inr (r, s')"
  shows "timed env low high (Some Period) s s'"
proof -
  from tick obtain s1 u1 s2 u2 where
    s1: "(if injection s AND STATE_INJECT \<noteq> 0 then timer_inject run env else retk ()) s = Inr (u1, s1)"
    and s2: "prefetch_range env (own_code_addr env ''timer_reset'') 4096 s1 = Inr (u2, s2)"
    and s3: "timer_restart env s2 = Inr (r, s')"
    by (auto simp: timer_function_def bindk_Inr_iff seqk_Inr_iff readk_apply)
  have "same_timing s s1"
    using s1 inj by (auto simp: retk_apply timing_frame.frame_refl split: if_splits)
  moreover have "same_timing s1 s2" by (rule keepsD [OF keeps_timing_prefetch s2])
  ultimately have "same_timing s s2" by (rule timing_frame.frame_trans)
  then show ?thesis by (rule period_silent(1)) (rule timer_restart_timed [OF s3])
qed

lemma timer_inject_silent:
  fixes s :: "'a main_state_scheme"
  assumes "inject_fn (plugin_objs s (module_plugin env)) = Some f"
    and "keeps same_timing (run f (module_plugin env) :: ('a main_state_scheme, int) kprog)"
    and "timer_inject run env s = Inr (u, s')"
  shows "same_timing s s'"
proof -
  from assms(1,3) obtain r s1 x where
    r: "run f (module_plugin env) s = Inr (r, s1)"
    and pre: "prefetch_range env x 4096 s1 = Inr (u, s')"
    unfolding timer_inject_def Let_def module_plugin_def [symmetric]
    by (auto simp: bindk_Inr_iff seqk_Inr_iff derefk_Inr_iff readk_apply)
  from keepsD [OF assms(2) r] keepsD [OF keeps_timing_prefetch pre] show ?thesis
    by (rule timing_frame.frame_trans)
qed

text \<open>An interrupt shows as its delay, if it is hooked, and its handler.\<close>

lemma deliver_irq_timed:
  assumes "own_hooks own s" and "\<And>j. hooked s j \<Longrightarrow> j = i" and "drawable env low high s" and "low \<le> high"
    and run: "deliver_irq own (delayed_handler env low high i call_flow) j s = Inr (u, s')"
  shows "timed env low high (Some (Interrupt j)) s s'"
proof -
  from deliver_irq_once [OF assms(1-4), of j] obtain pos d where
    d: "if hooked s j then get_random (entropy env) low high (entropy_pos s) = Inr (d, pos)
        else pos = entropy_pos s"
    and s': "s' = s\<lparr>entropy_pos := pos, klog := klog s @ delivery s j d\<rparr>"
    using run by auto
  have none: "\<not> hooked s j" if "native_handler s j = None"
    using that by (auto simp: native_handler_def hooked_def split: if_splits)
  show ?thesis
    using d none by (auto simp: s' timed_def class_obs_def delivery_def split: option.split if_splits)
qed

section \<open>The calls that concern the injection timer\<close>

fun unarmed :: "kcall \<Rightarrow> bool" where
  "unarmed (HrtimerStart t p) \<longleftrightarrow> t \<noteq> MainTimer"
| "unarmed (HrtimerForwardNow t p) \<longleftrightarrow> t \<noteq> MainTimer"
| "unarmed (HrtimerCancel t) \<longleftrightarrow> t \<noteq> MainTimer"
| "unarmed c \<longleftrightarrow> True"

lemma quiet_unarmed: "quiet_call c \<Longrightarrow> unarmed c"
proof (cases c)
  case (HrtimerStart t p)
  then show "quiet_call c \<Longrightarrow> ?thesis" by (cases t) (simp_all add: quiet_call_def)
next
  case (HrtimerForwardNow t p)
  then show "quiet_call c \<Longrightarrow> ?thesis" by (cases t) (simp_all add: quiet_call_def)
qed (simp_all add: quiet_call_def)

lemma quiet_unarmed_all: "list_all quiet_call cs \<Longrightarrow> list_all unarmed cs"
  by (auto simp: list_all_iff quiet_unarmed)

text \<open>What an event makes of the injection timer, with a period of \<open>ns\<close> nanoseconds.\<close>

fun arming :: "module_event \<Rightarrow> nat \<Rightarrow> kcall list" where
  "arming TimerTick ns = [HrtimerForwardNow MainTimer (KtimeSet 0 ns)]"
| "arming (Input (Tasklet b)) ns = [HrtimerCancel MainTimer, HrtimerStart MainTimer (KtimeSet 0 ns)]"
| "arming _ ns = []"

definition arms :: "module_event \<Rightarrow> 'a kernel_scheme \<Rightarrow> 'a kernel_scheme \<Rightarrow> bool" where
  "arms ev s s' \<longleftrightarrow> (\<exists>cs ns ds. klog s' = klog s @ cs @ arming ev ns @ ds \<and> ns \<le> 20000000
     \<and> list_all unarmed cs \<and> list_all unarmed ds)"

lemma arms_nothing:
  assumes "\<And>ns. arming ev ns = []" and "klog s' = klog s @ cs" and "list_all unarmed cs"
  shows "arms ev s s'"
  unfolding arms_def using assms by (intro exI [of _ cs] exI [of _ 0] exI [of _ "[]"]) simp

text \<open>Silent programs before and after do not matter.\<close>

lemma arms_silent:
  assumes "same_timing s t" and "arms ev t u" and "same_timing u v"
  shows "arms ev s v"
proof -
  from assms(1) obtain as where as: "klog t = klog s @ as" "list_all quiet_call as" by (auto simp: same_timing_def)
  from assms(3) obtain bs where bs: "klog v = klog u @ bs" "list_all quiet_call bs" by (auto simp: same_timing_def)
  from assms(2) obtain cs ns ds where "klog u = klog t @ cs @ arming ev ns @ ds" "ns \<le> 20000000"
    "list_all unarmed cs" "list_all unarmed ds" unfolding arms_def by blast
  with as bs show ?thesis
    unfolding arms_def
    by (intro exI [of _ "as @ cs"] exI [of _ ns] exI [of _ "ds @ bs"]) (simp add: quiet_unarmed_all)
qed

lemma period_drawn:
  "get_random ent RND_MIN RND_MAX pos = Inr (r, pos') \<Longrightarrow> unat r \<le> 20000000"
  using get_random_bounds [of RND_MIN RND_MAX ent pos r pos']
  by (simp add: RND_MIN_def RND_MAX_def word_le_nat_alt)

lemma timer_restart_arms:
  "timer_restart env s = Inr (r, s') \<Longrightarrow> arms TimerTick s s'"
  by (auto simp: timer_restart_def bindk_Inr_iff seqk_Inr_iff kprog_simps get_randomk_Inr_iff arms_def
      MIN_TIMER_SECONDS_def period_drawn intro: exI [of _ "[]"])

lemma timer_reset_arms:
  "timer_reset env s = Inr (u, s') \<Longrightarrow> arms (Input (Tasklet b)) s s'"
  by (auto simp: timer_reset_def bindk_Inr_iff seqk_Inr_iff kprog_simps get_randomk_Inr_iff arms_def
      MIN_TIMER_SECONDS_def period_drawn intro: exI [of _ "[]"])

lemma real_key_arms:
  assumes "real_key env s = Inr (r, s')"
  shows "arms (Input (Tasklet b)) s s'"
proof -
  from assms obtain x1 s1 x2 s2 x3 where s1: "timer_inject_irq s = Inr (x1, s1)"
    and s2: "timer_reset env s1 = Inr (x2, s2)"
    and s3: "prefetch_range env (own_code_addr env ''timer_restart'') 4096 s2 = Inr (x3, s')"
    by (auto simp: real_key_def seqk_Inr_iff retk_apply)
  show ?thesis
    by (rule arms_silent [OF keepsD [OF keeps_timing_inject_irq s1] timer_reset_arms [OF s2]
          keepsD [OF keeps_timing_prefetch s3]])
qed

lemma timer_function_arms:
  assumes inj: "\<And>u s1. timer_inject run env s = Inr (u, s1) \<Longrightarrow> same_timing s s1"
    and tick: "timer_function run env s = Inr (r, s')"
  shows "arms TimerTick s s'"
proof -
  from tick obtain s1 u1 s2 u2 where
    s1: "(if injection s AND STATE_INJECT \<noteq> 0 then timer_inject run env else retk ()) s = Inr (u1, s1)"
    and s2: "prefetch_range env (own_code_addr env ''timer_reset'') 4096 s1 = Inr (u2, s2)"
    and s3: "timer_restart env s2 = Inr (r, s')"
    by (auto simp: timer_function_def bindk_Inr_iff seqk_Inr_iff readk_apply)
  have "same_timing s s1"
    using s1 inj by (auto simp: retk_apply timing_frame.frame_refl split: if_splits)
  moreover have "same_timing s1 s2" by (rule keepsD [OF keeps_timing_prefetch s2])
  ultimately have "same_timing s s2" by (rule timing_frame.frame_trans)
  then show ?thesis using timer_restart_arms [OF s3] timing_frame.frame_refl by (rule arms_silent)
qed

text \<open>The other events leave the injection timer alone.\<close>

lemma irq_arms:
  assumes "own_hooks own s" and "\<And>j. hooked s j \<Longrightarrow> j = i" and "drawable env low high s" and "low \<le> high"
    and "deliver_irq own (delayed_handler env low high i call_flow) j s = Inr (u, s')"
  shows "arms (Input (Irq j)) s s'"
proof -
  from deliver_irq_once [OF assms(1-4), of j] assms(5) obtain d where "klog s' = klog s @ delivery s j d" by auto
  moreover have "list_all unarmed (delivery s j d)" by (simp add: delivery_def split: option.split)
  ultimately show ?thesis by (intro arms_nothing) simp_all
qed

lemma faketimer_arms: "faketimer_function s = Inr (r, s') \<Longrightarrow> arms FakeTick s s'"
  by (rule arms_nothing [of _ _ _ "[]"])
     (auto simp: faketimer_function_def seqk_Inr_iff kprog_simps)

section \<open>A module that hides its input\<close>

locale timed_module = running_module run env irq initf cleanupf realf notify loadable ready start alive ob ok
  for run :: "'a main_state_scheme dispatcher" and env irq initf cleanupf realf notify
    and loadable ready start alive :: "'a main_state_scheme \<Rightarrow> bool" and ob ok +
  fixes low high :: u32
  assumes alive_timed: "alive s \<Longrightarrow> exec_event run env notify ev s = Inr ((), s') \<Longrightarrow>
      timed env low high (timing_class ev) s s'"
begin

text \<open>What a run shows is a function of the classes of its events.\<close>

lemma timed_events:
  "alive s \<Longrightarrow> for_eachk evs (exec_event run env notify) s = Inr ((), s') \<Longrightarrow>
     observed (klog s') = observed (klog s)
       @ timing_run env low high (hooked s) (native_handler s) (List.map_filter timing_class evs) (entropy_pos s)"
proof (induction evs arbitrary: s)
  case Nil
  then show ?case by (simp add: retk_apply map_filter_simps)
next
  case (Cons ev evs)
  from alive_event [OF Cons.prems(1), of ev] obtain s1 where
    s1: "exec_event run env notify ev s = Inr ((), s1)" "alive s1" "same_hooks s s1" by blast
  have "for_eachk evs (exec_event run env notify) s1 = Inr ((), s')"
    using Cons.prems(2) s1(1) by (simp add: seqk_def bindk_def)
  from Cons.IH [OF s1(2) this] have IH: "observed (klog s') = observed (klog s1)
      @ timing_run env low high (hooked s) (native_handler s) (List.map_filter timing_class evs) (entropy_pos s1)"
    using same_hooksD [OF s1(3)] by (simp add: fun_eq_iff)
  from alive_timed [OF Cons.prems(1) s1(1)] IH show ?case
    by (cases "timing_class ev") (auto simp: timed_def map_filter_simps dest!: same_timing_observed)
qed

lemma hides_input:
  assumes "empty_registry s" and "plugin_objs s (module_plugin env) = ob" and "start s"
    and "List.map_filter timing_class evs = List.map_filter timing_class evs'"
  shows "\<exists>s1 s2 s2' cs cs'. inthide_init run env True s = Inr (0, s1)
     \<and> for_eachk evs (exec_event run env notify) s1 = Inr ((), s2) \<and> klog s2 = klog s1 @ cs
     \<and> for_eachk evs' (exec_event run env notify) s1 = Inr ((), s2') \<and> klog s2' = klog s1 @ cs'
     \<and> observed cs = observed cs'"
proof -
  from start_load [OF assms(1-3)] obtain s1 where
    s1: "inthide_init run env True s = Inr (0, s1)" "alive s1" by blast
  from alive_events [OF s1(2), of evs] obtain s2 cs where
    s2: "for_eachk evs (exec_event run env notify) s1 = Inr ((), s2)" "klog s2 = klog s1 @ cs" by blast
  from alive_events [OF s1(2), of evs'] obtain s2' cs' where
    s2': "for_eachk evs' (exec_event run env notify) s1 = Inr ((), s2')" "klog s2' = klog s1 @ cs'" by blast
  have "observed cs = observed cs'"
    using timed_events [OF s1(2) s2(1)] timed_events [OF s1(2) s2'(1)] s2(2) s2'(2) assms(4) by simp
  with s1(1) s2 s2' show ?thesis by blast
qed

end

end
