(* ===== verification/KD_Clock.thy ===== *)
theory KD_Clock
  imports KD_Observe
begin

text \<open>
  The loaded module in time. The state is extended by a clock and by the moment at which the
  injection timer expires, as the calls of the timer functions set it; how the kernel forwards an
  expired timer is a parameter with the documented property. The contract \<open>armed_module\<close> says that
  an event makes the calls \<open>arms\<close> lists; from it follows that the module is never silent for longer
  than the largest period, whatever happens in between.
\<close>

section \<open>The clock\<close>

record 'm clocked =
  now :: nat
  expiry :: "nat option"
  last_period :: "nat option"
  machine :: 'm

fun ktime_ns :: "ktime \<Rightarrow> nat" where
  "ktime_ns (KtimeSet secs ns) = nat secs * 1000000000 + ns"

text \<open>
  When the timer expires after some calls made at time \<open>t\<close>; \<open>fwd e t p\<close> is the expiry to which the
  kernel forwards a timer that expired at \<open>e\<close> by multiples of the period \<open>p\<close>.
\<close>

fun expires :: "(nat \<Rightarrow> nat \<Rightarrow> nat \<Rightarrow> nat) \<Rightarrow> nat \<Rightarrow> nat option \<Rightarrow> kcall list \<Rightarrow> nat option" where
  "expires fwd t e [] = e"
| "expires fwd t e (HrtimerStart i p # cs) = expires fwd t (if i = MainTimer then Some (t + ktime_ns p) else e) cs"
| "expires fwd t e (HrtimerCancel i # cs) = expires fwd t (if i = MainTimer then None else e) cs"
| "expires fwd t e (HrtimerForwardNow i p # cs) =
     expires fwd t (if i = MainTimer then map_option (\<lambda>x. fwd x t (ktime_ns p)) e else e) cs"
| "expires fwd t e (c # cs) = expires fwd t e cs"

lemma expires_append: "expires fwd t e (cs @ ds) = expires fwd t (expires fwd t e cs) ds"
  by (induction fwd t e cs rule: expires.induct) auto

lemma expires_unarmed: "list_all unarmed cs \<Longrightarrow> expires fwd t e cs = e"
  by (induction fwd t e cs rule: expires.induct) auto

text \<open>
  Forwarding moves an expired timer into the future, by no more than the period, or than the
  resolution \<open>res\<close> of the clock if the period is shorter.
\<close>

definition forwards :: "nat \<Rightarrow> (nat \<Rightarrow> nat \<Rightarrow> nat \<Rightarrow> nat) \<Rightarrow> bool" where
  "forwards res fwd \<longleftrightarrow> (\<forall>e t p. e \<le> t \<longrightarrow> t < fwd e t p \<and> fwd e t p \<le> t + max p res)"

text \<open>By multiples of the period, but at least of the resolution: one function that does.\<close>

definition forward_by_multiples :: "nat \<Rightarrow> nat \<Rightarrow> nat \<Rightarrow> nat \<Rightarrow> nat" where
  "forward_by_multiples res e t p = e + ((t - e) div max p res + 1) * max p res"

lemma forward_by_multiples_forwards:
  assumes "0 < res"
  shows "forwards res (forward_by_multiples res)"
  unfolding forwards_def
proof (intro allI impI)
  fix e t p :: nat
  assume le: "e \<le> t"
  let ?i = "max p res"
  have "0 < ?i" using assms by simp
  have "t - e = (t - e) div ?i * ?i + (t - e) mod ?i" by (rule div_mult_mod_eq [symmetric])
  moreover have "(t - e) mod ?i < ?i" using \<open>0 < ?i\<close> by simp
  ultimately show "t < forward_by_multiples res e t p \<and> forward_by_multiples res e t p \<le> t + ?i"
    using le unfolding forward_by_multiples_def add_mult_distrib by linarith
qed

text \<open>
  Steps. Time passes, but the timer's interrupt is at most \<open>late\<close> nanoseconds late; an expired timer
  fires; any other event may happen at any time. An event takes no time. \<open>exec\<close> runs an event.
\<close>

definition after_event ::
  "(nat \<Rightarrow> nat \<Rightarrow> nat \<Rightarrow> nat) \<Rightarrow> module_event \<Rightarrow> 'a kernel_scheme \<Rightarrow> 'a kernel_scheme clocked \<Rightarrow> 'a kernel_scheme clocked"
  where
  "after_event fwd ev m S = S\<lparr>
     expiry := expires fwd (now S) (expiry S) (drop (length (klog (machine S))) (klog m)),
     last_period := (if timing_class ev = Some Period then Some (now S) else last_period S),
     machine := m\<rparr>"

inductive clock_step ::
  "(nat \<Rightarrow> nat \<Rightarrow> nat \<Rightarrow> nat) \<Rightarrow> nat \<Rightarrow> (module_event \<Rightarrow> ('a kernel_scheme, unit) kprog)
     \<Rightarrow> 'a kernel_scheme clocked \<Rightarrow> 'a kernel_scheme clocked \<Rightarrow> bool" for fwd late exec where
  time_passes: "(\<And>e. expiry S = Some e \<Longrightarrow> now S + d \<le> e + late) \<Longrightarrow>
     clock_step fwd late exec S (S\<lparr>now := now S + d\<rparr>)"
| timer_fires: "expiry S = Some e \<Longrightarrow> e \<le> now S \<Longrightarrow> exec TimerTick (machine S) = Inr ((), m) \<Longrightarrow>
     clock_step fwd late exec S (after_event fwd TimerTick m S)"
| event_happens: "ev \<noteq> TimerTick \<Longrightarrow> exec ev (machine S) = Inr ((), m) \<Longrightarrow>
     clock_step fwd late exec S (after_event fwd ev m S)"

text \<open>The module has been loaded at time \<open>t0\<close>, which led to \<open>m\<close>.\<close>

definition clock_start ::
  "(nat \<Rightarrow> nat \<Rightarrow> nat \<Rightarrow> nat) \<Rightarrow> nat \<Rightarrow> 'a kernel_scheme \<Rightarrow> 'a kernel_scheme clocked \<Rightarrow> bool" where
  "clock_start fwd t0 m S \<longleftrightarrow> now S = t0 \<and> expiry S = expires fwd t0 None (klog m)
     \<and> last_period S = None \<and> machine S = m"

text \<open>The next firing is near: 20 ms after the last period at most, or 2.000104167 s after the load.\<close>

definition next_firing :: "nat \<Rightarrow> nat \<Rightarrow> 'm clocked \<Rightarrow> bool" where
  "next_firing t0 late S \<longleftrightarrow> (\<exists>e. expiry S = Some e \<and> now S \<le> e + late
     \<and> (case last_period S of None \<Rightarrow> e = t0 + 2000104167 | Some l \<Rightarrow> l \<le> now S \<and> e \<le> l + 20000000))"

lemma after_event_next:
  assumes "forwards res fwd" and "res \<le> 20000000"
    and "arms ev (machine S) m" and "ev = TimerTick \<longrightarrow> (\<exists>e. expiry S = Some e \<and> e \<le> now S)"
    and "next_firing t0 late S"
  shows "next_firing t0 late (after_event fwd ev m S)"
proof -
  from assms(3) obtain cs ns ds where log: "klog m = klog (machine S) @ cs @ arming ev ns @ ds"
    "ns \<le> 20000000" "list_all unarmed cs" "list_all unarmed ds" unfolding arms_def by blast
  then have e: "expiry (after_event fwd ev m S) = expires fwd (now S) (expiry S) (arming ev ns)"
    by (simp add: after_event_def expires_append expires_unarmed)
  show ?thesis
  proof (cases "timing_class ev = Some Period")
    case False
    then have "arming ev ns = []" by (cases ev rule: timing_class.cases) simp_all
    with e assms(5) False show ?thesis by (cases "last_period S") (simp_all add: next_firing_def after_event_def)
  next
    case True
    consider "ev = TimerTick" | b where "ev = Input (Tasklet b)"
      using True by (cases ev rule: timing_class.cases) auto
    then show ?thesis
    proof cases
      case 1
      with assms(4) obtain x where x: "expiry S = Some x" "x \<le> now S" by blast
      with assms(1) have "now S < fwd x (now S) ns" "fwd x (now S) ns \<le> now S + max ns res"
        by (auto simp: forwards_def)
      with 1 e x log(2) assms(2) show ?thesis by (auto simp: next_firing_def) (simp_all add: after_event_def)
    next
      case 2
      with e log(2) show ?thesis by (auto simp: next_firing_def) (simp_all add: after_event_def)
    qed
  qed
qed

section \<open>A module that is never silent\<close>

definition clock_inv :: "('m \<Rightarrow> bool) \<Rightarrow> nat \<Rightarrow> nat \<Rightarrow> 'm clocked \<Rightarrow> bool" where
  "clock_inv alive t0 late S \<longleftrightarrow> alive (machine S) \<and> next_firing t0 late S"

locale armed_module = timed_module run env irq initf cleanupf realf notify loadable ready start alive ob ok low high
  for run :: "'a main_state_scheme dispatcher" and env irq initf cleanupf realf notify
    and loadable ready start alive :: "'a main_state_scheme \<Rightarrow> bool" and ob ok low high +
  assumes alive_arms: "alive s \<Longrightarrow> exec_event run env notify ev s = Inr ((), s') \<Longrightarrow> arms ev s s'"
begin

lemma clock_event:
  assumes "clock_inv alive t0 late S" and "forwards res fwd" and "res \<le> 20000000"
    and "exec_event run env notify ev (machine S) = Inr ((), m)"
    and "ev = TimerTick \<longrightarrow> (\<exists>e. expiry S = Some e \<and> e \<le> now S)"
  shows "clock_inv alive t0 late (after_event fwd ev m S)"
proof -
  from assms(1) have alive: "alive (machine S)" and near: "next_firing t0 late S" by (simp_all add: clock_inv_def)
  have "alive m" using alive_event [OF alive, of ev] assms(4) by auto
  with after_event_next [OF assms(2,3) alive_arms [OF alive assms(4)] assms(5) near] show ?thesis
    by (simp add: clock_inv_def) (simp add: after_event_def)
qed

lemma clock_invariant:
  assumes "forwards res fwd" and "res \<le> 20000000" and "alive m"
    and "\<exists>l. klog m = l @ [HrtimerStart MainTimer (KtimeSet 2 104167)]"
  shows "invariant_system (clock_start fwd t0 m) (clock_step fwd late (exec_event run env notify)) (clock_inv alive t0 late)"
proof unfold_locales
  fix S assume "clock_start fwd t0 m S"
  with assms(3,4) show "clock_inv alive t0 late S"
    by (auto simp: clock_start_def clock_inv_def next_firing_def expires_append)
next
  fix S T assume inv: "clock_inv alive t0 late S" and "clock_step fwd late (exec_event run env notify) S T"
  from this(2) show "clock_inv alive t0 late T"
  proof cases
    case (time_passes d)
    with inv show ?thesis by (auto simp: clock_inv_def next_firing_def split: option.splits)
  next
    case (timer_fires e m')
    with clock_event [OF inv assms(1,2)] show ?thesis by blast
  next
    case (event_happens ev m')
    with clock_event [OF inv assms(1,2)] show ?thesis by blast
  qed
qed

text \<open>The timer can always fire: by waiting for the expiry, if it lies ahead, and then firing.\<close>

lemma clock_progress:
  assumes "clock_inv alive t0 late S" and "expiry S = Some e"
  shows "\<exists>T. (clock_step fwd late (exec_event run env notify) ^^ 2) S T \<and> last_period T = Some (max (now S) e)
     \<and> exec_event run env notify TimerTick (machine S) = Inr ((), machine T)"
proof -
  let ?step = "clock_step fwd late (exec_event run env notify)"
  let ?S1 = "S\<lparr>now := now S + (e - now S)\<rparr>"
  from assms(1) have alive: "alive (machine S)" and near: "now S \<le> e + late"
    using assms(2) by (auto simp: clock_inv_def next_firing_def)
  from alive_event [OF alive, of TimerTick] obtain m where
    m: "exec_event run env notify TimerTick (machine S) = Inr ((), m)" by blast
  have "?step S ?S1" using assms(2) near by (intro time_passes) auto
  moreover have "?step ?S1 (after_event fwd TimerTick m ?S1)"
    using assms(2) m by (intro timer_fires) auto
  ultimately have "(?step ^^ 2) S (after_event fwd TimerTick m ?S1)" by (auto simp: numeral_2_eq_2)
  moreover have "last_period (after_event fwd TimerTick m ?S1) = Some (max (now S) e)"
    by (simp add: after_event_def max_def)
  moreover have "machine (after_event fwd TimerTick m ?S1) = m" by (simp add: after_event_def)
  ultimately show ?thesis using m by metis
qed

text \<open>The firing to come is one of a module that is alive.\<close>

lemma never_silent:
  assumes "empty_registry s" and "plugin_objs s (module_plugin env) = ob" and "start s"
    and "forwards res fwd" and "res \<le> 20000000"
  shows "\<exists>s1. inthide_init run env True s = Inr (0, s1)
     \<and> (\<forall>t0 S. reach (clock_start fwd t0 s1) (clock_step fwd late (exec_event run env notify)) S \<longrightarrow>
          next_firing t0 late S \<and> alive (machine S)
          \<and> (\<exists>T. (clock_step fwd late (exec_event run env notify) ^^ 2) S T
               \<and> last_period T = Some (max (now S) (the (expiry S)))
               \<and> exec_event run env notify TimerTick (machine S) = Inr ((), machine T)))"
proof -
  from start_load [OF assms(1-3)] obtain s1 where s1: "inthide_init run env True s = Inr (0, s1)" "alive s1"
    "\<exists>l. klog s1 = l @ [HrtimerStart MainTimer (KtimeSet 2 104167)]" by blast
  have "next_firing t0 late S \<and> alive (machine S)
      \<and> (\<exists>T. (clock_step fwd late (exec_event run env notify) ^^ 2) S T
           \<and> last_period T = Some (max (now S) (the (expiry S)))
           \<and> exec_event run env notify TimerTick (machine S) = Inr ((), machine T))"
    if r: "reach (clock_start fwd t0 s1) (clock_step fwd late (exec_event run env notify)) S" for t0 S
  proof -
    have inv: "clock_inv alive t0 late S"
      by (rule invariant_system.reach_inv [OF clock_invariant [OF assms(4,5) s1(2,3)] r])
    then obtain e where "expiry S = Some e" by (auto simp: clock_inv_def next_firing_def)
    with clock_progress [OF inv this] inv show ?thesis by (simp add: clock_inv_def)
  qed
  with s1(1) show ?thesis by blast
qed

end

end
