(* ===== verification/KD_Input.thy ===== *)
theory KD_Input
  imports KD_Clock
begin

text \<open>
  Real input as the machine delivers it to the loaded module: a device's data pass the plugin's
  filter, which schedules a tasklet; the kernel runs a scheduled tasklet some time later, and once,
  however often it was scheduled. The contract \<open>filtered_module\<close> says what the filter does with one
  datum; from it follows that runs at this level show the same as runs of module events, and which
  input restarts the injection timer.
\<close>

section \<open>Tasklets\<close>

text \<open>The argument of each tasklet, as \<open>DECLARE_TASKLET\<close> binds it.\<close>

fun tasklet_arg :: "tasklet_id \<Rightarrow> bool" where
  "tasklet_arg KbPressNotify = True"
| "tasklet_arg KbReleaseNotify = False"
| "tasklet_arg TsTapNotify = True"
| "tasklet_arg TsReleaseNotify = False"

text \<open>The tasklets that calls schedule.\<close>

definition scheduled :: "kcall list \<Rightarrow> tasklet_id set" where
  "scheduled cs = {t. TaskletSchedule t \<in> set cs}"

text \<open>
  A datum of type \<open>'d\<close> reaches the filter, a tasklet may run, or something else happens to the
  machine. A tasklet that is not scheduled does not run.
\<close>

datatype 'd hw_event =
    Datum 'd
  | Softirq tasklet_id
  | IrqLine int
  | Tick
  | Control "int option" nat
  | FakeFires

fun machine_event :: "'d hw_event \<Rightarrow> module_event option" where
  "machine_event (Datum d) = None"
| "machine_event (Softirq t) = None"
| "machine_event (IrqLine j) = Some (Input (Irq j))"
| "machine_event Tick = Some TimerTick"
| "machine_event (Control v n) = Some (WriteControl v n)"
| "machine_event FakeFires = Some FakeTick"

definition on_machine :: "('s, 'b) kprog \<Rightarrow> ('p \<times> 's, 'b) kprog" where
  "on_machine m S = (case m (snd S) of Inl e \<Rightarrow> Inl e | Inr (x, s') \<Rightarrow> Inr (x, (fst S, s')))"

definition hw_exec ::
  "('d \<Rightarrow> ('a kernel_scheme, bool) kprog) \<Rightarrow> (module_event \<Rightarrow> ('a kernel_scheme, unit) kprog) \<Rightarrow> 'd hw_event
     \<Rightarrow> (tasklet_id set \<times> 'a kernel_scheme, unit) kprog" where
  "hw_exec filt exec ev S =
     (case ev of
        Datum d \<Rightarrow>
          (case filt d (snd S) of
             Inl e \<Rightarrow> Inl e
           | Inr (b, s') \<Rightarrow> Inr ((), (fst S \<union> scheduled (drop (length (klog (snd S))) (klog s')), s')))
      | Softirq t \<Rightarrow>
          (if t \<in> fst S then on_machine (exec (Input (Tasklet (tasklet_arg t)))) (fst S - {t}, snd S)
           else retk () S)
      | _ \<Rightarrow> (case machine_event ev of Some m \<Rightarrow> on_machine (exec m) S | None \<Rightarrow> retk () S))"

section \<open>The module events behind a run\<close>

text \<open>
  The abstract view: \<open>sched\<close> says which tasklet a datum schedules; \<open>P\<close> are the tasklets that are
  pending.
\<close>

fun hw_pending :: "('d \<Rightarrow> tasklet_id option) \<Rightarrow> tasklet_id set \<Rightarrow> 'd hw_event list \<Rightarrow> tasklet_id set" where
  "hw_pending sched P [] = P"
| "hw_pending sched P (Datum d # evs) = hw_pending sched (P \<union> set_option (sched d)) evs"
| "hw_pending sched P (Softirq t # evs) = hw_pending sched (P - {t}) evs"
| "hw_pending sched P (ev # evs) = hw_pending sched P evs"

fun hw_events :: "('d \<Rightarrow> tasklet_id option) \<Rightarrow> tasklet_id set \<Rightarrow> 'd hw_event list \<Rightarrow> module_event list" where
  "hw_events sched P [] = []"
| "hw_events sched P (Datum d # evs) = hw_events sched (P \<union> set_option (sched d)) evs"
| "hw_events sched P (Softirq t # evs) =
     (if t \<in> P then [Input (Tasklet (tasklet_arg t))] else []) @ hw_events sched (P - {t}) evs"
| "hw_events sched P (ev # evs) =
     (case machine_event ev of Some m \<Rightarrow> [m] | None \<Rightarrow> []) @ hw_events sched P evs"

lemma hw_pending_append: "hw_pending sched P (xs @ ys) = hw_pending sched (hw_pending sched P xs) ys"
  by (induction sched P xs rule: hw_pending.induct) simp_all

lemma hw_events_append:
  "hw_events sched P (xs @ ys) = hw_events sched P xs @ hw_events sched (hw_pending sched P xs) ys"
  by (induction sched P xs rule: hw_pending.induct) simp_all

text \<open>No input is lost: once its tasklet has run after it, an input event has been delivered since.\<close>

lemma pending_answered:
  "t \<in> P \<Longrightarrow> Softirq t \<in> set evs \<Longrightarrow> Input (Tasklet (tasklet_arg t)) \<in> set (hw_events sched P evs)"
  by (induction sched P evs rule: hw_pending.induct) auto

text \<open>Nor does input arise from nothing: there are at most as many input events as data that schedule one.\<close>

definition inputs :: "module_event list \<Rightarrow> nat" where
  "inputs evs = length (filter (\<lambda>ev. \<exists>b. ev = Input (Tasklet b)) evs)"

fun scheduling :: "('d \<Rightarrow> tasklet_id option) \<Rightarrow> 'd hw_event list \<Rightarrow> nat" where
  "scheduling sched [] = 0"
| "scheduling sched (Datum d # evs) = (if sched d = None then 0 else 1) + scheduling sched evs"
| "scheduling sched (ev # evs) = scheduling sched evs"

lemma inputs_simps [simp]:
  "inputs [] = 0" "inputs (Input (Tasklet b) # evs) = Suc (inputs evs)" "inputs (Input (Irq j) # evs) = inputs evs"
  "inputs (TimerTick # evs) = inputs evs" "inputs (WriteControl v n # evs) = inputs evs"
  "inputs (FakeTick # evs) = inputs evs"
  by (simp_all add: inputs_def)

lemma card_insert_bound: "finite P \<Longrightarrow> card (insert t P) \<le> Suc (card P)"
  by (simp add: card_insert_if)

lemma inputs_bound:
  "finite P \<Longrightarrow> inputs (hw_events sched P evs) + card (hw_pending sched P evs) \<le> card P + scheduling sched evs"
proof (induction sched P evs rule: hw_pending.induct)
  case (2 sched P d evs)
  then show ?case using card_insert_bound [of P] by (cases "sched d") (auto intro: order_trans)
next
  case (3 sched P t evs)
  show ?case
  proof (cases "t \<in> P")
    case True
    then have "0 < card P" using 3(2) by (auto simp: card_gt_0_iff)
    with True 3 show ?thesis by (simp add: card_Diff_singleton)
  next
    case False
    with 3 show ?thesis by simp
  qed
qed simp_all

lemma inputs_append: "inputs (xs @ ys) = inputs xs + inputs ys"
  by (simp add: inputs_def)

lemma inputs_some: "Input (Tasklet b) \<in> set evs \<Longrightarrow> 1 \<le> inputs evs"
  by (induction evs) (auto simp: inputs_def)

text \<open>How often the injection timer is started.\<close>

definition restarts :: "kcall list \<Rightarrow> nat" where
  "restarts cs = length (filter (\<lambda>c. \<exists>p. c = HrtimerStart MainTimer p) cs)"

lemma restarts_append: "restarts (cs @ ds) = restarts cs + restarts ds"
  by (simp add: restarts_def)

lemma restarts_unarmed: "list_all unarmed cs \<Longrightarrow> restarts cs = 0"
  by (induction cs rule: list.induct) (auto simp: restarts_def)

lemma restarts_Nil [simp]: "restarts [] = 0"
  by (simp add: restarts_def)

lemma arms_restarts:
  assumes "arms m s s'"
  shows "\<exists>cs. klog s' = klog s @ cs \<and> restarts cs = inputs [m]"
proof -
  from assms obtain cs ns ds where "klog s' = klog s @ cs @ arming m ns @ ds"
    "list_all unarmed cs" "list_all unarmed ds" unfolding arms_def by blast
  moreover have "restarts (arming m ns) = inputs [m]"
    by (cases "(m, ns)" rule: arming.cases) (simp_all add: restarts_def)
  ultimately show ?thesis
    by (intro exI [of _ "cs @ arming m ns @ ds"]) (simp add: restarts_append restarts_unarmed)
qed

section \<open>A module behind a filter\<close>

locale filtered_module = armed_module run env irq initf cleanupf realf notify loadable ready start alive ob ok low high
  for run :: "'a main_state_scheme dispatcher" and env irq initf cleanupf realf notify
    and loadable ready start alive :: "'a main_state_scheme \<Rightarrow> bool" and ob ok low high +
  fixes filt :: "'d \<Rightarrow> ('a main_state_scheme, bool) kprog"
    and sched :: "'d \<Rightarrow> tasklet_id option"
  assumes filter_once: "alive s \<Longrightarrow> \<exists>b cs. filt d s = Inr (b, s\<lparr>klog := klog s @ cs\<rparr>)
      \<and> list_all quiet_call cs \<and> scheduled cs = set_option (sched d)"
begin

text \<open>One event at this level: it returns, shows as its module events do, and makes their calls.\<close>

lemma hw_event:
  assumes "alive s"
  shows "\<exists>s'. hw_exec filt (exec_event run env notify) ev (P, s) = Inr ((), (hw_pending sched P [ev], s'))
     \<and> alive s' \<and> same_hooks s s'
     \<and> (case hw_events sched P [ev] of
          [] \<Rightarrow> same_timing s s'
        | m # ms \<Rightarrow> ms = [] \<and> timed env low high (timing_class m) s s' \<and> arms m s s')"
proof -
  have machine: "\<exists>s'. exec_event run env notify m s = Inr ((), s') \<and> alive s' \<and> same_hooks s s'
      \<and> timed env low high (timing_class m) s s' \<and> arms m s s'" for m
    using alive_event [OF assms, of m] alive_timed [OF assms] alive_arms [OF assms] by blast
  show ?thesis
  proof (cases ev)
    case (Datum d)
    from filter_once [OF assms, of d] obtain b cs where
      f: "filt d s = Inr (b, s\<lparr>klog := klog s @ cs\<rparr>)" "list_all quiet_call cs" "scheduled cs = set_option (sched d)"
      by blast
    have "same_plugin_view s (s\<lparr>klog := klog s @ cs\<rparr>)"
      by (simp add: same_plugin_view_def same_hooks_def same_registry_def)
    then have "alive (s\<lparr>klog := klog s @ cs\<rparr>)" using alive_view assms by blast
    with Datum f show ?thesis
      by (intro exI [of _ "s\<lparr>klog := klog s @ cs\<rparr>"]) (simp add: hw_exec_def same_hooks_def same_timing_def)
  next
    case (Softirq t)
    with machine [of "Input (Tasklet (tasklet_arg t))"] assms show ?thesis
      by (cases "t \<in> P") (auto simp: hw_exec_def on_machine_def retk_apply same_hooks_def timing_frame.frame_refl)
  next
    case (IrqLine j)
    with machine [of "Input (Irq j)"] show ?thesis by (auto simp: hw_exec_def on_machine_def)
  next
    case Tick
    with machine [of TimerTick] show ?thesis by (auto simp: hw_exec_def on_machine_def)
  next
    case (Control v n)
    with machine [of "WriteControl v n"] show ?thesis by (auto simp: hw_exec_def on_machine_def)
  next
    case FakeFires
    with machine [of FakeTick] show ?thesis by (auto simp: hw_exec_def on_machine_def)
  qed
qed

lemma hw_run:
  assumes "alive s"
  shows "\<exists>s'. for_eachk evs (hw_exec filt (exec_event run env notify)) (P, s) = Inr ((), (hw_pending sched P evs, s'))
     \<and> alive s' \<and> same_hooks s s' \<and> (\<exists>cs. klog s' = klog s @ cs)
     \<and> observed (klog s') = observed (klog s)
         @ timing_run env low high (hooked s) (native_handler s)
             (List.map_filter timing_class (hw_events sched P evs)) (entropy_pos s)"
  using assms
proof (induction evs arbitrary: P s)
  case Nil
  then show ?case by (simp add: retk_apply same_hooks_def map_filter_simps)
next
  case (Cons ev evs)
  from hw_event [OF Cons.prems, of ev P] obtain s1 where
    s1: "hw_exec filt (exec_event run env notify) ev (P, s) = Inr ((), (hw_pending sched P [ev], s1))"
      "alive s1" "same_hooks s s1"
    and shows_ev: "case hw_events sched P [ev] of [] \<Rightarrow> same_timing s s1
        | m # ms \<Rightarrow> ms = [] \<and> timed env low high (timing_class m) s s1 \<and> arms m s s1" by blast
  let ?P = "hw_pending sched P [ev]"
  let ?cs = "List.map_filter timing_class (hw_events sched ?P evs)"
  from Cons.IH [OF s1(2), of ?P] obtain s' where
    s': "for_eachk evs (hw_exec filt (exec_event run env notify)) (?P, s1) = Inr ((), (hw_pending sched ?P evs, s'))"
      "alive s'" "same_hooks s1 s'" "\<exists>cs. klog s' = klog s1 @ cs"
    and IH: "observed (klog s') = observed (klog s1)
         @ timing_run env low high (hooked s) (native_handler s) ?cs (entropy_pos s1)"
    using same_hooksD [OF s1(3)] by (auto simp: fun_eq_iff)
  have P: "hw_pending sched P (ev # evs) = hw_pending sched ?P evs"
    using hw_pending_append [of sched P "[ev]" evs] by simp
  have evs: "hw_events sched P (ev # evs) = hw_events sched P [ev] @ hw_events sched ?P evs"
    using hw_events_append [of sched P "[ev]" evs] by simp
  have log: "\<exists>cs. klog s1 = klog s @ cs"
    using shows_ev by (auto simp: same_timing_def arms_def split: list.splits)
  have obs: "observed (klog s') = observed (klog s)
         @ timing_run env low high (hooked s) (native_handler s)
             (List.map_filter timing_class (hw_events sched P (ev # evs))) (entropy_pos s)"
  proof (cases "hw_events sched P [ev]")
    case Nil
    with shows_ev have "same_timing s s1" by simp
    from same_timing_observed [OF this] IH Nil show ?thesis unfolding evs by simp
  next
    case (Cons m ms)
    with shows_ev have "ms = []" "timed env low high (timing_class m) s s1" by simp_all
    with Cons IH show ?thesis
      unfolding evs
      by (cases "timing_class m") (auto simp: timed_def map_filter_simps dest!: same_timing_observed)
  qed
  have "for_eachk (ev # evs) (hw_exec filt (exec_event run env notify)) (P, s)
      = Inr ((), (hw_pending sched P (ev # evs), s'))"
    using s1(1) s'(1) by (simp add: seqk_def bindk_def P)
  moreover have "same_hooks s s'" using s1(3) s'(3) by (simp add: same_hooks_def)
  ultimately show ?case using s'(2,4) obs log by auto
qed

text \<open>A run at this level shows what the run of its module events shows.\<close>

lemma hw_refines:
  assumes "empty_registry s" and "plugin_objs s (module_plugin env) = ob" and "start s"
  shows "\<exists>s1. inthide_init run env True s = Inr (0, s1)
     \<and> (\<forall>evs. \<exists>s2 s2' cs cs'.
          for_eachk evs (hw_exec filt (exec_event run env notify)) ({}, s1) = Inr ((), (hw_pending sched {} evs, s2))
          \<and> klog s2 = klog s1 @ cs
          \<and> for_eachk (hw_events sched {} evs) (exec_event run env notify) s1 = Inr ((), s2')
          \<and> klog s2' = klog s1 @ cs' \<and> observed cs = observed cs')"
proof -
  from start_load [OF assms] obtain s1 where
    s1: "inthide_init run env True s = Inr (0, s1)" "alive s1" by blast
  have "\<exists>s2 s2' cs cs'.
          for_eachk evs (hw_exec filt (exec_event run env notify)) ({}, s1) = Inr ((), (hw_pending sched {} evs, s2))
          \<and> klog s2 = klog s1 @ cs
          \<and> for_eachk (hw_events sched {} evs) (exec_event run env notify) s1 = Inr ((), s2')
          \<and> klog s2' = klog s1 @ cs' \<and> observed cs = observed cs'" for evs
  proof -
    from hw_run [OF s1(2), of evs "{}"] obtain s2 cs where
      s2: "for_eachk evs (hw_exec filt (exec_event run env notify)) ({}, s1) = Inr ((), (hw_pending sched {} evs, s2))"
        "klog s2 = klog s1 @ cs" "observed (klog s2) = observed (klog s1)
         @ timing_run env low high (hooked s1) (native_handler s1)
             (List.map_filter timing_class (hw_events sched {} evs)) (entropy_pos s1)" by blast
    from alive_events [OF s1(2), of "hw_events sched {} evs"] obtain s2' cs' where
      s2': "for_eachk (hw_events sched {} evs) (exec_event run env notify) s1 = Inr ((), s2')"
        "klog s2' = klog s1 @ cs'" by blast
    from timed_events [OF s1(2) s2'(1)] s2(2,3) s2'(2) have "observed cs = observed cs'" by simp
    with s2(1,2) s2' show ?thesis by blast
  qed
  with s1(1) show ?thesis by blast
qed

text \<open>The injection timer is started once for each input event, and by nothing else.\<close>

lemma hw_restarts:
  assumes "alive s" and "for_eachk evs (hw_exec filt (exec_event run env notify)) (P, s) = Inr ((), (Q, s'))"
    and "klog s' = klog s @ cs"
  shows "restarts cs = inputs (hw_events sched P evs)"
  using assms
proof (induction evs arbitrary: P s cs)
  case Nil
  then show ?case by (simp add: retk_apply)
next
  case (Cons ev evs)
  from hw_event [OF Cons.prems(1), of ev P] obtain s1 where
    s1: "hw_exec filt (exec_event run env notify) ev (P, s) = Inr ((), (hw_pending sched P [ev], s1))" "alive s1"
    and shows_ev: "case hw_events sched P [ev] of [] \<Rightarrow> same_timing s s1
        | m # ms \<Rightarrow> ms = [] \<and> timed env low high (timing_class m) s s1 \<and> arms m s s1" by blast
  from Cons.prems(2) s1(1) have rest: "for_eachk evs (hw_exec filt (exec_event run env notify))
      (hw_pending sched P [ev], s1) = Inr ((), (Q, s'))" by (simp add: seqk_def bindk_def)
  from hw_run [OF s1(2), of evs "hw_pending sched P [ev]"] rest obtain ds where ds: "klog s' = klog s1 @ ds" by auto
  obtain as where as: "klog s1 = klog s @ as" "restarts as = inputs (hw_events sched P [ev])"
  proof (cases "hw_events sched P [ev]")
    case Nil
    with shows_ev that show ?thesis by (auto simp: same_timing_def quiet_unarmed_all restarts_unarmed)
  next
    case (Cons m ms)
    with shows_ev that arms_restarts [of m s s1] show ?thesis by auto
  qed
  from Cons.IH [OF s1(2) rest ds] as ds Cons.prems(3) show ?case
    using hw_events_append [of sched P "[ev]" evs] by (simp add: inputs_append restarts_append)
qed

lemma input_restarts:
  assumes "empty_registry s" and "plugin_objs s (module_plugin env) = ob" and "start s"
    and "sched d = Some t" and "Softirq t \<in> set ys"
  shows "\<exists>s1 P2 s2 P3 s3 cs ds. inthide_init run env True s = Inr (0, s1)
     \<and> for_eachk (xs @ [Datum d]) (hw_exec filt (exec_event run env notify)) ({}, s1) = Inr ((), (P2, s2))
     \<and> klog s2 = klog s1 @ cs
     \<and> for_eachk ys (hw_exec filt (exec_event run env notify)) (P2, s2) = Inr ((), (P3, s3))
     \<and> klog s3 = klog s2 @ ds
     \<and> 1 \<le> restarts ds \<and> restarts (cs @ ds) \<le> scheduling sched (xs @ [Datum d] @ ys)"
proof -
  from start_load [OF assms(1-3)] obtain s1 where
    s1: "inthide_init run env True s = Inr (0, s1)" "alive s1" by blast
  let ?xs = "xs @ [Datum d]" let ?P = "hw_pending sched {} ?xs"
  from hw_run [OF s1(2), of ?xs "{}"] obtain s2 cs where
    s2: "for_eachk ?xs (hw_exec filt (exec_event run env notify)) ({}, s1) = Inr ((), (?P, s2))" "alive s2"
      "klog s2 = klog s1 @ cs" by blast
  from hw_run [OF s2(2), of ys ?P] obtain s3 ds where
    s3: "for_eachk ys (hw_exec filt (exec_event run env notify)) (?P, s2) = Inr ((), (hw_pending sched ?P ys, s3))"
      "klog s3 = klog s2 @ ds" by blast
  have r: "restarts cs = inputs (hw_events sched {} ?xs)" "restarts ds = inputs (hw_events sched ?P ys)"
    using hw_restarts [OF s1(2) s2(1,3)] hw_restarts [OF s2(2) s3] by simp_all
  have "t \<in> ?P" by (simp add: hw_pending_append assms(4))
  from inputs_some [OF pending_answered [OF this assms(5)]] r(2) have "1 \<le> restarts ds" by simp
  moreover have "restarts (cs @ ds) \<le> scheduling sched (?xs @ ys)"
    using inputs_bound [of "{}" sched "?xs @ ys"] r hw_events_append [of sched "{}" ?xs ys]
    by (simp add: restarts_append inputs_append)
  ultimately show ?thesis using s1(1) s2(1,3) s3 by (metis append_assoc)
qed

end

end
