(* ===== verification/KD_Control.thy ===== *)
theory KD_Control
  imports KD_Observe
begin

text \<open>
  What the control file controls: over whole runs of a loaded module, what is injected and when. An
  injection is made of the scancodes or touch reports sent to the input layer and of the requests to
  CPUs to raise the interrupt; the contract \<open>controlled_module\<close> says how one event of a running
  module injects, and proves that a run injects once for each tick of the injection timer that finds
  bit 0 of the control state set, and never otherwise. The theories of the two builds interpret it.
\<close>

section \<open>Injections\<close>

text \<open>The calls by which the two plugins inject.\<close>

fun injection_call :: "kcall \<Rightarrow> bool" where
  "injection_call (SerioInterrupt port c) \<longleftrightarrow> True"
| "injection_call (SmpCallInject c) \<longleftrightarrow> True"
| "injection_call (InputMtReportSlotState dev tool active) \<longleftrightarrow> True"
| "injection_call c \<longleftrightarrow> False"

definition injected :: "kcall list \<Rightarrow> kcall list" where
  "injected cs = filter injection_call cs"

lemma injected_simps [simp]:
  "injected [] = []" "injected (c # cs) = (if injection_call c then c # injected cs else injected cs)"
  "injected (cs @ ds) = injected cs @ injected ds"
  by (simp_all add: injected_def)

lemma injected_smp [simp]: "injected (map SmpCallInject cs) = map SmpCallInject cs"
  by (induction cs) simp_all

lemma injected_prefetch [simp]: "injected (map PrefetchTouch as) = []"
  by (induction as) simp_all

text \<open>
  The specification: the control state after an event, whether the event injects, and how often the
  events of a run do.
\<close>

fun control_after :: "int \<Rightarrow> module_event \<Rightarrow> int" where
  "control_after v (WriteControl (Some w) n) = w"
| "control_after v ev = v"

fun injects :: "int \<Rightarrow> module_event \<Rightarrow> bool" where
  "injects v TimerTick \<longleftrightarrow> odd v"
| "injects v ev \<longleftrightarrow> False"

fun injections :: "int \<Rightarrow> module_event list \<Rightarrow> nat" where
  "injections v [] = 0"
| "injections v (ev # evs) = (if injects v ev then 1 else 0) + injections (control_after v ev) evs"

fun writes_control :: "module_event \<Rightarrow> bool" where
  "writes_control (WriteControl parsed n) \<longleftrightarrow> parsed \<noteq> None"
| "writes_control ev \<longleftrightarrow> False"

lemma no_write_keeps: "\<not> writes_control ev \<Longrightarrow> control_after v ev = v"
  by (cases ev rule: writes_control.cases) auto

lemma off_injects_nothing: "even v \<Longrightarrow> \<not> injects v ev"
  by (cases ev) simp_all

lemma injections_off:
  "even v \<Longrightarrow> list_all (\<lambda>ev. \<not> writes_control ev) evs \<Longrightarrow> injections v evs = 0"
  by (induction evs) (simp_all add: no_write_keeps off_injects_nothing)

lemma odd_state: "v AND STATE_INJECT \<noteq> 0 \<longleftrightarrow> odd v"
  by (simp add: STATE_INJECT_def and_one_eq odd_iff_mod_2_eq_one)

text \<open>One event of a run, where an injection consists of the calls \<open>stroke s\<close>.\<close>

definition controls ::
  "('a main_state_scheme \<Rightarrow> kcall list) \<Rightarrow> module_event \<Rightarrow> 'a main_state_scheme \<Rightarrow> 'a main_state_scheme \<Rightarrow> bool" where
  "controls stroke ev s s' \<longleftrightarrow> injection s' = control_after (injection s) ev \<and> stroke s' = stroke s
     \<and> (\<exists>cs. klog s' = klog s @ cs \<and> injected cs = (if injects (injection s) ev then stroke s else []))"

section \<open>Programs that inject nothing\<close>

definition uninjected :: "'a main_state_scheme \<Rightarrow> 'a main_state_scheme \<Rightarrow> bool" where
  "uninjected s s' \<longleftrightarrow> injection s' = injection s \<and> (\<exists>cs. klog s' = klog s @ cs \<and> injected cs = [])"

interpretation uninjected_frame: frame_relation
  "uninjected :: 'a main_state_scheme \<Rightarrow> 'a main_state_scheme \<Rightarrow> bool"
  by unfold_locales (auto simp: uninjected_def)

lemma keeps_uninjected_emit:
  "\<not> injection_call c \<Longrightarrow> keeps uninjected (emit c :: ('a main_state_scheme, unit) kprog)"
  by (simp add: keeps_def emit_apply uninjected_def)

lemma keeps_uninjected_random [intro!]:
  "keeps uninjected (get_randomk env low high :: ('a main_state_scheme, u32) kprog)"
  by (auto simp: keeps_def get_randomk_Inr_iff uninjected_def)

lemma keeps_uninjected_prefetch [intro!]:
  "keeps uninjected (prefetch_range env a n :: ('a main_state_scheme, unit) kprog)"
  by (auto simp: prefetch_range_def Let_def intro!: uninjected_frame.keeps_rules keeps_uninjected_emit)

lemma keeps_uninjected_inject_irq [intro!]:
  "keeps uninjected (timer_inject_irq :: ('a main_state_scheme, int) kprog)"
  by (rule keepsI) (auto simp: kprog_simps sync_lock_test_and_set_running_def timer_inject_irq_def
      bindk_Inr_iff seqk_Inr_iff uninjected_def split: if_splits)

lemma keeps_uninjected_timers [intro!]:
  "keeps uninjected (timer_restart env :: ('a main_state_scheme, hrtimer_restart) kprog)"
  "keeps uninjected (timer_reset env :: ('a main_state_scheme, unit) kprog)"
  "keeps uninjected (faketimer_function :: ('a main_state_scheme, hrtimer_restart) kprog)"
proof -
  show "keeps uninjected (timer_restart env :: ('a main_state_scheme, hrtimer_restart) kprog)"
    by (auto simp: timer_restart_def uninjected_def intro!: uninjected_frame.keeps_rules keeps_uninjected_emit)
  show "keeps uninjected (timer_reset env :: ('a main_state_scheme, unit) kprog)"
    by (auto simp: timer_reset_def uninjected_def intro!: uninjected_frame.keeps_rules keeps_uninjected_emit)
  show "keeps uninjected (faketimer_function :: ('a main_state_scheme, hrtimer_restart) kprog)"
    by (auto simp: faketimer_function_def uninjected_def intro!: uninjected_frame.keeps_rules)
qed

lemma keeps_uninjected_real [intro!]:
  "keeps uninjected (real_key env :: ('a main_state_scheme, int) kprog)"
  by (auto simp: real_key_def intro!: uninjected_frame.keeps_rules)

text \<open>What initialisation of a plugin keeps: the control state alone.\<close>

definition same_control :: "'a main_state_scheme \<Rightarrow> 'a main_state_scheme \<Rightarrow> bool" where
  "same_control s s' \<longleftrightarrow> injection s' = injection s"

interpretation control_frame: frame_relation
  "same_control :: 'a main_state_scheme \<Rightarrow> 'a main_state_scheme \<Rightarrow> bool"
  by unfold_locales (auto simp: same_control_def)

lemma same_control_updates [simp]:
  fixes s :: "'a main_state_scheme"
  shows "same_control s (s\<lparr>klog := l\<rparr>)" "same_control s (upd_desc i g s)"
    "same_control s (upd_plugin p f s)" "same_control s (s\<lparr>orig_irqs := os\<rparr>)"
  by (simp_all add: same_control_def upd_desc_def upd_plugin_def)

lemma keeps_control_emit [intro!]: "keeps same_control (emit c :: ('a main_state_scheme, unit) kprog)"
  by (simp add: keeps_def emit_apply)

lemma keeps_control_vmalloc [intro!]: "keeps same_control (vmalloc env :: ('a main_state_scheme, addr) kprog)"
  by (simp add: keeps_def vmalloc_def Let_def same_control_def)

lemma keeps_control_hook [intro!]:
  "keeps same_control (hook_interrupt i h :: ('a main_state_scheme, int) kprog)"
proof (rule keepsI)
  fix s r and s' :: "'a main_state_scheme"
  assume "hook_interrupt i h s = Inr (r, s')"
  then show "same_control s s'"
    by (auto simp: hook_interrupt_def bindk_Inr_iff seqk_Inr_iff liftk_Inr_iff kprog_simps
        same_control_def upd_desc_def split: option.splits if_splits)
qed

text \<open>A program that injects nothing is an event that does not inject, if the stroke does not depend on what it changes.\<close>

lemma uninjected_controls:
  assumes "uninjected s s'" and "stroke s' = stroke s"
    and "control_after (injection s) ev = injection s" and "\<not> injects (injection s) ev"
  shows "controls stroke ev s s'"
  using assms by (simp add: controls_def uninjected_def)

text \<open>A tick, given what the plugin's injection does.\<close>

lemma tick_controls:
  fixes s :: "'a main_state_scheme"
  assumes inj: "\<And>u s1. timer_inject run env s = Inr (u, s1) \<Longrightarrow> injection s1 = injection s \<and> stroke s1 = stroke s
        \<and> (\<exists>cs. klog s1 = klog s @ cs \<and> injected cs = stroke s)"
    and view: "\<And>t t'. same_plugin_view t t' \<Longrightarrow> stroke t' = stroke t"
    and tick: "timer_function run env s = Inr (r, s')"
  shows "controls stroke TimerTick s s'"
proof -
  from tick obtain s1 u1 s2 u2 where
    s1: "(if injection s AND STATE_INJECT \<noteq> 0 then timer_inject run env else retk ()) s = Inr (u1, s1)"
    and s2: "prefetch_range env (own_code_addr env ''timer_reset'') 4096 s1 = Inr (u2, s2)"
    and s3: "timer_restart env s2 = Inr (r, s')"
    by (auto simp: timer_function_def bindk_Inr_iff seqk_Inr_iff readk_apply)
  have first: "injection s1 = injection s \<and> stroke s1 = stroke s
      \<and> (\<exists>cs. klog s1 = klog s @ cs \<and> injected cs = (if odd (injection s) then stroke s else []))"
    using s1 inj [of u1 s1] by (simp add: odd_state retk_apply split: if_splits)
  have rest: "uninjected s1 s'"
    by (rule uninjected_frame.frame_trans [OF keepsD [OF keeps_uninjected_prefetch s2]
          keepsD [OF keeps_uninjected_timers(1) s3]])
  have "same_plugin_view s1 s'"
    by (rule view_frame.frame_trans [OF keepsD [OF keeps_view_prefetch s2] keepsD [OF keeps_view_timers(3) s3]])
  then have "stroke s' = stroke s1" by (rule view)
  with first rest show ?thesis by (auto simp: controls_def uninjected_def)
qed

text \<open>An interrupt.\<close>

lemma irq_uninjected:
  fixes s :: "'a main_state_scheme"
  assumes "own_hooks own s" and "\<And>j. hooked s j \<Longrightarrow> j = i" and "drawable env low high s" and "low \<le> high"
    and "deliver_irq own (delayed_handler env low high i call_flow) j s = Inr (u, s')"
  shows "uninjected s s' \<and> same_plugin_view s s'"
proof -
  from deliver_irq_once [OF assms(1-4), of j] assms(5) obtain pos d where
    "s' = s\<lparr>entropy_pos := pos, klog := klog s @ delivery s j d\<rparr>" by auto
  moreover have "injected (delivery s j d) = []" by (simp add: delivery_def split: option.split)
  ultimately show ?thesis
    by (simp add: uninjected_def same_plugin_view_def same_hooks_def same_registry_def)
qed

section \<open>A module that injects on demand\<close>

locale controlled_module = running_module run env irq initf cleanupf realf notify loadable ready start alive ob ok
  for run :: "'a main_state_scheme dispatcher" and env irq initf cleanupf realf notify
    and loadable ready start alive :: "'a main_state_scheme \<Rightarrow> bool" and ob ok +
  fixes stroke :: "'a main_state_scheme \<Rightarrow> kcall list"
  assumes alive_controls: "alive s \<Longrightarrow> exec_event run env notify ev s = Inr ((), s') \<Longrightarrow> controls stroke ev s s'"
    and init_injection: "run initf p s = Inr (r, s') \<Longrightarrow> injection s' = injection s"
begin

lemma controlled_events:
  "alive s \<Longrightarrow> \<exists>s' cs. for_eachk evs (exec_event run env notify) s = Inr ((), s') \<and> alive s'
     \<and> klog s' = klog s @ cs \<and> stroke s' = stroke s \<and> injection s' = foldl control_after (injection s) evs
     \<and> injected cs = concat (replicate (injections (injection s) evs) (stroke s))"
proof (induction evs arbitrary: s)
  case Nil
  then show ?case by (simp add: retk_apply)
next
  case (Cons ev evs)
  from alive_event [OF Cons.prems, of ev] obtain s1 where
    s1: "exec_event run env notify ev s = Inr ((), s1)" "alive s1" by blast
  from alive_controls [OF Cons.prems s1(1)] obtain cs1 where
    c1: "injection s1 = control_after (injection s) ev" "stroke s1 = stroke s" "klog s1 = klog s @ cs1"
      "injected cs1 = (if injects (injection s) ev then stroke s else [])"
    unfolding controls_def by blast
  from Cons.IH [OF s1(2)] obtain s2 cs2 where
    s2: "for_eachk evs (exec_event run env notify) s1 = Inr ((), s2)" "alive s2" "klog s2 = klog s1 @ cs2"
      "stroke s2 = stroke s1" "injection s2 = foldl control_after (injection s1) evs"
      "injected cs2 = concat (replicate (injections (injection s1) evs) (stroke s1))" by blast
  from s1 c1 s2 show ?case
    by (intro exI [of _ s2] exI [of _ "cs1 @ cs2"]) (simp add: seqk_def bindk_def)
qed

text \<open>After an even number was written, nothing is injected until another number is.\<close>

lemma switched_off:
  assumes "alive s" and "even v" and "list_all (\<lambda>ev. \<not> writes_control ev) evs"
  shows "\<exists>s' cs. for_eachk evs (exec_event run env notify) (s\<lparr>injection := v\<rparr>) = Inr ((), s')
     \<and> klog s' = klog s @ cs \<and> injected cs = []"
proof -
  have "alive (s\<lparr>injection := v\<rparr>)" using alive_view [of s "s\<lparr>injection := v\<rparr>"] assms(1) by simp
  from controlled_events [OF this, of evs] injections_off [OF assms(2,3)] show ?thesis by auto
qed

lemma tick_injects:
  assumes "alive s" and "exec_event run env notify TimerTick s = Inr ((), s')" and "odd (injection s)"
  shows "\<exists>cs. klog s' = klog s @ cs \<and> injected cs = stroke s"
  using alive_controls [OF assms(1,2)] assms(3) by (simp add: controls_def)

lemma start_controlled:
  assumes "empty_registry s" and "plugin_objs s (module_plugin env) = ob" and "start s"
  shows "\<exists>s1. inthide_init run env True s = Inr (0, s1) \<and> alive s1 \<and> injection s1 = injection s"
  using start_load [OF assms] init_injection by metis

lemma injects_on_demand:
  assumes "empty_registry s" and "plugin_objs s (module_plugin env) = ob" and "start s"
  shows "\<exists>s1. inthide_init run env True s = Inr (0, s1)
     \<and> (\<forall>evs. \<exists>s2 cs. for_eachk evs (exec_event run env notify) s1 = Inr ((), s2) \<and> klog s2 = klog s1 @ cs
          \<and> injection s2 = foldl control_after (injection s) evs
          \<and> injected cs = concat (replicate (injections (injection s) evs) (stroke s1)))"
proof -
  from start_controlled [OF assms] obtain s1 where
    s1: "inthide_init run env True s = Inr (0, s1)" "alive s1" "injection s1 = injection s" by blast
  from s1(1) controlled_events [OF s1(2), unfolded s1(3)] show ?thesis by blast
qed

end

end
