(* ===== verification/KD_Files.thy ===== *)
theory KD_Files
  imports KD_Control KD_Traces
begin

text \<open>
  What user space reaches: the table of functions and the mode of the control file (\<open>main.c\<close>) and of
  the two trace devices (\<open>source/traces.c\<close>), and the way from a user's system call to the function in
  the table. \<open>single_open\<close> and \<open>seq_read\<close> of the kernel's \<open>seq_file\<close> are parameters.
\<close>

section \<open>Tables and modes\<close>

datatype file_fn = KeydrownProcOpen | KeydrownWrite | SeqRead | SeqLseek | SingleRelease
  | TracesDevReadReal | TracesDevReadFake | TracesDevPollReal | TracesDevPollFake

text \<open>The slots of \<open>struct file_operations\<close> the code fills, without the owner.\<close>

record file_operations =
  fop_open :: "file_fn option"
  fop_read :: "file_fn option"
  fop_write :: "file_fn option"
  fop_poll :: "file_fn option"
  fop_llseek :: "file_fn option"
  fop_release :: "file_fn option"

definition keydrown_proc_fops :: file_operations where
  "keydrown_proc_fops = \<lparr>fop_open = Some KeydrownProcOpen, fop_read = Some SeqRead,
     fop_write = Some KeydrownWrite, fop_poll = None, fop_llseek = Some SeqLseek,
     fop_release = Some SingleRelease\<rparr>"

definition traces_real_proc_fops :: file_operations where
  "traces_real_proc_fops = \<lparr>fop_open = None, fop_read = Some TracesDevReadReal, fop_write = None,
     fop_poll = Some TracesDevPollReal, fop_llseek = None, fop_release = None\<rparr>"

definition traces_fake_proc_fops :: file_operations where
  "traces_fake_proc_fops = \<lparr>fop_open = None, fop_read = Some TracesDevReadFake, fop_write = None,
     fop_poll = Some TracesDevPollFake, fop_llseek = None, fop_release = None\<rparr>"

text \<open>Modes as octal digits: \<open>S_IRUGO\<close> is 0444, \<open>S_IWUGO\<close> is 0222.\<close>

definition S_IRUGO :: u32 where "S_IRUGO = 0x124"
definition S_IWUGO :: u32 where "S_IWUGO = 0x92"

definition KEYDROWN_PROCFS_ENABLE :: string where "KEYDROWN_PROCFS_ENABLE = ''keydrown''"
definition KEYDROWN_MISCFS_KEYS_REAL :: string where "KEYDROWN_MISCFS_KEYS_REAL = ''keydrown_real''"
definition KEYDROWN_MISCFS_KEYS_FAKE :: string where "KEYDROWN_MISCFS_KEYS_FAKE = ''keydrown_fake''"

text \<open>The arguments of \<open>proc_create\<close>.\<close>

record proc_entry =
  proc_name :: string
  proc_mode :: u32
  proc_fops :: file_operations

definition keydrown_entry :: proc_entry where
  "keydrown_entry = \<lparr>proc_name = KEYDROWN_PROCFS_ENABLE, proc_mode = S_IRUGO OR S_IWUGO,
     proc_fops = keydrown_proc_fops\<rparr>"

definition MISC_DYNAMIC_MINOR :: int where "MISC_DYNAMIC_MINOR = 255"

record miscdevice =
  misc_minor :: int
  misc_name :: string
  misc_fops :: file_operations
  misc_mode :: u32

definition traces_real_dev :: miscdevice where
  "traces_real_dev = \<lparr>misc_minor = MISC_DYNAMIC_MINOR, misc_name = KEYDROWN_MISCFS_KEYS_REAL,
     misc_fops = traces_real_proc_fops, misc_mode = 0x1ff\<rparr>"

definition traces_fake_dev :: miscdevice where
  "traces_fake_dev = \<lparr>misc_minor = MISC_DYNAMIC_MINOR, misc_name = KEYDROWN_MISCFS_KEYS_FAKE,
     misc_fops = traces_fake_proc_fops, misc_mode = 0x1ff\<rparr>"

text \<open>
  Who may open a file of root with some mode: root himself, and every other user if the bit for the
  others is set (bit 2 for reading, bit 1 for writing).
\<close>

datatype access = Reading | Writing

definition permits :: "u32 \<Rightarrow> nat \<Rightarrow> access \<Rightarrow> bool" where
  "permits mode uid a \<longleftrightarrow> uid = 0 \<or> bit mode (case a of Reading \<Rightarrow> 2 | Writing \<Rightarrow> 1)"

definition EACCES :: int where "EACCES = 13"

section \<open>The control file\<close>

text \<open>An open file has the function that prints its text, once \<open>single_open\<close> has set it.\<close>

datatype seq_show = KeydrownRead

record open_file =
  file_fops :: file_operations
  file_show :: "seq_show option"

text \<open>
  The kernel's side of \<open>seq_file\<close>: \<open>single_open\<close> for a file and a printing function, with its return
  value; and what \<open>seq_read\<close> delivers of a text, from a position into a buffer of some size.
\<close>

record seq_env =
  single_open :: "open_file \<Rightarrow> seq_show \<Rightarrow> int \<times> open_file"
  seq_read :: "string \<Rightarrow> nat \<Rightarrow> nat \<Rightarrow> string"

text \<open>As documented: opening succeeds and notes the function, and a text that fits is read as a whole.\<close>

definition seq_file_works :: "seq_env \<Rightarrow> bool" where
  "seq_file_works q \<longleftrightarrow> (\<forall>f sh. single_open q f sh = (0, f\<lparr>file_show := Some sh\<rparr>))
     \<and> (\<forall>txt n. length txt \<le> n \<longrightarrow> seq_read q txt 0 n = txt)"

definition keydrown_proc_open :: "seq_env \<Rightarrow> open_file \<Rightarrow> int \<times> open_file" where
  "keydrown_proc_open q f = single_open q f KeydrownRead"

text \<open>Opening the control file: the check of the mode, then the function in the table.\<close>

definition open_control :: "seq_env \<Rightarrow> nat \<Rightarrow> access \<Rightarrow> int + open_file" where
  "open_control q uid a =
     (if \<not> permits (proc_mode keydrown_entry) uid a then Inl (- EACCES)
      else
        (let f = \<lparr>file_fops = proc_fops keydrown_entry, file_show = None\<rparr>
         in case fop_open (file_fops f) of
              None \<Rightarrow> Inr f
            | Some KeydrownProcOpen \<Rightarrow>
                (case keydrown_proc_open q f of (r, f) \<Rightarrow> if r \<noteq> 0 then Inl r else Inr f)
            | Some _ \<Rightarrow> Inl (- EINVAL)))"

text \<open>The system calls on an open file; a slot that is not set gives \<open>-EINVAL\<close>.\<close>

definition write_file ::
  "'a main_state_scheme dispatcher \<Rightarrow> kenv \<Rightarrow> open_file \<Rightarrow> int option \<Rightarrow> nat \<Rightarrow> ('a main_state_scheme, int) kprog" where
  "write_file run env f parsed count =
     (case fop_write (file_fops f) of
        Some KeydrownWrite \<Rightarrow> keydrown_write run env parsed count
      | _ \<Rightarrow> retk (- EINVAL))"

definition read_file :: "seq_env \<Rightarrow> open_file \<Rightarrow> nat \<Rightarrow> nat \<Rightarrow> 'a main_state_scheme \<Rightarrow> int + string" where
  "read_file q f pos n s =
     (case (fop_read (file_fops f), file_show f) of
        (Some SeqRead, Some KeydrownRead) \<Rightarrow> Inr (seq_read q (keydrown_read s) pos n)
      | _ \<Rightarrow> Inl (- EINVAL))"

text \<open>A user writes a number to the control file, or reads it into a buffer: open, then the call.\<close>

definition user_writes ::
  "seq_env \<Rightarrow> 'a main_state_scheme dispatcher \<Rightarrow> kenv \<Rightarrow> nat \<Rightarrow> int option \<Rightarrow> nat \<Rightarrow> ('a main_state_scheme, int) kprog" where
  "user_writes q run env uid parsed count =
     (case open_control q uid Writing of
        Inl r \<Rightarrow> retk r | Inr f \<Rightarrow> write_file run env f parsed count)"

definition user_reads :: "seq_env \<Rightarrow> nat \<Rightarrow> nat \<Rightarrow> 'a main_state_scheme \<Rightarrow> int + string" where
  "user_reads q uid n s =
     (case open_control q uid Reading of Inl r \<Rightarrow> Inl r | Inr f \<Rightarrow> read_file q f 0 n s)"

text \<open>The mode of the control file refuses nobody.\<close>

lemma control_permits: "permits (proc_mode keydrown_entry) uid a"
proof -
  have "bit (S_IRUGO OR S_IWUGO) (case a of Reading \<Rightarrow> 2 | Writing \<Rightarrow> 1)"
    by (cases a) (simp_all add: S_IRUGO_def S_IWUGO_def bit_simps)
  then show ?thesis by (simp add: permits_def keydrown_entry_def)
qed

lemma open_control_works:
  "seq_file_works q \<Longrightarrow> open_control q uid a = Inr \<lparr>file_fops = keydrown_proc_fops, file_show = Some KeydrownRead\<rparr>"
  by (simp add: open_control_def control_permits Let_def)
     (simp add: keydrown_entry_def keydrown_proc_fops_def keydrown_proc_open_def seq_file_works_def)

lemma user_writes_any:
  assumes "seq_file_works q"
  shows "user_writes q run env uid = keydrown_write run env"
  by (intro ext) (simp add: user_writes_def open_control_works [OF assms] write_file_def keydrown_proc_fops_def)

lemma user_reads_any:
  assumes "seq_file_works q" and "length (keydrown_read s) \<le> n"
  shows "user_reads q uid n s = Inr (keydrown_read s)"
  using assms
  by (simp add: user_reads_def open_control_works [OF assms(1)] read_file_def keydrown_proc_fops_def)
     (simp add: seq_file_works_def)

section \<open>The trace devices\<close>

definition registered_devices :: "traces_state \<Rightarrow> miscdevice list" where
  "registered_devices s = (if real_dev_registered s then [traces_real_dev] else [])
     @ (if fake_dev_registered s then [traces_fake_dev] else [])"

definition open_device :: "nat \<Rightarrow> access \<Rightarrow> string \<Rightarrow> traces_state \<Rightarrow> int + miscdevice" where
  "open_device uid a name s =
     (case find (\<lambda>d. misc_name d = name) (registered_devices s) of
        None \<Rightarrow> Inl (- ENODEV)
      | Some d \<Rightarrow> if permits (misc_mode d) uid a then Inr d else Inl (- EACCES))"

text \<open>\<open>read\<close> and \<open>poll\<close> on a device, through its table.\<close>

definition read_device :: "miscdevice \<Rightarrow> bool \<Rightarrow> u64 \<Rightarrow> (traces_state, int \<times> u64 list) kprog" where
  "read_device d copy_fault len =
     (case fop_read (misc_fops d) of
        Some TracesDevReadReal \<Rightarrow> traces_dev_read_real copy_fault len
      | Some TracesDevReadFake \<Rightarrow> traces_dev_read_fake copy_fault len
      | _ \<Rightarrow> retk (- EINVAL, []))"

definition poll_device :: "miscdevice \<Rightarrow> traces_state \<Rightarrow> u32 option" where
  "poll_device d s =
     (case fop_poll (misc_fops d) of
        Some TracesDevPollReal \<Rightarrow> Some (traces_dev_poll_real s)
      | Some TracesDevPollFake \<Rightarrow> Some (traces_dev_poll_fake s)
      | _ \<Rightarrow> None)"

definition user_reads_device :: "nat \<Rightarrow> string \<Rightarrow> nat \<Rightarrow> (traces_state, int \<times> u64 list) kprog" where
  "user_reads_device uid name n s =
     (case open_device uid Reading name s of
        Inl r \<Rightarrow> Inr ((r, []), s)
      | Inr d \<Rightarrow> read_device d False (word_of_nat (8 * n)) s)"

text \<open>
  What happens to the traces once they are set up: the module records real and fake events, and any
  user reads from a device by its name. The result lists what each read delivered.
\<close>

datatype dev_op = Record event u64 | RecordFake u64 | ReadDev nat string nat

fun run_devices :: "u64 \<Rightarrow> dev_op list \<Rightarrow> (traces_state, (string \<times> u64 list) list) kprog" where
  "run_devices N [] = retk []"
| "run_devices N (Record e ts # ops) = seqk (on_real (traces_add_real N ts e)) (run_devices N ops)"
| "run_devices N (RecordFake ts # ops) = seqk (on_fake (traces_add_fake N ts)) (run_devices N ops)"
| "run_devices N (ReadDev uid name n # ops) =
     bindk (user_reads_device uid name n) (\<lambda>(r, xs).
     bindk (run_devices N ops) (\<lambda>out. retk ((name, xs) # out)))"

definition delivered :: "string \<Rightarrow> (string \<times> u64 list) list \<Rightarrow> u64 list" where
  "delivered name out = concat (map snd (filter (\<lambda>(n, xs). n = name) out))"

lemma delivered_simps [simp]:
  "delivered name [] = []"
  "delivered name ((n, xs) # out) = (if n = name then xs @ delivered name out else delivered name out)"
  by (simp_all add: delivered_def)

text \<open>The operations on the two traces behind them.\<close>

fun trace_ops :: "dev_op list \<Rightarrow> trace_op list" where
  "trace_ops [] = []"
| "trace_ops (Record e ts # ops) = AddReal e ts # trace_ops ops"
| "trace_ops (RecordFake ts # ops) = AddFake ts # trace_ops ops"
| "trace_ops (ReadDev uid name n # ops) =
     (if name = KEYDROWN_MISCFS_KEYS_REAL then ReadReal n # trace_ops ops
      else if name = KEYDROWN_MISCFS_KEYS_FAKE then ReadFake n # trace_ops ops else trace_ops ops)"

lemma device_names [simp]: "KEYDROWN_MISCFS_KEYS_REAL \<noteq> KEYDROWN_MISCFS_KEYS_FAKE"
  "KEYDROWN_MISCFS_KEYS_FAKE \<noteq> KEYDROWN_MISCFS_KEYS_REAL"
  by (simp_all add: KEYDROWN_MISCFS_KEYS_REAL_def KEYDROWN_MISCFS_KEYS_FAKE_def)

lemma device_permits: "permits 0x1ff uid a"
  by (cases a) (simp_all add: permits_def bit_simps)

text \<open>With both devices registered, a name leads every user to its own trace.\<close>

lemma user_reads_device_registered:
  assumes "real_dev_registered s" and "fake_dev_registered s"
  shows "user_reads_device uid name n s =
    (if name = KEYDROWN_MISCFS_KEYS_REAL then traces_dev_read_real False (word_of_nat (8 * n)) s
     else if name = KEYDROWN_MISCFS_KEYS_FAKE then traces_dev_read_fake False (word_of_nat (8 * n)) s
     else Inr ((- ENODEV, []), s))"
  using assms
  by (auto simp: user_reads_device_def open_device_def registered_devices_def traces_real_dev_def
      traces_fake_dev_def device_permits read_device_def traces_real_proc_fops_def traces_fake_proc_fops_def)

lemma on_real_flags: "on_real m s = Inr (x, s') \<Longrightarrow> real_dev_registered s' = real_dev_registered s
    \<and> fake_dev_registered s' = fake_dev_registered s"
  by (auto simp: on_real_def split: sum.splits)

lemma on_fake_flags: "on_fake m s = Inr (x, s') \<Longrightarrow> real_dev_registered s' = real_dev_registered s
    \<and> fake_dev_registered s' = fake_dev_registered s"
  by (auto simp: on_fake_def split: sum.splits)

lemma run_devices_traces:
  "real_dev_registered s \<Longrightarrow> fake_dev_registered s \<Longrightarrow> run_traces N (trace_ops ops) s = Inr ((xs, ys), s') \<Longrightarrow>
     \<exists>out. run_devices N ops s = Inr (out, s') \<and> delivered KEYDROWN_MISCFS_KEYS_REAL out = xs
         \<and> delivered KEYDROWN_MISCFS_KEYS_FAKE out = ys"
proof (induction ops arbitrary: s xs ys)
  case Nil
  then show ?case by (simp add: retk_apply)
next
  case (Cons p ops)
  show ?case
  proof (cases p)
    case (Record e ts)
    with Cons.prems(3) obtain s1 where s1: "on_real (traces_add_real N ts e) s = Inr ((), s1)"
      "run_traces N (trace_ops ops) s1 = Inr ((xs, ys), s')" by (auto simp: seqk_Inr_iff)
    from Cons.IH [OF _ _ s1(2)] on_real_flags [OF s1(1)] Cons.prems(1,2) s1(1) Record show ?thesis
      by (auto simp: seqk_def bindk_def)
  next
    case (RecordFake ts)
    with Cons.prems(3) obtain s1 where s1: "on_fake (traces_add_fake N ts) s = Inr ((), s1)"
      "run_traces N (trace_ops ops) s1 = Inr ((xs, ys), s')" by (auto simp: seqk_Inr_iff)
    from Cons.IH [OF _ _ s1(2)] on_fake_flags [OF s1(1)] Cons.prems(1,2) s1(1) RecordFake show ?thesis
      by (auto simp: seqk_def bindk_def)
  next
    case (ReadDev uid name n)
    note dev = user_reads_device_registered [OF Cons.prems(1,2), of uid name n]
    consider "name = KEYDROWN_MISCFS_KEYS_REAL" | "name = KEYDROWN_MISCFS_KEYS_FAKE"
      | "name \<noteq> KEYDROWN_MISCFS_KEYS_REAL" "name \<noteq> KEYDROWN_MISCFS_KEYS_FAKE" by blast
    then show ?thesis
    proof cases
      case 1
      with Cons.prems(3) ReadDev obtain r as bs s1 where
        s1: "traces_dev_read_real False (word_of_nat (8 * n)) s = Inr ((r, as), s1)"
          "run_traces N (trace_ops ops) s1 = Inr ((bs, ys), s')" "xs = as @ bs"
        by (auto simp: bindk_Inr_iff retk_apply)
      from Cons.IH [OF _ _ s1(2)] on_real_flags [OF s1(1) [unfolded traces_dev_read_real_def]] Cons.prems(1,2)
      obtain out where "run_devices N ops s1 = Inr (out, s')" "delivered KEYDROWN_MISCFS_KEYS_REAL out = bs"
        "delivered KEYDROWN_MISCFS_KEYS_FAKE out = ys" by auto
      with s1 dev 1 ReadDev show ?thesis by (simp add: bindk_def retk_apply)
    next
      case 2
      with Cons.prems(3) ReadDev obtain r as bs s1 where
        s1: "traces_dev_read_fake False (word_of_nat (8 * n)) s = Inr ((r, as), s1)"
          "run_traces N (trace_ops ops) s1 = Inr ((xs, bs), s')" "ys = as @ bs"
        by (auto simp: bindk_Inr_iff retk_apply)
      from Cons.IH [OF _ _ s1(2)] on_fake_flags [OF s1(1) [unfolded traces_dev_read_fake_def]] Cons.prems(1,2)
      obtain out where "run_devices N ops s1 = Inr (out, s')" "delivered KEYDROWN_MISCFS_KEYS_REAL out = xs"
        "delivered KEYDROWN_MISCFS_KEYS_FAKE out = bs" by auto
      with s1 dev 2 ReadDev show ?thesis by (simp add: bindk_def retk_apply)
    next
      case 3
      with Cons.prems ReadDev have "run_traces N (trace_ops ops) s = Inr ((xs, ys), s')" by simp
      from Cons.IH [OF Cons.prems(1,2) this] obtain out where "run_devices N ops s = Inr (out, s')"
        "delivered KEYDROWN_MISCFS_KEYS_REAL out = xs" "delivered KEYDROWN_MISCFS_KEYS_FAKE out = ys" by blast
      with dev 3 ReadDev show ?thesis by (simp add: bindk_def retk_apply)
    qed
  qed
qed

section \<open>Bounds and sizes\<close>

lemma show_nat_length: "n < 10 ^ Suc k \<Longrightarrow> length (show_nat n) \<le> Suc k"
proof (induction k arbitrary: n)
  case 0
  then show ?case by (simp add: show_nat.simps [of n])
next
  case (Suc k)
  show ?case
  proof (cases "n < 10")
    case True
    then show ?thesis by (simp add: show_nat.simps [of n])
  next
    case False
    have "n div 10 < 10 ^ Suc k" using Suc.prems by (simp add: div_less_iff_less_mult)
    from Suc.IH [OF this] False show ?thesis by (simp add: show_nat.simps [of n])
  qed
qed

text \<open>The text of an \<open>int\<close> with its newline has at most 12 characters.\<close>

lemma keydrown_read_length:
  assumes "- (2 ^ 31) \<le> injection s" and "injection s < 2 ^ 31"
  shows "length (keydrown_read s) \<le> 12"
proof -
  have "length (show_nat (nat \<bar>injection s\<bar>)) \<le> Suc 9"
    using assms by (intro show_nat_length) auto
  then show ?thesis by (auto simp: keydrown_read_def show_int_def abs_if split: if_splits)
qed

text \<open>The stamps the operations record, and reads whose size in bytes fits 64 bits.\<close>

fun real_stamps :: "dev_op list \<Rightarrow> u64 list" where
  "real_stamps [] = []"
| "real_stamps (Record e ts # ops) = stamp_event (event_type e) ts # real_stamps ops"
| "real_stamps (_ # ops) = real_stamps ops"

fun fake_stamps :: "dev_op list \<Rightarrow> u64 list" where
  "fake_stamps [] = []"
| "fake_stamps (RecordFake ts # ops) = ts # fake_stamps ops"
| "fake_stamps (_ # ops) = fake_stamps ops"

fun read_fits :: "dev_op \<Rightarrow> bool" where
  "read_fits (ReadDev uid name n) \<longleftrightarrow> n < 2 ^ 60"
| "read_fits op \<longleftrightarrow> True"

lemma pushed_stamps:
  "pushed (real_ops (trace_ops ops)) = real_stamps ops" "pushed (fake_ops (trace_ops ops)) = fake_stamps ops"
  by (induction ops rule: trace_ops.induct) simp_all

lemma pulls_fit:
  "list_all read_fits ops \<Longrightarrow> list_all (\<lambda>n. n < 2 ^ 60)
     (pull_sizes (real_ops (trace_ops ops)) @ pull_sizes (fake_ops (trace_ops ops)))"
  by (induction ops rule: trace_ops.induct) simp_all

lemma poll_unread:
  assumes "ring_inv N r"
  shows "traces_dev_poll r = 0 \<longleftrightarrow> unread r = []"
proof -
  from assms obtain xs where "traces r = Buffer xs" "length xs = unat N" "traces_count r < N"
    "traces_read r \<le> traces_count r" by (auto simp: ring_inv_def split: trace_buffer.splits)
  then have "unread r = [] \<longleftrightarrow> \<not> traces_read r < traces_count r"
    by (auto simp: unread_def word_less_nat_alt word_le_nat_alt)
  then show ?thesis by (simp add: traces_dev_poll_def POLLIN_def POLLRDNORM_def Let_def)
qed

section \<open>Properties\<close>


text \<open>A \<open>seq_file\<close> that works.\<close>

definition demo_seq :: seq_env where
  "demo_seq = \<lparr>single_open = (\<lambda>f sh. (0, f\<lparr>file_show := Some sh\<rparr>)), seq_read = (\<lambda>txt pos n. take n (drop pos txt))\<rparr>"

lemma demo_seq_works: "seq_file_works demo_seq"
  by (simp add: seq_file_works_def demo_seq_def)


text \<open>
  C8. Refinement: until a buffer wraps, the two trace devices are two independent queues. After
  \<open>traces_init\<close> with memory for both buffers, any interleaving of recorded real and fake events (fewer
  of each than its buffer holds) with reads by any users from either device never leaves a buffer;
  for each device the stamps read through it, in order, followed by those still unread are exactly
  the stamps recorded for it, where a real stamp carries the type of its event in its lowest bit:
  nothing is lost, repeated, reordered or mixed up between the two. A device polls as readable
  exactly while stamps are unread, and after \<open>traces_cleanup\<close> no device can be opened.
\<close>

theorem trace_devices_refine_queues:
  assumes "traces_init 0 0 (Buffer ms) (Buffer mf) s = (r, s1)" and "length ms = unat N" and "length mf = unat N"
    and "traces_count (traces_real s) = 0" and "traces_read (traces_real s) = 0"
    and "traces_count (traces_fake s) = 0" and "traces_read (traces_fake s) = 0"
    and "length (real_stamps ops) < unat N" and "length (fake_stamps ops) < unat N" and "list_all read_fits ops"
  shows "r = 0 \<and> (\<exists>out s2. run_devices N ops s1 = Inr (out, s2)
     \<and> delivered KEYDROWN_MISCFS_KEYS_REAL out @ unread (traces_real s2) = real_stamps ops
     \<and> delivered KEYDROWN_MISCFS_KEYS_FAKE out @ unread (traces_fake s2) = fake_stamps ops
     \<and> (poll_device traces_real_dev s2 = Some 0 \<longleftrightarrow> unread (traces_real s2) = [])
     \<and> (poll_device traces_fake_dev s2 = Some 0 \<longleftrightarrow> unread (traces_fake s2) = [])
     \<and> (\<forall>uid a name. open_device uid a name (snd (traces_cleanup s2)) = Inl (- ENODEV)))"
proof -
  have s1: "r = 0" "real_dev_registered s1" "fake_dev_registered s1"
    "traces_real s1 = (traces_real s)\<lparr>traces := Buffer ms\<rparr>" "traces_fake s1 = (traces_fake s)\<lparr>traces := Buffer mf\<rparr>"
    using assms(1) by (auto simp: traces_init_def set_real_buffer_def set_fake_buffer_def Let_def)
  have "0 < N" using assms(8) by (simp add: word_less_nat_alt)
  then have inv: "ring_inv N (traces_real s1)" "ring_inv N (traces_fake s1)"
    using assms(2-7) by (simp_all add: ring_inv_def s1)
  have empty: "unread (traces_real s1) = []" "unread (traces_fake s1) = []"
    using assms(4-7) by (simp_all add: unread_def s1)
  have room: "length (pushed (real_ops (trace_ops ops))) \<le> ring_room N (traces_real s1)"
    "length (pushed (fake_ops (trace_ops ops))) \<le> ring_room N (traces_fake s1)"
    using assms(4-9) by (simp_all add: ring_room_def pushed_stamps s1)
  from traces_refine_queues [OF inv room pulls_fit [OF assms(10)]] obtain xs ys s2 where
    s2: "run_traces N (trace_ops ops) s1 = Inr ((xs, ys), s2)" "ring_inv N (traces_real s2)" "ring_inv N (traces_fake s2)"
      "xs @ unread (traces_real s2) = real_stamps ops" "ys @ unread (traces_fake s2) = fake_stamps ops"
    by (auto simp: empty pushed_stamps)
  from run_devices_traces [OF s1(2,3) s2(1)] obtain out where
    "run_devices N ops s1 = Inr (out, s2)" "delivered KEYDROWN_MISCFS_KEYS_REAL out = xs"
    "delivered KEYDROWN_MISCFS_KEYS_FAKE out = ys" by blast
  moreover have "poll_device traces_real_dev s2 = Some (traces_dev_poll (traces_real s2))"
    "poll_device traces_fake_dev s2 = Some (traces_dev_poll (traces_fake s2))"
    by (simp_all add: poll_device_def traces_real_dev_def traces_fake_dev_def traces_real_proc_fops_def
        traces_fake_proc_fops_def traces_dev_poll_real_def traces_dev_poll_fake_def)
  moreover have "open_device uid a name (snd (traces_cleanup s2)) = Inl (- ENODEV)" for uid a name
    by (auto simp: traces_cleanup_def open_device_def registered_devices_def vfree_real_def vfree_fake_def
        set_real_buffer_def set_fake_buffer_def split: trace_buffer.split)
  ultimately show ?thesis
    using s1(1) s2 poll_unread [OF s2(2)] poll_unread [OF s2(3)]
    by (intro conjI exI [of _ out] exI [of _ s2]) simp_all
qed

definition demo_dev_ops :: "dev_op list" where
  "demo_dev_ops = [Record \<lparr>event_type = KEY_PRESS, event_data = 0, event_len = 0\<rparr> 10, RecordFake 12,
     ReadDev 1000 ''keydrown_real'' 5, Record \<lparr>event_type = KEY_RELEASE, event_data = 0, event_len = 0\<rparr> 13,
     ReadDev 0 ''keydrown_fake'' 1, ReadDev 7 ''keydrown'' 1]"

theorem trace_devices_refine_queues_witness:
  "\<exists>r s1. traces_init 0 0 (Buffer [5, 6, 7, 8]) (Buffer [1, 2, 3, 4]) idle_traces = (r, s1) \<and> r = 0
     \<and> (\<exists>out s2. run_devices 4 demo_dev_ops s1 = Inr (out, s2)
       \<and> delivered KEYDROWN_MISCFS_KEYS_REAL out @ unread (traces_real s2) = [11, 12])"
proof -
  obtain r s1 where init: "traces_init 0 0 (Buffer [5, 6, 7, 8]) (Buffer [1, 2, 3, 4]) idle_traces = (r, s1)" by fastforce
  have stamps: "real_stamps demo_dev_ops = [11, 12]" "fake_stamps demo_dev_ops = [12]" "list_all read_fits demo_dev_ops"
    by (simp_all add: demo_dev_ops_def stamp_event_def)
  have "r = 0 \<and> (\<exists>out s2. run_devices 4 demo_dev_ops s1 = Inr (out, s2)
       \<and> delivered KEYDROWN_MISCFS_KEYS_REAL out @ unread (traces_real s2) = real_stamps demo_dev_ops
       \<and> delivered KEYDROWN_MISCFS_KEYS_FAKE out @ unread (traces_fake s2) = fake_stamps demo_dev_ops
       \<and> (poll_device traces_real_dev s2 = Some 0 \<longleftrightarrow> unread (traces_real s2) = [])
       \<and> (poll_device traces_fake_dev s2 = Some 0 \<longleftrightarrow> unread (traces_fake s2) = [])
       \<and> (\<forall>uid a name. open_device uid a name (snd (traces_cleanup s2)) = Inl (- ENODEV)))"
    by (rule trace_devices_refine_queues [OF init])
       (simp_all add: idle_traces_def demo_ring_def stamps)
  then show ?thesis using init unfolding stamps(1) by blast
qed

end
