(* ===== verification/KD_Keyboard.thy ===== *)
theory KD_Keyboard
  imports KD_Main
begin

text \<open>
  The x86 keyboard plugin: \<open>source/plugins/keyboard/plugin.c\<close>, its device \<open>devices/8042.c\<close> and
  its interrupt injection \<open>gpio/gpio-8042.c\<close>. The interrupt numbers are the defaults of the
  \<open>Makefile\<close>.
\<close>

section \<open>Constants and state\<close>

definition PLUGIN_KEYBOARD_INTERRUPT_HARDWARE :: int where
  "PLUGIN_KEYBOARD_INTERRUPT_HARDWARE = 1"

definition PLUGIN_KEYBOARD_INTERRUPT_SOFTWARE :: int where
  "PLUGIN_KEYBOARD_INTERRUPT_SOFTWARE = 49"

definition ILLEGAL_SCANCODE :: int where "ILLEGAL_SCANCODE = 0x5d"
definition ISR_DELAY_MIN :: u32 where "ISR_DELAY_MIN = 0"
definition ISR_DELAY_MAX :: u32 where "ISR_DELAY_MAX = 100"

text \<open>\<open>I8042_STR_AUXDATA\<close> of \<open>linux/i8042.h\<close>.\<close>

definition I8042_STR_AUXDATA :: u8 where "I8042_STR_AUXDATA = 0x20"

record kb_state = main_state +
  kb_affinity :: u32
  kb_irq_handler :: addr
  interrupt_number :: u32
  kb_event :: event
  tasklet_press_notify :: "tasklet_id option"
  tasklet_release_notify :: "tasklet_id option"
  kb_ports :: addr
  kb_port :: i8042_port
  kb_data_state :: "addr \<Rightarrow> int"

definition plugin_keyboard_object :: event_plugin where
  "plugin_keyboard_object = \<lparr>plugin_name = Some ''8042 keyboard'', init_fn = Some KeyboardInit,
     cleanup_fn = Some KeyboardCleanup, enable_fn = None, disable_fn = None, callback_fn = None,
     inject_fn = Some KeyboardInject, update_fn = Some KeyboardUpdate, plugin_id = 0,
     plugin_data = 0\<rparr>"

section \<open>The 8042 device\<close>

definition keyboard_device_get_irq_handler :: "kenv \<Rightarrow> addr" where
  "keyboard_device_get_irq_handler env = kallsyms_lookup_name env ''i8042_interrupt''"

text \<open>The loop over the first two ports of the driver.\<close>

fun find_kb_port :: "int list \<Rightarrow> i8042_port list \<Rightarrow> i8042_port option res" where
  "find_kb_port [] ports = Inr None"
| "find_kb_port (p # ps) ports =
     (case arr_get ports p of
        Inl e \<Rightarrow> Inl e
      | Inr port \<Rightarrow> if port_irq port = PLUGIN_KEYBOARD_INTERRUPT_HARDWARE then Inr (Some port)
                    else find_kb_port ps ports)"

definition keyboard_device_init :: "kenv \<Rightarrow> ('a kb_state_scheme, int) kprog" where
  "keyboard_device_init env =
     (let sym_addr = kallsyms_lookup_name env ''i8042_ports''
      in if sym_addr = 0 then retk (- ENODEV)
         else
           seqk (modk (\<lambda>s. s\<lparr>kb_ports := sym_addr\<rparr>))
          (bindk (liftk (find_kb_port [0, 1] (i8042_ports env))) (\<lambda>found.
             case found of
               None \<Rightarrow> retk (- ENODEV)
             | Some port \<Rightarrow> seqk (modk (\<lambda>s. s\<lparr>kb_port := port\<rparr>)) (retk 0))))"

definition keyboard_device_get_serio :: "'a kb_state_scheme \<Rightarrow> addr" where
  "keyboard_device_get_serio s = serio (kb_port s)"

definition key_filter :: "u8 \<Rightarrow> u8 \<Rightarrow> ('a kb_state_scheme, bool) kprog" where
  "key_filter data str =
     (if str AND I8042_STR_AUXDATA \<noteq> 0 then retk False
      else
        seqk (if data AND 0x80 \<noteq> 0
              then bindk (bindk (readk tasklet_release_notify) derefk) (\<lambda>t. emit (TaskletSchedule t))
              else bindk (bindk (readk tasklet_press_notify) derefk) (\<lambda>t. emit (TaskletSchedule t)))
             (retk False))"

definition keyboard_device_install_filter :: "kenv \<Rightarrow> ('a kb_state_scheme, int) kprog" where
  "keyboard_device_install_filter env =
     seqk (emit InstallFilter)
          (if i8042_install_filter_result env \<noteq> 0 then retk (- ENODEV) else retk 0)"

definition keyboard_device_remove_filter :: "('a kb_state_scheme, int) kprog" where
  "keyboard_device_remove_filter = seqk (emit RemoveFilter) (retk 0)"

definition keyboard_device_notify ::
  "kenv \<Rightarrow> tasklet_id option \<Rightarrow> tasklet_id option \<Rightarrow> ('a kb_state_scheme, int) kprog" where
  "keyboard_device_notify env press release =
     seqk (modk (\<lambda>s. s\<lparr>tasklet_press_notify := press, tasklet_release_notify := release\<rparr>))
          (keyboard_device_install_filter env)"

definition keyboard_device_no_notify :: "('a kb_state_scheme, unit) kprog" where
  "keyboard_device_no_notify = seqk keyboard_device_remove_filter (retk ())"

definition keyboard_device_cleanup :: "('a kb_state_scheme, unit) kprog" where
  "keyboard_device_cleanup = retk ()"

section \<open>Interrupt injection\<close>

definition inject_interrupt :: "u32 \<Rightarrow> ('a kernel_scheme, int) kprog" where
  "inject_interrupt data_number =
     (let number = sint (ucast ((ucast data_number :: u64) AND 0xffffffff) :: u32)
      in if number = PLUGIN_KEYBOARD_INTERRUPT_SOFTWARE
         then seqk (emit (IntInstruction PLUGIN_KEYBOARD_INTERRUPT_SOFTWARE)) (retk 0)
         else retk 1)"

text \<open>What a CPU executes when the inter-processor call reaches it.\<close>

definition inject_interrupt_wrapper :: "('a kb_state_scheme, unit) kprog" where
  "inject_interrupt_wrapper =
     bindk (readk interrupt_number) (\<lambda>n. seqk (inject_interrupt n) (retk ()))"

section \<open>The plugin\<close>

text \<open>The tasklets call back into \<open>main.c\<close> through the plugin's \<open>callback\<close>.\<close>

definition kb_callback ::
  "'a kb_state_scheme dispatcher \<Rightarrow> bool \<Rightarrow> ('a kb_state_scheme, unit) kprog" where
  "kb_callback run press =
     seqk (modk (\<lambda>s. s\<lparr>kb_event := (kb_event s)\<lparr>event_type := (if press then KEY_PRESS else KEY_RELEASE)\<rparr>\<rparr>))
    (bindk (readk (\<lambda>s. callback_fn (plugin_objs s plugin_keyboard))) (\<lambda>cb.
       case cb of None \<Rightarrow> retk () | Some f \<Rightarrow> seqk (run f plugin_keyboard) (retk ())))"

text \<open>The two tasklets as \<open>DECLARE_TASKLET\<close> binds them: 1 for a press, 0 for a release.\<close>

definition kb_tasklet ::
  "'a kb_state_scheme dispatcher \<Rightarrow> tasklet_id \<Rightarrow> ('a kb_state_scheme, unit) kprog" where
  "kb_tasklet run t =
     (case t of
        KbPressNotify \<Rightarrow> kb_callback run True
      | KbReleaseNotify \<Rightarrow> kb_callback run False
      | _ \<Rightarrow> stopk NullDeref)"

text \<open>
  The hook handler, for the descriptor of interrupt \<open>irq\<close>. \<open>run_flow\<close> is the effect of calling a
  flow handler of the kernel with a descriptor.
\<close>

definition kb_hook_handler ::
  "kenv \<Rightarrow> (flow_handler \<Rightarrow> int \<Rightarrow> ('a hook_state_scheme, unit) kprog) \<Rightarrow> int
     \<Rightarrow> ('a hook_state_scheme, unit) kprog" where
  "kb_hook_handler env run_flow irq =
     bindk (bindk (readk (irq_to_desc irq)) derefk) (\<lambda>desc.
       let unhandled = irqs_unhandled desc
       in bindk (get_randomk env ISR_DELAY_MIN ISR_DELAY_MAX) (\<lambda>r.
          seqk (emit (Udelay r))
         (bindk (bindk (hook_get_original PLUGIN_KEYBOARD_INTERRUPT_HARDWARE) derefk) (\<lambda>orig.
          seqk (run_flow orig irq)
               (modk (upd_desc irq (irqs_unhandled_update (\<lambda>_. unhandled))))))))"

definition send_scancode :: "int \<Rightarrow> ('a kb_state_scheme, unit) kprog" where
  "send_scancode scancode =
     bindk (readk keyboard_device_get_serio) (\<lambda>port.
       emit (SerioInterrupt port (word_of_int scancode)))"

text \<open>The body of the loop over the online CPUs.\<close>

definition keyboard_inject_cpu :: "nat \<Rightarrow> ('a kb_state_scheme, unit) kprog" where
  "keyboard_inject_cpu c =
     seqk (modk (\<lambda>s. s\<lparr>interrupt_number := word_of_int PLUGIN_KEYBOARD_INTERRUPT_SOFTWARE\<rparr>))
    (bindk (liftk (shift_1 c)) (\<lambda>bit_c.
     bindk (readk kb_affinity) (\<lambda>aff.
       if aff AND bit_c \<noteq> 0 then emit (SmpCallInject c) else retk ())))"

definition keyboard_inject :: "kenv \<Rightarrow> ('a kb_state_scheme, int) kprog" where
  "keyboard_inject env =
     seqk (send_scancode ILLEGAL_SCANCODE)
    (seqk (send_scancode (ILLEGAL_SCANCODE + 0x80))
    (seqk (for_eachk (online_cpus env) keyboard_inject_cpu)
    (seqk (bindk (readk kb_irq_handler) (\<lambda>h. prefetch_range env h 4096))
    (retk 0))))"

text \<open>The plugin data holds one field, \<open>state\<close>, at its address.\<close>

definition keyboard_update :: "int \<Rightarrow> addr \<Rightarrow> ('a kb_state_scheme, int) kprog" where
  "keyboard_update new_state data =
     (if data = 0 then stopk NullDeref
      else seqk (modk (\<lambda>s. s\<lparr>kb_data_state := (kb_data_state s)(data := new_state)\<rparr>)) (retk 0))"

text \<open>\<open>data\<close> is the address of the \<open>data\<close> field of a plugin, or null.\<close>

definition keyboard_init_data :: "kenv \<Rightarrow> nat option \<Rightarrow> ('a kb_state_scheme, int) kprog" where
  "keyboard_init_data env data =
     (case data of
        None \<Rightarrow> retk 0
      | Some p \<Rightarrow>
          bindk (vmalloc env) (\<lambda>plugin_dat.
            if plugin_dat = 0 then stopk NullDeref
            else
              seqk (modk (\<lambda>s. s\<lparr>kb_data_state := (kb_data_state s)(plugin_dat := 0)\<rparr>))
             (seqk (modk (upd_plugin p (plugin_data_update (\<lambda>_. plugin_dat))))
             (retk 0))))"

definition keyboard_init :: "kenv \<Rightarrow> nat option \<Rightarrow> ('a kb_state_scheme, int) kprog" where
  "keyboard_init env data =
     seqk (modk (\<lambda>s. s\<lparr>kb_event := (kb_event s)\<lparr>event_data := 0, event_len := 0\<rparr>\<rparr>))
    (seqk (modk (\<lambda>s. s\<lparr>kb_irq_handler := keyboard_device_get_irq_handler env\<rparr>))
    (bindk (readk kb_irq_handler) (\<lambda>h.
       if h = 0 then retk 1
       else bindk (keyboard_device_init env) (\<lambda>r.
       if r \<noteq> 0 then retk 1
       else bindk (keyboard_device_notify env (Some KbPressNotify) (Some KbReleaseNotify)) (\<lambda>r.
       if r \<noteq> 0 then retk 1
       else bindk (hook_interrupt PLUGIN_KEYBOARD_INTERRUPT_HARDWARE (Some KbHookHandler)) (\<lambda>r.
       if r \<noteq> 0 then seqk keyboard_device_no_notify (retk 1)
       else
         seqk (bindk (bindk (readk (get_irq_affinity env PLUGIN_KEYBOARD_INTERRUPT_HARDWARE)) liftk)
                 (\<lambda>a. modk (\<lambda>s. s\<lparr>kb_affinity := a\<rparr>)))
              (keyboard_init_data env data)))))))"

definition keyboard_cleanup :: "('a kb_state_scheme, int) kprog" where
  "keyboard_cleanup =
     seqk (unhook_interrupt PLUGIN_KEYBOARD_INTERRUPT_HARDWARE)
    (seqk keyboard_device_no_notify
    (seqk keyboard_device_cleanup
    (retk 0)))"

section \<open>The filter\<close>

text \<open>Whether the key filter is installed after a sequence of calls.\<close>

fun filter_after :: "kenv \<Rightarrow> bool \<Rightarrow> kcall list \<Rightarrow> bool" where
  "filter_after env b [] = b"
| "filter_after env b (InstallFilter # cs) =
     filter_after env (b \<or> i8042_install_filter_result env = 0) cs"
| "filter_after env b (RemoveFilter # cs) = filter_after env False cs"
| "filter_after env b (c # cs) = filter_after env b cs"

lemma filter_after_append:
  "filter_after env b (xs @ ys) = filter_after env (filter_after env b xs) ys"
  by (induction env b xs rule: filter_after.induct) auto

definition filter_installed :: "kenv \<Rightarrow> 'a kernel_scheme \<Rightarrow> bool" where
  "filter_installed env s = filter_after env False (klog s)"

section \<open>What \<open>keyboard_init\<close> and \<open>keyboard_cleanup\<close> do\<close>

text \<open>The kernel has a descriptor with an action for the keyboard interrupt.\<close>

abbreviation kb_ready :: "'a hook_state_scheme \<Rightarrow> bool" where
  "kb_ready \<equiv> irq_ready PLUGIN_KEYBOARD_INTERRUPT_HARDWARE"

lemma kb_irq_ok [simp]: "irq_ok PLUGIN_KEYBOARD_INTERRUPT_HARDWARE"
  by (simp add: irq_ok_def PLUGIN_KEYBOARD_INTERRUPT_HARDWARE_def)

lemma keyboard_device_init_apply:
  "keyboard_device_init env s =
     (if kallsyms_lookup_name env ''i8042_ports'' = 0 then Inr (- ENODEV, s)
      else (case find_kb_port [0, 1] (i8042_ports env) of
              Inl e \<Rightarrow> Inl e
            | Inr None \<Rightarrow> Inr (- ENODEV, s\<lparr>kb_ports := kallsyms_lookup_name env ''i8042_ports''\<rparr>)
            | Inr (Some port) \<Rightarrow> Inr (0, s\<lparr>kb_ports := kallsyms_lookup_name env ''i8042_ports'',
                                           kb_port := port\<rparr>)))"
  unfolding keyboard_device_init_def Let_def seqk_def bindk_def
  by (simp add: retk_def modk_def liftk_def split: sum.splits option.splits)

lemma keyboard_device_init_hooks:
  assumes "keyboard_device_init env s = Inr (r, s')"
  shows "same_hooks s s' \<and> klog s' = klog s"
  using assms unfolding keyboard_device_init_apply same_hooks_def
  by (auto split: if_splits sum.splits option.splits)

lemma keyboard_device_notify_apply:
  "keyboard_device_notify env p r s =
     Inr (if i8042_install_filter_result env \<noteq> 0 then - ENODEV else 0,
          s\<lparr>tasklet_press_notify := p, tasklet_release_notify := r, klog := klog s @ [InstallFilter]\<rparr>)"
  by (simp add: keyboard_device_notify_def keyboard_device_install_filter_def seqk_def bindk_def
      kprog_simps)

lemma keyboard_device_no_notify_apply [kprog_simps]:
  "keyboard_device_no_notify s = Inr ((), s\<lparr>klog := klog s @ [RemoveFilter]\<rparr>)"
  by (simp add: keyboard_device_no_notify_def keyboard_device_remove_filter_def kprog_simps seqk_def
      bindk_def)

lemma keyboard_init_data_hooks:
  "keyboard_init_data env data s = Inr (r, s') \<Longrightarrow>
     r = 0 \<and> same_hooks s s' \<and> filter_after env b (klog s') = filter_after env b (klog s)"
  by (auto simp: keyboard_init_data_def vmalloc_def Let_def seqk_Inr_iff bindk_Inr_iff kprog_simps
      same_hooks_def upd_plugin_def filter_after_append split: if_splits option.splits)

text \<open>
  The two ways \<open>keyboard_init\<close> returns: success, with the interrupt hooked and the filter
  installed, or failure, with the hooks as they were and the filter not installed by this call.
\<close>

lemma keyboard_init_cases:
  assumes ready: "kb_ready s" and init: "keyboard_init env data s = Inr (r, s')"
  shows "r = 0 \<and> hookable PLUGIN_KEYBOARD_INTERRUPT_HARDWARE s
           \<and> same_hooks (hook_upd PLUGIN_KEYBOARD_INTERRUPT_HARDWARE (Some KbHookHandler) s) s'
           \<and> filter_after env False (klog s')
       \<or> r = 1 \<and> same_hooks s s'
           \<and> (filter_after env False (klog s') \<longrightarrow> filter_after env False (klog s))"
proof -
  define s1 where "s1 = s\<lparr>kb_event := (kb_event s)\<lparr>event_data := 0, event_len := 0\<rparr>,
      kb_irq_handler := keyboard_device_get_irq_handler env\<rparr>"
  have sm1: "same_hooks s s1" "klog s1 = klog s" by (simp_all add: s1_def same_hooks_def)
  have h1: "kb_irq_handler s1 = keyboard_device_get_irq_handler env" by (simp add: s1_def)
  show ?thesis
  proof (cases "keyboard_device_get_irq_handler env = 0")
    case True
    then have "r = 1" "s' = s1"
      using init by (simp_all add: keyboard_init_def seqk_def bindk_def kprog_simps s1_def)
    with sm1 show ?thesis by simp
  next
    case h: False
    from init h obtain r2 s2 where dev: "keyboard_device_init env s1 = Inr (r2, s2)"
      by (cases "keyboard_device_init env s1")
         (auto simp: keyboard_init_def seqk_def bindk_def kprog_simps s1_def)
    from keyboard_device_init_hooks [OF dev] sm1 have sm2: "same_hooks s s2" "klog s2 = klog s"
      by (auto simp: same_hooks_def)
    define s3 where "s3 = s2\<lparr>tasklet_press_notify := Some KbPressNotify,
        tasklet_release_notify := Some KbReleaseNotify, klog := klog s2 @ [InstallFilter]\<rparr>"
    have sm3: "same_hooks s s3" "klog s3 = klog s @ [InstallFilter]"
      using sm2 by (auto simp: same_hooks_def s3_def)
    show ?thesis
    proof (cases "r2 = 0 \<and> i8042_install_filter_result env = 0")
      case False
      have "r = 1 \<and> (i8042_install_filter_result env \<noteq> 0 \<and> s' = s3 \<or> s' = s2)"
      proof (cases "r2 = 0")
        case True
        with False have f: "i8042_install_filter_result env \<noteq> 0" by simp
        from init h dev True f show ?thesis
          by (simp add: keyboard_init_def seqk_def bindk_def kprog_simps s1_def [symmetric] h1
              keyboard_device_notify_apply s3_def ENODEV_def)
      next
        case r2: False
        from init h dev r2 show ?thesis
          by (simp add: keyboard_init_def seqk_def bindk_def kprog_simps s1_def [symmetric] h1)
      qed
      with sm2 sm3 show ?thesis by (auto simp: filter_after_append)
    next
      case True
      have ready3: "kb_ready s3" using ready sm3 by (simp add: irq_ready_same_hooks)
      from init h dev True obtain r4 s4 where
        hook: "hook_interrupt PLUGIN_KEYBOARD_INTERRUPT_HARDWARE (Some KbHookHandler) s3 = Inr (r4, s4)"
        and rest: "(if r4 \<noteq> 0 then seqk keyboard_device_no_notify (retk 1)
             else seqk (bindk (bindk (readk (get_irq_affinity env PLUGIN_KEYBOARD_INTERRUPT_HARDWARE)) liftk)
                 (\<lambda>a. modk (\<lambda>s. s\<lparr>kb_affinity := a\<rparr>))) (keyboard_init_data env data)) s4 = Inr (r, s')"
        by (auto simp: keyboard_init_def seqk_def bindk_def kprog_simps s1_def [symmetric] h1
            keyboard_device_notify_apply s3_def split: sum.splits prod.splits)
      from hook_ready_cases [OF ready3 hook] show ?thesis
      proof (elim disjE conjE)
        assume "r4 = - EINVAL" "s4 = s3"
        with rest sm3 have "r = 1" "same_hooks s s'" "klog s' = klog s @ [InstallFilter, RemoveFilter]"
          by (auto simp: kprog_simps EINVAL_def same_hooks_def)
        then show ?thesis by (simp add: filter_after_append)
      next
        assume ok: "r4 = 0" "hookable PLUGIN_KEYBOARD_INTERRUPT_HARDWARE s3"
          "s4 = hook_upd PLUGIN_KEYBOARD_INTERRUPT_HARDWARE (Some KbHookHandler) s3"
        from rest ok(1) obtain a where
          "keyboard_init_data env data (s4\<lparr>kb_affinity := a\<rparr>) = Inr (r, s')"
          by (auto simp: seqk_Inr_iff bindk_Inr_iff kprog_simps liftk_Inr_iff)
        from keyboard_init_data_hooks [OF this, of False]
        have fin: "r = 0" "same_hooks s4 s'" "filter_after env False (klog s') = filter_after env False (klog s4)"
          by (auto simp: same_hooks_def)
        have "klog s4 = klog s @ [InstallFilter]"
          using ok(3) sm3 by (simp add: hook_upd_def upd_desc_def)
        moreover have "same_hooks (hook_upd PLUGIN_KEYBOARD_INTERRUPT_HARDWARE (Some KbHookHandler) s) s4"
          unfolding ok(3) by (rule same_hooks_hook_upd [OF sm3(1)])
        moreover have "hookable PLUGIN_KEYBOARD_INTERRUPT_HARDWARE s"
          using ok(2) same_hooksD(5) [OF sm3(1)] by simp
        ultimately show ?thesis
          using fin True by (auto simp: same_hooks_def filter_after_append)
      qed
    qed
  qed
qed

lemma keyboard_cleanup_cases:
  assumes "kb_ready s"
  shows "\<exists>s'. keyboard_cleanup s = Inr (0, s') \<and> klog s' = klog s @ [RemoveFilter]
     \<and> same_hooks (if hooked s PLUGIN_KEYBOARD_INTERRUPT_HARDWARE
                   then unhook_upd PLUGIN_KEYBOARD_INTERRUPT_HARDWARE s else s) s'"
proof (cases "hooked s PLUGIN_KEYBOARD_INTERRUPT_HARDWARE")
  case True
  from assms obtain d where "descs s PLUGIN_KEYBOARD_INTERRUPT_HARDWARE = Some d" "hook_inv s"
    by (auto simp: irq_ready_def split: option.splits)
  with True show ?thesis
    by (simp add: keyboard_cleanup_def kprog_simps keyboard_device_cleanup_def same_hooks_def)
       (simp add: unhook_upd_def upd_desc_def)
next
  case False
  with assms show ?thesis
    by (auto simp: irq_ready_def keyboard_cleanup_def kprog_simps keyboard_device_cleanup_def
        same_hooks_def split: option.splits)
qed

interpretation keyboard: hooking_plugin "keyboard_init env" keyboard_cleanup
  PLUGIN_KEYBOARD_INTERRUPT_HARDWARE kb_ready kb_ready for env
proof unfold_locales
  fix d r and s s' :: "'a kb_state_scheme"
  assume ready: "kb_ready s" and init: "keyboard_init env d s = Inr (r, s')"
  from keyboard_init_cases [OF ready init]
  show "kb_ready s' \<and> native_handler s' = native_handler s
      \<and> (\<forall>j. hooked s' j \<longleftrightarrow> hooked s j \<or> r = 0 \<and> j = PLUGIN_KEYBOARD_INTERRUPT_HARDWARE)"
  proof (elim disjE conjE)
    assume "r = 0" and "hookable PLUGIN_KEYBOARD_INTERRUPT_HARDWARE s"
      and "same_hooks (hook_upd PLUGIN_KEYBOARD_INTERRUPT_HARDWARE (Some KbHookHandler) s) s'"
    with hooked_contract [OF ready this(2,3)] show ?thesis by simp
  next
    assume "r = 1" and "same_hooks s s'"
    with not_hooked_contract [OF ready this(2)] show ?thesis by simp
  qed
next
  fix s :: "'a kb_state_scheme"
  assume ready: "kb_ready s"
  from keyboard_cleanup_cases [OF ready] show "\<exists>s'. keyboard_cleanup s = Inr (0, s') \<and> kb_ready s'
      \<and> native_handler s' = native_handler s
      \<and> (\<forall>j. hooked s' j \<longleftrightarrow> hooked s j \<and> j \<noteq> PLUGIN_KEYBOARD_INTERRUPT_HARDWARE)"
    using unhooked_contract [OF ready] by blast
qed

section \<open>When \<open>keyboard_init\<close> succeeds\<close>

lemma find_kb_port_01:
  assumes "2 \<le> length ports"
  shows "find_kb_port [0, 1] ports = Inr (List.find (\<lambda>p. port_irq p = 1) (take 2 ports))"
proof -
  from assms obtain a b ps where "ports = a # b # ps"
    by (metis One_nat_def Suc_1 Suc_le_length_iff)
  then show ?thesis by (simp add: PLUGIN_KEYBOARD_INTERRUPT_HARDWARE_def)
qed

text \<open>What the environment must provide for an initialisation to succeed, apart from memory.\<close>

definition kb_supported :: "kenv \<Rightarrow> bool" where
  "kb_supported env \<longleftrightarrow> kallsyms_lookup_name env ''i8042_interrupt'' \<noteq> 0
     \<and> kallsyms_lookup_name env ''i8042_ports'' \<noteq> 0
     \<and> List.find (\<lambda>p. port_irq p = 1) (take 2 (i8042_ports env)) \<noteq> None
     \<and> i8042_install_filter_result env = 0"

lemma keyboard_init_unsupported:
  assumes "\<not> kb_supported env" and "2 \<le> length (i8042_ports env)"
  shows "\<exists>s'. keyboard_init env data s = Inr (1, s')"
  using assms
  by (cases "List.find (\<lambda>p. port_irq p = 1) (take 2 (i8042_ports env))")
     (simp_all add: keyboard_init_def seqk_def bindk_def kprog_simps keyboard_device_init_apply
       keyboard_device_notify_apply find_kb_port_01 kb_supported_def keyboard_device_get_irq_handler_def
       del: find_kb_port.simps, fastforce)

text \<open>The tasklets the key filter schedules are the plugin's.\<close>

definition key_tasklets :: "'a kb_state_scheme \<Rightarrow> bool" where
  "key_tasklets s \<longleftrightarrow> tasklet_press_notify s = Some KbPressNotify
     \<and> tasklet_release_notify s = Some KbReleaseNotify"

text \<open>A supported machine reaches \<open>hook_interrupt\<close> in a state with the hooks of the start.\<close>

lemma keyboard_init_supported:
  assumes "kb_supported env" and "2 \<le> length (i8042_ports env)"
  shows "\<exists>s3. same_hooks s s3 \<and> alloc_pos s3 = alloc_pos s \<and> key_tasklets s3 \<and> keyboard_init env data s =
     bindk (hook_interrupt PLUGIN_KEYBOARD_INTERRUPT_HARDWARE (Some KbHookHandler)) (\<lambda>r.
       if r \<noteq> 0 then seqk keyboard_device_no_notify (retk 1)
       else
         seqk (bindk (bindk (readk (get_irq_affinity env PLUGIN_KEYBOARD_INTERRUPT_HARDWARE)) liftk)
                 (\<lambda>a. modk (\<lambda>s. s\<lparr>kb_affinity := a\<rparr>)))
              (keyboard_init_data env data)) s3"
proof -
  from assms(1) obtain port where
    "List.find (\<lambda>p. port_irq p = 1) (take 2 (i8042_ports env)) = Some port"
    by (auto simp: kb_supported_def)
  with assms show ?thesis
    by (simp add: keyboard_init_def seqk_def bindk_def kprog_simps keyboard_device_init_apply
       keyboard_device_notify_apply find_kb_port_01 kb_supported_def keyboard_device_get_irq_handler_def
       del: find_kb_port.simps)
      (rule exI, rule conjI [rotated], rule conjI [rotated], rule conjI [rotated], rule refl,
        simp_all add: same_hooks_def key_tasklets_def)
qed

text \<open>The data structure of the plugin can be allocated, or is not wanted.\<close>

definition kb_data_ok :: "kenv \<Rightarrow> nat option \<Rightarrow> 'a kernel_scheme \<Rightarrow> bool" where
  "kb_data_ok env data s \<longleftrightarrow> data = None \<or> vmalloc_result env (alloc_pos s) \<noteq> 0"

lemma keyboard_init_data_returns:
  assumes "kb_data_ok env data s"
  shows "\<exists>s'. keyboard_init_data env data s = Inr (0, s')"
  using assms
  by (cases data)
     (simp_all add: keyboard_init_data_def kb_data_ok_def vmalloc_def Let_def seqk_def bindk_def
       kprog_simps)

lemma keyboard_init_result:
  assumes ready: "kb_ready s" and ports: "2 \<le> length (i8042_ports env)"
    and aff: "get_irq_affinity env PLUGIN_KEYBOARD_INTERRUPT_HARDWARE s = Inr a"
    and mem: "kb_data_ok env data s"
  shows "\<exists>s'. keyboard_init env data s =
           Inr (if kb_supported env \<and> \<not> hooked s PLUGIN_KEYBOARD_INTERRUPT_HARDWARE then 0 else 1, s')"
proof (cases "kb_supported env")
  case False
  with keyboard_init_unsupported [OF False ports] show ?thesis by simp
next
  case True
  let ?i = PLUGIN_KEYBOARD_INTERRUPT_HARDWARE
  from keyboard_init_supported [OF True ports, of s data] obtain s3 where
    sm: "same_hooks s s3" and pos: "alloc_pos s3 = alloc_pos s" and eq: "keyboard_init env data s =
     bindk (hook_interrupt ?i (Some KbHookHandler)) (\<lambda>r.
       if r \<noteq> 0 then seqk keyboard_device_no_notify (retk 1)
       else seqk (bindk (bindk (readk (get_irq_affinity env ?i)) liftk)
                 (\<lambda>a. modk (\<lambda>s. s\<lparr>kb_affinity := a\<rparr>)))
              (keyboard_init_data env data)) s3" by blast
  have ready3: "kb_ready s3" using ready by (simp add: irq_ready_same_hooks [OF sm])
  show ?thesis
  proof (cases "hooked s ?i")
    case True
    then have "hook_interrupt ?i (Some KbHookHandler) s3 = Inr (- EINVAL, s3)"
      using ready3 by (intro hook_interrupt_hooked) (simp_all add: same_hooksD [OF sm] irq_ready_def)
    with True show ?thesis by (simp add: eq kprog_simps)
  next
    case False
    then have able: "hookable ?i s3"
      using irq_ready_hookable [OF ready3] by (simp add: same_hooksD [OF sm])
    obtain d where d: "descs s ?i = Some d" "descs s3 ?i = Some d"
      using ready sm by (auto simp: irq_ready_def same_hooks_def split: option.splits)
    have aff3: "get_irq_affinity env ?i (hook_upd ?i (Some KbHookHandler) s3) = Inr a"
      using aff d by (simp add: affinity_hook_upd) (simp add: get_irq_affinity_def irq_to_desc_def)
    have "kb_data_ok env data ((hook_upd ?i (Some KbHookHandler) s3)\<lparr>kb_affinity := a\<rparr>)"
      using mem pos by (simp add: kb_data_ok_def hook_upd_def upd_desc_def)
    from keyboard_init_data_returns [OF this] show ?thesis
      using True False able aff3 by (simp add: eq kprog_simps)
  qed
qed

section \<open>Injection and filtering\<close>

lemma keyboard_inject_cpu_apply:
  "c < 32 \<Longrightarrow> keyboard_inject_cpu c s = Inr ((), s\<lparr>interrupt_number := 49,
     klog := klog s @ (if bit (kb_affinity s) c then [SmpCallInject c] else [])\<rparr>)"
  by (auto simp: keyboard_inject_cpu_def seqk_def bindk_def modk_def readk_def liftk_def shift_1_def
      push_bit_eq_mult and_exp_eq_0_iff_not_bit emit_apply retk_def
      PLUGIN_KEYBOARD_INTERRUPT_SOFTWARE_def)

lemma inject_calls:
  assumes "\<And>c. c \<in> set cs \<Longrightarrow> c < 32"
  shows "for_eachk cs keyboard_inject_cpu s
     = Inr ((), s\<lparr>interrupt_number := (if cs = [] then interrupt_number s else 49),
                  klog := klog s @ map SmpCallInject (filter (bit (kb_affinity s)) cs)\<rparr>)"
  using assms
proof (induction cs arbitrary: s)
  case Nil
  then show ?case by (simp add: kprog_simps)
next
  case (Cons c cs)
  then show ?case by (simp add: seqk_def bindk_def keyboard_inject_cpu_apply)
qed

lemma send_scancode_apply [kprog_simps]:
  "send_scancode c s = Inr ((), s\<lparr>klog := klog s @ [SerioInterrupt (serio (kb_port s)) (word_of_int c)]\<rparr>)"
  by (simp add: send_scancode_def keyboard_device_get_serio_def bindk_def kprog_simps)

lemma inject_interrupt_49 [kprog_simps]:
  "interrupt_number s = 49 \<Longrightarrow>
     inject_interrupt_wrapper s = Inr ((), s\<lparr>klog := klog s @ [IntInstruction 49]\<rparr>)"
  by (simp add: inject_interrupt_wrapper_def inject_interrupt_def Let_def seqk_def bindk_def
      kprog_simps PLUGIN_KEYBOARD_INTERRUPT_SOFTWARE_def)

text \<open>The calls one injection makes.\<close>

definition keyboard_inject_calls :: "kenv \<Rightarrow> 'a kb_state_scheme \<Rightarrow> kcall list" where
  "keyboard_inject_calls env s =
     [SerioInterrupt (serio (kb_port s)) 0x5d, SerioInterrupt (serio (kb_port s)) 0xdd]
     @ map SmpCallInject (filter (bit (kb_affinity s)) (online_cpus env))
     @ map PrefetchTouch (prefetched env (kb_irq_handler s) 4096)"

lemma keyboard_inject_apply:
  assumes "\<And>c. c \<in> set (online_cpus env) \<Longrightarrow> c < 32"
    and "0 \<notin> set (prefetched env (kb_irq_handler s) 4096)"
  shows "keyboard_inject env s = Inr (0, s\<lparr>
     interrupt_number := (if online_cpus env = [] then interrupt_number s else 49),
     klog := klog s @ keyboard_inject_calls env s\<rparr>)"
  using assms
  by (simp add: keyboard_inject_def seqk_def bindk_def send_scancode_apply inject_calls readk_apply
      prefetch_range_ok retk_apply ILLEGAL_SCANCODE_def keyboard_inject_calls_def)

text \<open>Without the handler's address the injection follows a null pointer.\<close>

lemma keyboard_inject_null:
  assumes "\<And>c. c \<in> set (online_cpus env) \<Longrightarrow> c < 32" and "kb_irq_handler s = 0"
    and "sizeof_size_t env = 8"
  shows "keyboard_inject env s = Inl NullDeref"
  using assms
  by (simp add: keyboard_inject_def seqk_def bindk_def send_scancode_apply inject_calls readk_apply
      prefetch_range_null)

section \<open>The hook handler against the removal of the hook\<close>

text \<open>
  \<open>kb_hook_handler\<close> looks up the original handler after its random delay, and \<open>unhook_interrupt\<close>
  does not wait for handlers that are under way. The system below interleaves the two: CPUs take
  the interrupt and later make the call through \<open>hook_get_original\<close>, and the module hooks and
  unhooks. With \<open>sync\<close> an unhooking waits until no CPU is in its delay.
\<close>

datatype isr_pc = NotInIsr | InDelay | Crashed

record race_sys =
  race_hooks :: hook_state
  isr_of :: "nat \<Rightarrow> isr_pc"

inductive race_step :: "bool \<Rightarrow> race_sys \<Rightarrow> race_sys \<Rightarrow> bool" for sync :: bool where
  race_irq: "current_handler (race_hooks S) PLUGIN_KEYBOARD_INTERRUPT_HARDWARE = Some KbHookHandler \<Longrightarrow>
     isr_of S c = NotInIsr \<Longrightarrow> race_step sync S (S\<lparr>isr_of := (isr_of S)(c := InDelay)\<rparr>)"
| race_call: "isr_of S c = InDelay \<Longrightarrow>
     hook_get_original PLUGIN_KEYBOARD_INTERRUPT_HARDWARE (race_hooks S) = Inr (h, s') \<Longrightarrow>
     race_step sync S (S\<lparr>race_hooks := s',
        isr_of := (isr_of S)(c := (if h = None then Crashed else NotInIsr))\<rparr>)"
| race_hook: "hook_interrupt PLUGIN_KEYBOARD_INTERRUPT_HARDWARE (Some KbHookHandler) (race_hooks S) = Inr (r, s') \<Longrightarrow>
     race_step sync S (S\<lparr>race_hooks := s'\<rparr>)"
| race_unhook: "(sync \<longrightarrow> (\<forall>c. isr_of S c \<noteq> InDelay)) \<Longrightarrow>
     unhook_interrupt PLUGIN_KEYBOARD_INTERRUPT_HARDWARE (race_hooks S) = Inr ((), s') \<Longrightarrow>
     race_step sync S (S\<lparr>race_hooks := s'\<rparr>)"

definition race_start :: "race_sys \<Rightarrow> bool" where
  "race_start S \<longleftrightarrow> kb_ready (race_hooks S) \<and> (\<forall>j. \<not> hooked (race_hooks S) j)
     \<and> current_handler (race_hooks S) PLUGIN_KEYBOARD_INTERRUPT_HARDWARE \<noteq> Some KbHookHandler
     \<and> isr_of S = (\<lambda>_. NotInIsr)"

text \<open>
  The invariant with \<open>sync\<close>: nobody has crashed, and a CPU in its delay means the hook is there; the
  hook handler is installed exactly while the table remembers another one.
\<close>

definition race_inv :: "race_sys \<Rightarrow> bool" where
  "race_inv S \<longleftrightarrow> kb_ready (race_hooks S)
     \<and> native_handler (race_hooks S) PLUGIN_KEYBOARD_INTERRUPT_HARDWARE \<noteq> Some KbHookHandler
     \<and> (\<forall>c. isr_of S c \<noteq> Crashed
          \<and> (isr_of S c = InDelay \<longrightarrow> hooked (race_hooks S) PLUGIN_KEYBOARD_INTERRUPT_HARDWARE))"

lemma race_inv_step:
  assumes inv: "race_inv S" and step: "race_step True S T"
  shows "race_inv T"
proof -
  let ?i = PLUGIN_KEYBOARD_INTERRUPT_HARDWARE
  from inv have ready: "kb_ready (race_hooks S)" and hinv: "hook_inv (race_hooks S)"
    by (simp_all add: race_inv_def irq_ready_def)
  from step show ?thesis
  proof (cases rule: race_step.cases)
    case (race_irq c)
    then have "hooked (race_hooks S) ?i"
      using inv by (auto simp: race_inv_def native_handler_def current_handler_def split: if_splits)
    with race_irq inv show ?thesis by (simp add: race_inv_def)
  next
    case (race_call c h s')
    then have "hooked (race_hooks S) ?i" using inv by (auto simp: race_inv_def)
    then have "h \<noteq> None" "s' = race_hooks S"
      using race_call hinv by (auto simp: hooked_def kprog_simps)
    with race_call inv show ?thesis by (auto simp: race_inv_def)
  next
    case (race_hook r s')
    from hook_ready_cases [OF ready race_hook(2)] show ?thesis
    proof (elim disjE conjE)
      assume "hookable ?i (race_hooks S)" "s' = hook_upd ?i (Some KbHookHandler) (race_hooks S)"
      with race_hook inv irq_ready_hook_upd [OF ready, of "Some KbHookHandler" ?i] show ?thesis
        by (simp add: race_inv_def native_hook_upd hooked_hook_upd)
    next
      assume "s' = race_hooks S"
      with race_hook inv show ?thesis by simp
    qed
  next
    case (race_unhook s')
    show ?thesis
    proof (cases "hooked (race_hooks S) ?i")
      case False
      with race_unhook inv show ?thesis by (auto simp: unhook_ready_cases [OF ready] race_inv_def)
    next
      case True
      obtain d where d: "descs (race_hooks S) ?i = Some d"
        using ready by (auto simp: irq_ready_def split: option.splits)
      have "kb_ready (unhook_upd ?i (race_hooks S))"
        "native_handler (unhook_upd ?i (race_hooks S)) = native_handler (race_hooks S)"
        by (rule irq_ready_unhook_upd [OF ready True], rule native_unhook_upd [OF hinv True d])
      with True race_unhook inv show ?thesis
        by (auto simp: unhook_ready_cases [OF ready] race_inv_def)
    qed
  qed
qed

interpretation race: invariant_system race_start "race_step True" race_inv
proof unfold_locales
  show "race_inv S" if "race_start S" for S
    using that by (simp add: race_start_def race_inv_def native_handler_def current_handler_def)
qed (rule race_inv_step)

section \<open>Properties\<close>

definition demo_kb_state :: kb_state where
  "demo_kb_state = main_state.extend (registry_state.extend
     (timer_state.extend (hook_state.extend (hook_state.truncate demo_hook_state)
        \<lparr>periode = KtimeSet 0 0, faketimer_t = KtimeSet 0 0, faketimer_running = 0,
         timer_fn = None, faketimer_fn = None\<rparr>)
        \<lparr>plugins = replicate 128 None, plugin_count = 0, plugin_objs = (\<lambda>_. plugin_keyboard_object)\<rparr>)
     \<lparr>injection = 0\<rparr>)
     \<lparr>kb_affinity = 5, kb_irq_handler = 4096, interrupt_number = 0,
      kb_event = \<lparr>event_type = KEY_PRESS, event_data = 0, event_len = 0\<rparr>,
      tasklet_press_notify = Some KbPressNotify, tasklet_release_notify = Some KbReleaseNotify,
      kb_ports = 4096, kb_port = i8042_ports demo_env ! 1, kb_data_state = (\<lambda>_. 0)\<rparr>"

lemmas demo_kb_defs = demo_kb_state_def hook_state.defs timer_state.defs registry_state.defs
  main_state.defs demo_hook_state_def

lemma demo_kb_same_hooks: "same_hooks demo_hook_state demo_kb_state"
  by (simp add: same_hooks_def demo_kb_defs)

lemma demo_kb_ready: "kb_ready demo_kb_state"
  unfolding irq_ready_def same_hooksD [OF demo_kb_same_hooks]
  by (intro conjI, rule kb_irq_ok, rule demo_hook_inv)
     (simp add: demo_kb_defs demo_desc_def PLUGIN_KEYBOARD_INTERRUPT_HARDWARE_def)

lemma demo_kb_not_hooked: "\<not> hooked demo_kb_state j"
  unfolding same_hooksD [OF demo_kb_same_hooks]
  by (simp add: hooked_def irq_ok_def demo_hook_state_def)

lemma demo_kb_affinity: "get_irq_affinity demo_env PLUGIN_KEYBOARD_INTERRUPT_HARDWARE demo_kb_state = Inr 5"
  by (simp add: get_irq_affinity_def irq_to_desc_def demo_env_def demo_kb_defs demo_desc_def
      PLUGIN_KEYBOARD_INTERRUPT_HARDWARE_def kernel_version_def)

text \<open>
  The key filter never consumes a byte. Bytes of the auxiliary port (bit 5 of the status) are
  ignored; of the others, those with bit 7 set schedule the release tasklet and those without it
  the press tasklet, exactly one per byte.
\<close>

theorem key_filter_spec:
  assumes "tasklet_press_notify s = Some press" and "tasklet_release_notify s = Some release"
  shows "key_filter data str s = Inr (False, s\<lparr>klog := klog s @
           (if bit str 5 then [] else [TaskletSchedule (if bit data 7 then release else press)])\<rparr>)"
proof -
  have "str AND 2 ^ 5 \<noteq> 0 \<longleftrightarrow> bit str 5" "data AND 2 ^ 7 \<noteq> 0 \<longleftrightarrow> bit data 7"
    by (simp_all only: and_exp_eq_0_iff_not_bit not_not)
  then have "str AND 0x20 \<noteq> 0 \<longleftrightarrow> bit str 5" "data AND 0x80 \<noteq> 0 \<longleftrightarrow> bit data 7" by simp_all
  with assms show ?thesis
    by (simp add: key_filter_def I8042_STR_AUXDATA_def seqk_def bindk_def kprog_simps)
qed

theorem key_filter_spec_witness:
  "key_filter 0x9e 0x1d demo_kb_state = Inr (False, demo_kb_state\<lparr>klog := klog demo_kb_state @
     (if bit (0x1d :: u8) 5 then [] else [TaskletSchedule (if bit (0x9e :: u8) 7 then KbReleaseNotify else KbPressNotify)])\<rparr>)"
  by (rule key_filter_spec) (simp_all add: demo_kb_defs)

text \<open>
  One keyboard injection: it sends the illegal scancode and its release (0x5d, 0xdd) to the
  keyboard port, then asks every online CPU of the interrupt's affinity, and no other, to inject,
  then touches the 4096 bytes of the interrupt handler. Each CPU that takes the request executes
  \<open>int $49\<close>.
\<close>

theorem keyboard_inject_spec:
  assumes "\<And>c. c \<in> set (online_cpus env) \<Longrightarrow> c < 32"
    and "0 \<notin> set (prefetched env (kb_irq_handler s) 4096)"
  shows "\<exists>s'. keyboard_inject env s = Inr (0, s')
     \<and> klog s' = klog s @ [SerioInterrupt (serio (kb_port s)) 0x5d, SerioInterrupt (serio (kb_port s)) 0xdd]
          @ map SmpCallInject (filter (bit (kb_affinity s)) (online_cpus env))
          @ map PrefetchTouch (prefetched env (kb_irq_handler s) 4096)
     \<and> (online_cpus env \<noteq> [] \<longrightarrow>
          inject_interrupt_wrapper s' = Inr ((), s'\<lparr>klog := klog s' @ [IntInstruction 49]\<rparr>))"
  by (simp add: keyboard_inject_apply [OF assms] keyboard_inject_calls_def inject_interrupt_49)

theorem keyboard_inject_spec_witness:
  "\<exists>s'. keyboard_inject demo_env demo_kb_state = Inr (0, s')
     \<and> klog s' = klog demo_kb_state @ [SerioInterrupt (serio (kb_port demo_kb_state)) 0x5d, SerioInterrupt (serio (kb_port demo_kb_state)) 0xdd]
          @ map SmpCallInject (filter (bit (kb_affinity demo_kb_state)) (online_cpus demo_env))
          @ map PrefetchTouch (prefetched demo_env (kb_irq_handler demo_kb_state) 4096)
     \<and> (online_cpus demo_env \<noteq> [] \<longrightarrow>
          inject_interrupt_wrapper s' = Inr ((), s'\<lparr>klog := klog s' @ [IntInstruction 49]\<rparr>))"
proof (rule keyboard_inject_spec)
  show "c \<in> set (online_cpus demo_env) \<Longrightarrow> c < 32" for c by (auto simp: demo_env_def)
  show "0 \<notin> set (prefetched demo_env (kb_irq_handler demo_kb_state) 4096)"
    by (simp add: prefetched_nonzero demo_env_def demo_kb_defs)
qed



text \<open>
  Loading and unloading: whatever \<open>keyboard_init\<close> returned, \<open>keyboard_cleanup\<close> after it returns
  0, leaves no interrupt hooked, gives every interrupt the handler it had before the load, and
  leaves no key filter installed.
\<close>

theorem keyboard_load_unload:
  assumes "kb_ready s" and "\<And>j. \<not> hooked s j" and "2 \<le> length (i8042_ports env)"
    and "get_irq_affinity env PLUGIN_KEYBOARD_INTERRUPT_HARDWARE s = Inr a"
    and "kb_data_ok env data s"
  shows "\<exists>r s1 s2. keyboard_init env data s = Inr (r, s1) \<and> keyboard_cleanup s1 = Inr (0, s2)
     \<and> (\<forall>j. \<not> hooked s2 j) \<and> current_handler s2 = current_handler s \<and> \<not> filter_installed env s2"
proof -
  from keyboard_init_result [OF assms(1,3-5)] obtain r s1 where
    init: "keyboard_init env data s = Inr (r, s1)" by blast
  from keyboard.load_unload [OF assms(1,2) init] obtain s2 where
    s2: "keyboard_cleanup s1 = Inr (0, s2)" "\<forall>j. \<not> hooked s2 j" "current_handler s2 = current_handler s"
    by blast
  have "kb_ready s1" using keyboard.init_contract [OF assms(1) init] by blast
  from keyboard_cleanup_cases [OF this] s2(1) have "klog s2 = klog s1 @ [RemoveFilter]" by auto
  then have "\<not> filter_installed env s2"
    by (simp add: filter_installed_def filter_after_append)
  with init s2 show ?thesis by blast
qed

theorem keyboard_load_unload_witness:
  "\<exists>r s1 s2. keyboard_init demo_env (Some 0) demo_kb_state = Inr (r, s1) \<and> keyboard_cleanup s1 = Inr (0, s2)
     \<and> (\<forall>j. \<not> hooked s2 j) \<and> current_handler s2 = current_handler demo_kb_state
     \<and> \<not> filter_installed demo_env s2"
proof (rule keyboard_load_unload [OF demo_kb_ready demo_kb_not_hooked _ demo_kb_affinity])
  show "2 \<le> length (i8042_ports demo_env)" by (simp add: demo_env_def)
  show "kb_data_ok demo_env (Some 0) demo_kb_state"
    by (simp add: kb_data_ok_def demo_env_def demo_kb_defs)
qed

lemma kb_hook_handler_delayed: "kb_hook_handler env = delayed_handler env 0 100 PLUGIN_KEYBOARD_INTERRUPT_HARDWARE"
  by (intro ext) (simp add: kb_hook_handler_def delayed_handler_def ISR_DELAY_MIN_def ISR_DELAY_MAX_def)



text \<open>
  The keyboard's hook handler: on a hooked interrupt it waits a random time of at most 100
  microseconds, then runs the native handler of the interrupt, exactly once and in the state the
  wait left, and then restores the number of unhandled interrupts, so that its own delay is not
  counted against the device.
\<close>

theorem kb_hook_handler_spec:
  assumes "hook_inv s" and "hooked s PLUGIN_KEYBOARD_INTERRUPT_HARDWARE"
    and "descs s PLUGIN_KEYBOARD_INTERRUPT_HARDWARE = Some d" and "drawable env ISR_DELAY_MIN ISR_DELAY_MAX s"
  shows "\<exists>delay pos orig. unat delay \<le> 100
     \<and> native_handler s PLUGIN_KEYBOARD_INTERRUPT_HARDWARE = Some orig
     \<and> (\<forall>run. kb_hook_handler env run PLUGIN_KEYBOARD_INTERRUPT_HARDWARE s =
          seqk (run orig PLUGIN_KEYBOARD_INTERRUPT_HARDWARE)
               (modk (upd_desc PLUGIN_KEYBOARD_INTERRUPT_HARDWARE
                        (irqs_unhandled_update (\<lambda>_. irqs_unhandled d))))
               (s\<lparr>entropy_pos := pos, klog := klog s @ [Udelay delay]\<rparr>))"
proof -
  have "kb_hook_handler env run i
      = delayed_handler env ISR_DELAY_MIN ISR_DELAY_MAX PLUGIN_KEYBOARD_INTERRUPT_HARDWARE run i"
    for run :: "flow_handler \<Rightarrow> int \<Rightarrow> ('a hook_state_scheme, unit) kprog" and i
    by (simp add: kb_hook_handler_def delayed_handler_def)
  then show ?thesis
    using delayed_handler_spec [OF assms] by (fastforce simp: ISR_DELAY_MIN_def ISR_DELAY_MAX_def word_le_nat_alt)
qed

definition demo_hooked_state :: hook_state where
  "demo_hooked_state = hook_upd 1 (Some KbHookHandler) demo_hook_state"

lemma demo_hooked:
  "hook_inv demo_hooked_state" "hooked demo_hooked_state PLUGIN_KEYBOARD_INTERRUPT_HARDWARE"
  using hook_upd_inv [OF demo_hook_inv, of "Some KbHookHandler" 1] demo_hookable [of 1]
  by (simp_all add: demo_hooked_state_def hooked_hook_upd PLUGIN_KEYBOARD_INTERRUPT_HARDWARE_def)

theorem kb_hook_handler_spec_witness:
  "\<exists>delay pos orig. unat delay \<le> 100
     \<and> native_handler demo_hooked_state PLUGIN_KEYBOARD_INTERRUPT_HARDWARE = Some orig
     \<and> (\<forall>run. kb_hook_handler demo_env run PLUGIN_KEYBOARD_INTERRUPT_HARDWARE demo_hooked_state =
          seqk (run orig PLUGIN_KEYBOARD_INTERRUPT_HARDWARE)
               (modk (upd_desc PLUGIN_KEYBOARD_INTERRUPT_HARDWARE
                        (irqs_unhandled_update (\<lambda>_. irqs_unhandled ((demo_desc (Some (OtherHandler 7)))\<lparr>handle_irq := Some KbHookHandler\<rparr>)))))
               (demo_hooked_state\<lparr>entropy_pos := pos, klog := klog demo_hooked_state @ [Udelay delay]\<rparr>))"
proof (rule kb_hook_handler_spec [OF demo_hooked])
  show "descs demo_hooked_state PLUGIN_KEYBOARD_INTERRUPT_HARDWARE
      = Some ((demo_desc (Some (OtherHandler 7)))\<lparr>handle_irq := Some KbHookHandler\<rparr>)"
    by (simp add: demo_hooked_state_def hook_upd_def upd_desc_def demo_hook_state_def
        PLUGIN_KEYBOARD_INTERRUPT_HARDWARE_def)
  show "drawable demo_env ISR_DELAY_MIN ISR_DELAY_MAX demo_hooked_state"
    by (simp add: drawable_def ISR_DELAY_MIN_def ISR_DELAY_MAX_def rand_truncation_def demo_env_def
        demo_hooked_state_def hook_upd_def upd_desc_def demo_hook_state_def)
       (rule exI [of _ 0], simp)
qed

text \<open>From every start a CPU can get into the delay of the hook handler.\<close>

definition race_delayed :: "nat \<Rightarrow> race_sys \<Rightarrow> race_sys" where
  "race_delayed c S = S\<lparr>race_hooks := hook_upd PLUGIN_KEYBOARD_INTERRUPT_HARDWARE (Some KbHookHandler) (race_hooks S),
     isr_of := (isr_of S)(c := InDelay)\<rparr>"

lemma race_start_hookable:
  "race_start S \<Longrightarrow> hookable PLUGIN_KEYBOARD_INTERRUPT_HARDWARE (race_hooks S)"
  by (rule irq_ready_hookable) (simp_all add: race_start_def)

lemma race_delayed_reach:
  assumes "race_start S" and "start S"
  shows "reach start (race_step sync) (race_delayed c S)"
proof -
  let ?i = PLUGIN_KEYBOARD_INTERRUPT_HARDWARE
  let ?S1 = "S\<lparr>race_hooks := hook_upd ?i (Some KbHookHandler) (race_hooks S)\<rparr>"
  have able: "hookable ?i (race_hooks S)" by (rule race_start_hookable [OF assms(1)])
  have "reach start (race_step sync) ?S1"
    by (rule reach_step [where start = start and step = "race_step sync", OF reach_start [where start = start, OF assms(2)]])
       (rule race_hook [of _ 0], rule hook_interrupt_ok [OF able])
  moreover have "race_step sync ?S1 (race_delayed c S)"
    using race_irq [of ?S1 c sync] able assms(1)
    by (auto simp: race_delayed_def race_start_def hookable_def current_handler_def hook_upd_def upd_desc_def)
  ultimately show ?thesis by (rule reach_step)
qed

text \<open>
  C17. The hook can be pulled away under a running handler: from every start state there is a
  sequence of hooking, one interrupt on any CPU, unhooking and the end of the delay after which
  the handler on that CPU calls a null pointer.
\<close>

theorem unhook_race_crashes:
  assumes "race_start S"
  shows "\<exists>T. reach ((=) S) (race_step False) T \<and> isr_of T c = Crashed"
proof -
  let ?i = PLUGIN_KEYBOARD_INTERRUPT_HARDWARE and ?h = "race_hooks S"
  let ?S3 = "(race_delayed c S)\<lparr>race_hooks := ?h\<rparr>"
  let ?S4 = "?S3\<lparr>race_hooks := ?h, isr_of := (isr_of ?S3)(c := Crashed)\<rparr>"
  have "race_step False (race_delayed c S) ?S3"
    by (rule race_unhook) (simp_all add: race_delayed_def unhook_after_hook [OF race_start_hookable [OF assms]])
  moreover have "race_step False ?S3 ?S4"
    using race_call [of ?S3 c None ?h False] assms
    by (simp add: race_delayed_def race_start_def irq_ready_def hook_get_original_ok hooked_def)
  ultimately have "reach ((=) S) (race_step False) ?S4"
    using race_delayed_reach [OF assms, of "(=) S" False c] by (blast intro: reach_step)
  then show ?thesis by (intro exI [of _ ?S4]) simp
qed

definition demo_race :: race_sys where
  "demo_race = \<lparr>race_hooks = demo_hook_state, isr_of = (\<lambda>_. NotInIsr)\<rparr>"

lemma demo_race_start: "race_start demo_race"
proof -
  have "kb_ready demo_hook_state"
    unfolding irq_ready_def
    by (intro conjI, rule kb_irq_ok, rule demo_hook_inv)
       (simp add: demo_hook_state_def demo_desc_def PLUGIN_KEYBOARD_INTERRUPT_HARDWARE_def)
  then show ?thesis
    by (simp add: race_start_def demo_race_def)
       (simp add: current_handler_def hooked_def irq_ok_def demo_hook_state_def demo_desc_def
         PLUGIN_KEYBOARD_INTERRUPT_HARDWARE_def)
qed

theorem unhook_race_crashes_witness:
  "\<exists>T. reach ((=) demo_race) (race_step False) T \<and> isr_of T 2 = Crashed"
  by (rule unhook_race_crashes [OF demo_race_start])



end
