(* ===== verification/KD_X86.thy ===== *)
theory KD_X86
  imports KD_Keyboard KD_Observe
begin

text \<open>
  The x86 module: \<open>main.c\<close> linked with the keyboard plugin. The dispatcher resolves the plugin's
  function pointers; the interpretation of \<open>linked_module\<close> carries the properties of loading,
  running and unloading over to this build.
\<close>

section \<open>The dispatcher\<close>

text \<open>
  The registry passes the address of the plugin's \<open>data\<close> field to \<open>init\<close>. Functions of the other
  build are not linked, and nothing calls \<open>update\<close>.
\<close>

definition run_x86 :: "kenv \<Rightarrow> 'a kb_state_scheme dispatcher" where
  "run_x86 env f p =
     (case f of
        KeyboardInit \<Rightarrow> keyboard_init env (Some p)
      | KeyboardCleanup \<Rightarrow> keyboard_cleanup
      | KeyboardInject \<Rightarrow> keyboard_inject env
      | RealKey \<Rightarrow> real_key env
      | _ \<Rightarrow> stopk NullDeref)"

text \<open>Input of the loaded module: a tasklet that runs, or an interrupt that reaches its handler.\<close>

definition x86_input :: "kenv \<Rightarrow> input_event \<Rightarrow> ('a kb_state_scheme, unit) kprog" where
  "x86_input env x =
     (case x of
        Tasklet press \<Rightarrow> kb_tasklet (run_x86 env) (if press then KbPressNotify else KbReleaseNotify)
      | Irq irq \<Rightarrow> deliver_irq KbHookHandler (kb_hook_handler env call_flow) irq)"

definition x86_loadable :: "kenv \<Rightarrow> 'a kb_state_scheme \<Rightarrow> bool" where
  "x86_loadable env s \<longleftrightarrow> kb_ready s \<and> 2 \<le> length (i8042_ports env) \<and> memory_ok env
     \<and> (\<exists>a. get_irq_affinity env PLUGIN_KEYBOARD_INTERRUPT_HARDWARE s = Inr a)"

section \<open>What the plugin's functions keep\<close>

lemma same_modules_kb_updates [simp]:
  fixes s :: "'a kb_state_scheme"
  shows "same_modules s (s\<lparr>kb_event := e\<rparr>)" "same_modules s (s\<lparr>kb_irq_handler := h\<rparr>)"
    "same_modules s (s\<lparr>kb_affinity := a\<rparr>)" "same_modules s (s\<lparr>kb_ports := p\<rparr>)"
    "same_modules s (s\<lparr>kb_port := q\<rparr>)" "same_modules s (s\<lparr>kb_data_state := d\<rparr>)"
    "same_modules s (s\<lparr>interrupt_number := n\<rparr>)"
    "same_modules s (s\<lparr>tasklet_press_notify := t, tasklet_release_notify := u\<rparr>)"
  by (simp_all add: same_modules_def same_registry_def)

lemma keeps_modules_prefetch: "keeps same_modules (prefetch_range env a n :: ('a main_state_scheme, unit) kprog)"
  by (rule keeps_view_modules) blast

lemma keyboard_init_modules: "keeps same_modules (keyboard_init env d :: ('a kb_state_scheme, int) kprog)"
  by (auto simp: keyboard_init_def keyboard_device_init_def keyboard_device_notify_def Let_def
      keyboard_device_install_filter_def keyboard_device_no_notify_def keyboard_device_remove_filter_def
      keyboard_init_data_def
      intro!: modules_frame.keeps_rules)

lemma keyboard_cleanup_modules: "keeps same_modules (keyboard_cleanup :: ('a kb_state_scheme, int) kprog)"
  by (auto simp: keyboard_cleanup_def keyboard_device_no_notify_def keyboard_device_remove_filter_def
      keyboard_device_cleanup_def intro!: modules_frame.keeps_rules)

lemma keyboard_inject_modules: "keeps same_modules (keyboard_inject env :: ('a kb_state_scheme, int) kprog)"
  by (auto simp: keyboard_inject_def send_scancode_def keyboard_inject_cpu_def
      intro!: modules_frame.keeps_rules keeps_modules_prefetch)

lemma same_hooks_kb_updates [simp]:
  fixes s :: "'a kb_state_scheme"
  shows "same_hooks s (s\<lparr>interrupt_number := n\<rparr>)" "same_hooks s (s\<lparr>kb_event := e\<rparr>)"
  by (simp_all add: same_hooks_def)

lemma keyboard_inject_hooks: "keeps same_hooks (keyboard_inject env :: ('a kb_state_scheme, int) kprog)"
  by (auto simp: keyboard_inject_def send_scancode_def keyboard_inject_cpu_def prefetch_range_def Let_def
      keeps_def [of _ "emit c" for c] emit_apply same_hooks_def
      intro!: hook_frame.keeps_rules)

section \<open>The module as an instance of \<open>linked_module\<close>\<close>

lemma run_x86_modules: "keeps same_modules (run_x86 env f p :: ('a kb_state_scheme, int) kprog)"
  by (cases f) (auto simp: run_x86_def keyboard_init_modules keyboard_cleanup_modules
      keyboard_inject_modules intro!: modules_frame.keeps_stopk keeps_view_modules)

interpretation x86_functions: plugin_functions "run_x86 env" for env
  by unfold_locales (auto dest: keepsD [OF run_x86_modules] simp: same_modules_def)

lemma run_x86_quiet:
  assumes "f \<notin> {KeyboardInit, KeyboardCleanup}"
  shows "keeps quiet (run_x86 env f p :: ('a kb_state_scheme, int) kprog)"
proof (rule keepsI)
  fix s r and s' :: "'a kb_state_scheme"
  assume run: "run_x86 env f p s = Inr (r, s')"
  have "same_hooks s s'"
    using run assms
    by (cases f) (auto simp: run_x86_def stopk_def dest: keepsD [OF keyboard_inject_hooks]
        keepsD [OF keeps_view_hooks [OF keeps_view_real(1)]])
  with keepsD [OF run_x86_modules run] show "quiet s s'" by (simp add: quiet_iff)
qed

text \<open>The initialisation leaves the address of the interrupt handler, whatever it returns.\<close>

definition same_handler :: "'a kb_state_scheme \<Rightarrow> 'a kb_state_scheme \<Rightarrow> bool" where
  "same_handler s s' \<longleftrightarrow> kb_irq_handler s' = kb_irq_handler s"

interpretation handler_frame: frame_relation "same_handler :: 'a kb_state_scheme \<Rightarrow> 'a kb_state_scheme \<Rightarrow> bool"
  by unfold_locales (simp_all add: same_handler_def)

lemma keyboard_init_handler:
  fixes s :: "'a kb_state_scheme"
  assumes "keyboard_init env data s = Inr (r, s')"
  shows "kb_irq_handler s' = kallsyms_lookup_name env ''i8042_interrupt''"
proof -
  have hook: "keeps same_handler (hook_interrupt i h :: ('a kb_state_scheme, int) kprog)" for i h
  proof (rule keepsI)
    fix s r and s' :: "'a kb_state_scheme"
    assume "hook_interrupt i h s = Inr (r, s')"
    then show "same_handler s s'"
      by (auto simp: hook_interrupt_def bindk_Inr_iff seqk_Inr_iff liftk_Inr_iff kprog_simps
          same_handler_def upd_desc_def split: option.splits if_splits)
  qed
  have vm: "keeps same_handler (vmalloc env :: ('a kb_state_scheme, addr) kprog)"
    by (simp add: keeps_def vmalloc_def Let_def same_handler_def)
  have em: "keeps same_handler (emit c :: ('a kb_state_scheme, unit) kprog)" for c
    by (simp add: keeps_def emit_apply same_handler_def)
  let ?rest = "bindk (readk kb_irq_handler) (\<lambda>h.
       if h = 0 then retk 1
       else bindk (keyboard_device_init env) (\<lambda>r.
       if r \<noteq> 0 then retk 1
       else bindk (keyboard_device_notify env (Some KbPressNotify) (Some KbReleaseNotify)) (\<lambda>r.
       if r \<noteq> 0 then retk 1
       else bindk (hook_interrupt PLUGIN_KEYBOARD_INTERRUPT_HARDWARE (Some KbHookHandler)) (\<lambda>r.
       if r \<noteq> 0 then seqk keyboard_device_no_notify (retk 1)
       else
         seqk (bindk (bindk (readk (get_irq_affinity env PLUGIN_KEYBOARD_INTERRUPT_HARDWARE)) liftk)
                 (\<lambda>a. modk (\<lambda>s. s\<lparr>kb_affinity := a\<rparr>)))
              (keyboard_init_data env data))))) :: ('a kb_state_scheme, int) kprog"
  have "keeps same_handler ?rest"
    by (auto simp: keyboard_device_init_def keyboard_device_notify_def Let_def
      keyboard_device_install_filter_def keyboard_device_no_notify_def keyboard_device_remove_filter_def
      keyboard_init_data_def hook vm em same_handler_def upd_plugin_def
      intro!: handler_frame.keeps_rules)
  moreover from assms have "?rest (s\<lparr>kb_event := (kb_event s)\<lparr>event_data := 0, event_len := 0\<rparr>,
      kb_irq_handler := keyboard_device_get_irq_handler env\<rparr>) = Inr (r, s')"
    by (simp add: keyboard_init_def seqk_def bindk_def modk_apply)
  ultimately show ?thesis
    by (auto dest!: keepsD simp: same_handler_def keyboard_device_get_irq_handler_def)
qed

text \<open>On a supported machine it leaves the key filter's tasklets set, whatever hooking returns.\<close>

definition same_tasklets :: "'a kb_state_scheme \<Rightarrow> 'a kb_state_scheme \<Rightarrow> bool" where
  "same_tasklets s s' \<longleftrightarrow> tasklet_press_notify s' = tasklet_press_notify s
     \<and> tasklet_release_notify s' = tasklet_release_notify s"

interpretation tasklet_frame: frame_relation "same_tasklets :: 'a kb_state_scheme \<Rightarrow> 'a kb_state_scheme \<Rightarrow> bool"
  by unfold_locales (simp_all add: same_tasklets_def)

lemma keyboard_init_tasklets:
  fixes s :: "'a kb_state_scheme"
  assumes "kb_supported env" and "2 \<le> length (i8042_ports env)" and init: "keyboard_init env data s = Inr (r, s')"
  shows "key_tasklets s'"
proof -
  let ?i = PLUGIN_KEYBOARD_INTERRUPT_HARDWARE
  let ?rest = "bindk (hook_interrupt ?i (Some KbHookHandler)) (\<lambda>r.
       if r \<noteq> 0 then seqk keyboard_device_no_notify (retk 1)
       else seqk (bindk (bindk (readk (get_irq_affinity env ?i)) liftk) (\<lambda>a. modk (\<lambda>s. s\<lparr>kb_affinity := a\<rparr>)))
              (keyboard_init_data env data)) :: ('a kb_state_scheme, int) kprog"
  from keyboard_init_supported [OF assms(1,2), of s data] obtain s3 where
    s3: "key_tasklets s3" "keyboard_init env data s = ?rest s3" by blast
  have hook: "keeps same_tasklets (hook_interrupt i h :: ('a kb_state_scheme, int) kprog)" for i h
    by (rule keepsI) (auto simp: hook_interrupt_def bindk_Inr_iff seqk_Inr_iff liftk_Inr_iff kprog_simps
        same_tasklets_def upd_desc_def split: option.splits if_splits)
  have vm: "keeps same_tasklets (vmalloc env :: ('a kb_state_scheme, addr) kprog)"
    by (simp add: keeps_def vmalloc_def Let_def same_tasklets_def)
  have em: "keeps same_tasklets (emit c :: ('a kb_state_scheme, unit) kprog)" for c
    by (simp add: keeps_def emit_apply same_tasklets_def)
  have "keeps same_tasklets ?rest"
    by (auto simp: keyboard_device_no_notify_def keyboard_device_remove_filter_def keyboard_init_data_def
      hook vm em same_tasklets_def upd_plugin_def intro!: tasklet_frame.keeps_rules)
  from keepsD [OF this init [unfolded s3(2)]] s3(1) show ?thesis
    by (simp add: same_tasklets_def key_tasklets_def)
qed

lemma kb_callback_quiet:
  assumes "callback_fn (plugin_objs s plugin_keyboard) \<notin> {Some KeyboardInit, Some KeyboardCleanup}"
    and "kb_callback (run_x86 env) b s = Inr (u, s')"
  shows "quiet s s'"
proof -
  let ?s1 = "s\<lparr>kb_event := (kb_event s)\<lparr>event_type := (if b then KEY_PRESS else KEY_RELEASE)\<rparr>\<rparr>"
  have q1: "quiet s ?s1" by (simp add: quiet_iff)
  show ?thesis
  proof (cases "callback_fn (plugin_objs s plugin_keyboard)")
    case None
    with assms(2) q1 show ?thesis
      by (simp add: kb_callback_def seqk_def bindk_def kprog_simps)
  next
    case (Some f)
    with assms(2) obtain r where "run_x86 env f plugin_keyboard ?s1 = Inr (r, s')"
      by (auto simp: kb_callback_def seqk_Inr_iff bindk_Inr_iff kprog_simps)
    moreover have "f \<notin> {KeyboardInit, KeyboardCleanup}" using assms(1) Some by simp
    ultimately have "quiet ?s1 s'" using keepsD [OF run_x86_quiet] by blast
    with q1 show ?thesis by (rule quiet_frame.frame_trans)
  qed
qed

lemma x86_irq_view:
  fixes s :: "'a kb_state_scheme"
  assumes "deliver_irq KbHookHandler (kb_hook_handler env call_flow) irq s = Inr (u, s')"
  shows "same_plugin_view s s'"
  using deliver_irq_frame [OF assms [unfolded kb_hook_handler_delayed]]
  by (auto simp: same_plugin_view_def same_hooks_def same_registry_def)

lemma x86_input_quiet:
  assumes "callback_fn (plugin_objs s plugin_keyboard) \<notin> {Some KeyboardInit, Some KeyboardCleanup}"
    and "x86_input env x s = Inr (u, s')"
  shows "quiet s s'"
proof (cases x)
  case (Tasklet b)
  with assms kb_callback_quiet [of s env b u s'] show ?thesis
    by (auto simp: x86_input_def kb_tasklet_def split: if_splits)
next
  case (Irq j)
  with assms(2) have "same_plugin_view s s'" by (auto simp: x86_input_def dest: x86_irq_view)
  then show ?thesis by (rule view_quiet)
qed

lemma quiet_kb_ready: "quiet s s' \<Longrightarrow> kb_ready s' = kb_ready s"
  by (simp add: quiet_def irq_ready_same_hooks)

text \<open>Neither initialisation nor clean-up touches the control file.\<close>

lemma keyboard_file:
  "keeps same_file (keyboard_init env d :: ('a kb_state_scheme, int) kprog)"
  "keeps same_file (keyboard_cleanup :: ('a kb_state_scheme, int) kprog)"
proof -
  show "keeps same_file (keyboard_init env d :: ('a kb_state_scheme, int) kprog)"
    by (auto simp: keyboard_init_def keyboard_device_init_def keyboard_device_notify_def Let_def
        keyboard_device_install_filter_def keyboard_device_no_notify_def keyboard_device_remove_filter_def
        keyboard_init_data_def upd_plugin_def intro!: file_frame.keeps_rules keeps_file_emit same_file_log)
  show "keeps same_file (keyboard_cleanup :: ('a kb_state_scheme, int) kprog)"
    by (auto simp: keyboard_cleanup_def keyboard_device_no_notify_def keyboard_device_remove_filter_def
        keyboard_device_cleanup_def intro!: file_frame.keeps_rules keeps_file_emit same_file_log)
qed

lemma run_x86_file:
  "f \<in> {KeyboardInit, KeyboardCleanup} \<Longrightarrow> keeps same_file (run_x86 env f p :: ('a kb_state_scheme, int) kprog)"
  by (auto simp: run_x86_def keyboard_file)

interpretation x86: linked_module "run_x86 env" env PLUGIN_KEYBOARD_INTERRUPT_HARDWARE
  KeyboardInit KeyboardCleanup "if arch_x86 env then RealKey else RealTouchpad"
  "if arch_x86 env then x86_input env else (\<lambda>_. retk ())" "x86_loadable env" kb_ready for env
proof unfold_locales
  fix s s' :: "'a kb_state_scheme"
  assume "same_linked s s'"
  then have sm: "same_hooks s s'" by (simp add: same_linked_def)
  show "x86_loadable env s' = x86_loadable env s"
    using irq_ready_same_hooks [OF sm] affinity_same_hooks [OF sm]
    by (auto simp: x86_loadable_def)
  show "kb_ready s' = kb_ready s" by (rule irq_ready_same_hooks [OF sm])
next
  fix s :: "'a kb_state_scheme"
  assume "x86_loadable env s"
  then obtain a where ready: "kb_ready s" and ports: "2 \<le> length (i8042_ports env)"
    and aff: "get_irq_affinity env PLUGIN_KEYBOARD_INTERRUPT_HARDWARE s = Inr a"
    and mem: "kb_data_ok env (Some (module_plugin env)) s"
    by (auto simp: x86_loadable_def memory_ok_def kb_data_ok_def)
  from keyboard_init_result [OF ready ports aff mem] obtain r s' where
    init: "keyboard_init env (Some (module_plugin env)) s = Inr (r, s')" by blast
  then show "\<exists>r s'. run_x86 env KeyboardInit (module_plugin env) s = Inr (r, s') \<and> kb_ready s'
      \<and> native_handler s' = native_handler s
      \<and> (\<forall>j. hooked s' j \<longrightarrow> hooked s j \<or> j = PLUGIN_KEYBOARD_INTERRUPT_HARDWARE)
      \<and> (\<forall>q. plugin_code (plugin_objs s' q) = plugin_code (plugin_objs s q))"
    using keyboard.init_contract [OF ready init] keepsD [OF keyboard_init_modules init]
    by (auto simp: run_x86_def same_modules_def)
next
  fix s :: "'a kb_state_scheme"
  assume ready: "kb_ready s"
  from keyboard_cleanup_cases [OF ready] obtain s' where
    c: "keyboard_cleanup s = Inr (0, s')" "klog s' = klog s @ [RemoveFilter]" by blast
  then show "\<exists>s'. run_x86 env KeyboardCleanup (module_plugin env) s = Inr (0, s')
      \<and> native_handler s' = native_handler s
      \<and> (\<forall>j. hooked s' j \<longleftrightarrow> hooked s j \<and> j \<noteq> PLUGIN_KEYBOARD_INTERRUPT_HARDWARE)
      \<and> (\<forall>t. timer_armed t s' = timer_armed t s)"
    using keyboard.cleanup_contract [OF ready]
    by (auto simp: run_x86_def timer_armed_def armed_after_append)
next
  fix f p r and s s' :: "'a kb_state_scheme"
  assume "f \<notin> {KeyboardInit, KeyboardCleanup}" and "run_x86 env f p s = Inr (r, s')"
  then have "quiet s s'" using keepsD [OF run_x86_quiet] by blast
  then show "quiet s s' \<and> (kb_ready s \<longrightarrow> kb_ready s')" by (simp add: quiet_kb_ready)
next
  fix x u and s s' :: "'a kb_state_scheme"
  assume "callback_fn (plugin_objs s (module_plugin env)) \<notin> {Some KeyboardInit, Some KeyboardCleanup}"
    and "(if arch_x86 env then x86_input env else (\<lambda>_. retk ())) x s = Inr (u, s')"
  then have "quiet s s'"
    using x86_input_quiet [of s env x u s']
    by (auto simp: module_plugin_def retk_apply quiet_frame.frame_refl split: if_splits)
  then show "quiet s s' \<and> (kb_ready s \<longrightarrow> kb_ready s')" by (simp add: quiet_kb_ready)
next
  fix f p r and s s' :: "'a kb_state_scheme"
  assume "f \<in> {KeyboardInit, KeyboardCleanup}" and "run_x86 env f p s = Inr (r, s')"
  then show "control_file s' = control_file s"
    using keeps_fileD [OF run_x86_file] by blast
qed auto

section \<open>A module on a machine that supports it\<close>

text \<open>
  The machine: an x86 with the i8042 driver, memory, fair entropy, CPUs that fit the mask, and code
  at addresses that can be touched.
\<close>

definition x86_machine :: "kenv \<Rightarrow> bool" where
  "x86_machine env \<longleftrightarrow> arch_x86 env \<and> kb_supported env \<and> fair_entropy env
     \<and> list_all (\<lambda>c. c < 32) (online_cpus env)
     \<and> list_all (\<lambda>a. 0 \<notin> set (prefetched env a 4096))
         [kallsyms_lookup_name env ''i8042_interrupt'', own_code_addr env ''real_key'',
          own_code_addr env ''timer_reset'', own_code_addr env ''timer_restart'']"

definition x86_start :: "kenv \<Rightarrow> 'a kb_state_scheme \<Rightarrow> bool" where
  "x86_start env s \<longleftrightarrow> x86_machine env \<and> x86_loadable env s \<and> (\<forall>j. \<not> hooked s j)
     \<and> (\<forall>j. current_handler s j \<noteq> Some KbHookHandler)"

definition x86_alive :: "kenv \<Rightarrow> 'a kb_state_scheme \<Rightarrow> bool" where
  "x86_alive env s \<longleftrightarrow> x86_machine env \<and> own_hooks KbHookHandler s
     \<and> (\<forall>j. hooked s j \<longrightarrow> j = PLUGIN_KEYBOARD_INTERRUPT_HARDWARE)
     \<and> (\<forall>j. native_handler s j \<noteq> Some KbHookHandler)
     \<and> inject_fn (plugin_objs s plugin_keyboard) = Some KeyboardInject
     \<and> callback_fn (plugin_objs s plugin_keyboard) = Some RealKey
     \<and> kb_irq_handler s = kallsyms_lookup_name env ''i8042_interrupt'' \<and> key_tasklets s"

definition x86_frame :: "'a kb_state_scheme \<Rightarrow> 'a kb_state_scheme \<Rightarrow> bool" where
  "x86_frame s s' \<longleftrightarrow> quiet s s' \<and> kb_irq_handler s' = kb_irq_handler s
     \<and> tasklet_press_notify s' = tasklet_press_notify s \<and> tasklet_release_notify s' = tasklet_release_notify s"

interpretation x86_quiet: frame_relation
  "x86_frame :: 'a kb_state_scheme \<Rightarrow> 'a kb_state_scheme \<Rightarrow> bool"
  by unfold_locales (auto simp: x86_frame_def intro: quiet_frame.frame_refl quiet_frame.frame_trans)

lemma view_x86_frame: "same_plugin_view s s' \<Longrightarrow> x86_frame s s'"
  using view_quiet [of s s'] by (cases s; cases s') (simp add: x86_frame_def same_plugin_view_def)

lemma x86_frame_hooks: "x86_frame s s' \<Longrightarrow> same_hooks s s'"
  by (simp add: x86_frame_def quiet_def)

lemma x86_alive_frame: "x86_frame s s' \<Longrightarrow> x86_alive env s' = x86_alive env s"
proof -
  assume f: "x86_frame s s'"
  then have sm: "same_hooks s s'" and code: "plugin_code (plugin_objs s' plugin_keyboard) = plugin_code (plugin_objs s plugin_keyboard)"
    and h: "kb_irq_handler s' = kb_irq_handler s" and t: "key_tasklets s' = key_tasklets s"
    by (simp_all add: x86_frame_def quiet_def key_tasklets_def)
  show "x86_alive env s' = x86_alive env s"
    by (simp add: x86_alive_def own_hooks_same [OF sm] same_hooksD [OF sm] plugin_code_fns [OF code] h t)
qed

text \<open>The calls a running module can make.\<close>

definition x86_call_ok :: "kenv \<Rightarrow> kcall \<Rightarrow> bool" where
  "x86_call_ok env c \<longleftrightarrow> module_call_ok KbHookHandler 0 100 c
     \<or> (case c of SerioInterrupt port b \<Rightarrow> b = 0x5d \<or> b = 0xdd
         | SmpCallInject cpu \<Rightarrow> cpu \<in> set (online_cpus env) | _ \<Rightarrow> False)"

lemma module_x86_call_ok: "list_all (module_call_ok KbHookHandler 0 100) cs \<Longrightarrow> list_all (x86_call_ok env) cs"
  by (auto simp: list_all_iff x86_call_ok_def)

lemma prefetch_ok: "0 \<notin> set as \<Longrightarrow> list_all (x86_call_ok env) (map PrefetchTouch as)"
  by (rule module_x86_call_ok) (rule module_call_ok_prefetch)

lemma kb_callback_real:
  fixes s :: "'a kb_state_scheme"
  assumes "callback_fn (plugin_objs s plugin_keyboard) = Some RealKey"
    and "drawable env RND_MIN RND_MAX s"
    and "0 \<notin> set (prefetched env (own_code_addr env ''timer_restart'') 4096)"
  shows "\<exists>ns s'. kb_callback (run_x86 env) press s = Inr ((), s') \<and> ns \<le> 20000000 \<and> x86_frame s s'
     \<and> faketimer_running s' = 1 \<and> klog s' = klog s @ real_input_calls env (faketimer_running s) ns"
proof -
  let ?s1 = "s\<lparr>kb_event := (kb_event s)\<lparr>event_type := (if press then KEY_PRESS else KEY_RELEASE)\<rparr>\<rparr>"
  have "drawable env RND_MIN RND_MAX ?s1" using assms(2) drawable_cong [of ?s1 s] by simp
  from real_input_returns [OF this assms(3)] obtain ns s' where
    s': "real_key env ?s1 = Inr (0, s')" "ns \<le> 20000000" "faketimer_running s' = 1"
    "klog s' = klog s @ real_input_calls env (faketimer_running s) ns" by auto
  have "x86_frame s ?s1" by (simp add: x86_frame_def quiet_iff)
  moreover have "x86_frame ?s1 s'" by (rule view_x86_frame, rule keepsD [OF keeps_view_real(1) s'(1)])
  ultimately have "x86_frame s s'" by (rule x86_quiet.frame_trans)
  with s' show ?thesis
    using assms(1)
    by (intro exI [of _ ns] exI [of _ s'])
       (simp add: kb_callback_def run_x86_def seqk_def bindk_def modk_apply readk_apply retk_apply)
qed

definition tick_calls :: "kenv \<Rightarrow> 'a kb_state_scheme \<Rightarrow> nat \<Rightarrow> kcall list" where
  "tick_calls env s ns =
     (if bit (injection s) 0
      then keyboard_inject_calls env s @ map PrefetchTouch (prefetched env (own_code_addr env ''real_key'') 4096)
      else [])
     @ map PrefetchTouch (prefetched env (own_code_addr env ''timer_reset'') 4096)
     @ [HrtimerForwardNow MainTimer (KtimeSet 0 ns)]"

lemma x86_tick:
  fixes s :: "'a kb_state_scheme"
  assumes "arch_x86 env" and "inject_fn (plugin_objs s plugin_keyboard) = Some KeyboardInject"
    and "drawable env RND_MIN RND_MAX s" and "\<And>c. c \<in> set (online_cpus env) \<Longrightarrow> c < 32"
    and "\<And>a. a \<in> {kb_irq_handler s, own_code_addr env ''real_key'', own_code_addr env ''timer_reset''} \<Longrightarrow>
           0 \<notin> set (prefetched env a 4096)"
  shows "\<exists>ns s'. timer_function (run_x86 env) env s = Inr (HRTIMER_RESTART, s') \<and> ns \<le> 20000000
     \<and> klog s' = klog s @ tick_calls env s ns \<and> x86_frame s s'"
proof -
  have bit0: "injection s AND STATE_INJECT \<noteq> 0 \<longleftrightarrow> bit (injection s) 0"
    using and_exp_eq_0_iff_not_bit [of "injection s" 0] by (simp add: STATE_INJECT_def)
  let ?cs = "if bit (injection s) 0 then keyboard_inject_calls env s
      @ map PrefetchTouch (prefetched env (own_code_addr env ''real_key'') 4096) else []"
  let ?s1 = "s\<lparr>interrupt_number := (if bit (injection s) 0 \<and> online_cpus env \<noteq> [] then 49 else interrupt_number s),
      klog := klog s @ ?cs\<rparr>"
  have s1: "(if injection s AND STATE_INJECT \<noteq> 0 then timer_inject (run_x86 env) env else retk ()) s = Inr ((), ?s1)"
    unfolding bit0
    using assms(1,2)
    by (auto simp: timer_inject_def run_x86_def Let_def bindk_def seqk_def readk_apply derefk_Some
        retk_apply keyboard_inject_apply [OF assms(4)] assms(5) prefetch_range_ok)
  have frame1: "x86_frame s ?s1"
    by (simp add: x86_frame_def quiet_iff same_hooks_def same_modules_def same_registry_def)
  let ?s2 = "?s1\<lparr>klog := klog ?s1 @ map PrefetchTouch (prefetched env (own_code_addr env ''timer_reset'') 4096)\<rparr>"
  have frame2: "x86_frame ?s1 ?s2"
    by (rule view_x86_frame) (simp add: same_plugin_view_def same_hooks_def same_registry_def)
  have "drawable env RND_MIN RND_MAX ?s2" using assms(3) by (simp add: drawable_def)
  from timer_restart_returns [OF this] obtain r s' where
    s': "timer_restart env ?s2 = Inr (HRTIMER_RESTART, s')" "unat r \<le> 20000000"
    "klog s' = klog ?s2 @ [HrtimerForwardNow MainTimer (KtimeSet 0 (unat (r :: u32)))]" by blast
  have "x86_frame ?s2 s'" by (rule view_x86_frame, rule keepsD [OF keeps_view_timers(3) s'(1)])
  with frame1 frame2 have "x86_frame s s'" by (blast intro: x86_quiet.frame_trans)
  with s1 s' show ?thesis
    by (intro exI [of _ "unat r"] exI [of _ s'])
       (simp add: timer_function_def bindk_def seqk_def readk_apply prefetch_range_ok assms(5) tick_calls_def)
qed

text \<open>Every event of a live module returns, keeps it alive and makes allowed calls only.\<close>

lemma x86_machineD:
  assumes "x86_machine env"
  shows "arch_x86 env" "kb_supported env" "fair_entropy env" "c \<in> set (online_cpus env) \<Longrightarrow> c < 32"
    "a \<in> {kallsyms_lookup_name env ''i8042_interrupt'', own_code_addr env ''real_key'',
       own_code_addr env ''timer_reset'', own_code_addr env ''timer_restart''} \<Longrightarrow>
       0 \<notin> set (prefetched env a 4096)"
  using assms by (auto simp: x86_machine_def list_all_iff)

lemma x86_period_drawable: "x86_machine env \<Longrightarrow> drawable env RND_MIN RND_MAX s"
  by (rule fair_drawable) (auto simp: RND_MIN_def RND_MAX_def dest: x86_machineD)

lemma x86_tick_alive:
  fixes s :: "'a kb_state_scheme"
  assumes "x86_alive env s"
  shows "\<exists>s' cs. timer_function (run_x86 env) env s = Inr (HRTIMER_RESTART, s') \<and> x86_alive env s'
     \<and> same_hooks s s' \<and> klog s' = klog s @ cs \<and> list_all (x86_call_ok env) cs"
proof -
  have m: "x86_machine env" and inj: "inject_fn (plugin_objs s plugin_keyboard) = Some KeyboardInject"
    and h: "kb_irq_handler s = kallsyms_lookup_name env ''i8042_interrupt''"
    using assms by (simp_all add: x86_alive_def)
  have touch: "a \<in> {kb_irq_handler s, own_code_addr env ''real_key'', own_code_addr env ''timer_reset''} \<Longrightarrow>
           0 \<notin> set (prefetched env a 4096)" for a
    using x86_machineD(5) [OF m] h by auto
  from x86_tick [OF x86_machineD(1) [OF m] inj x86_period_drawable [OF m] x86_machineD(4) [OF m] touch]
  obtain ns s' where s': "timer_function (run_x86 env) env s = Inr (HRTIMER_RESTART, s')" "ns \<le> 20000000"
    "klog s' = klog s @ tick_calls env s ns" "x86_frame s s'" by blast
  have "list_all (x86_call_ok env) (map SmpCallInject (filter (\<lambda>c. bit (kb_affinity s) c) (online_cpus env)))"
    by (simp add: list_all_iff x86_call_ok_def)
  then have "list_all (x86_call_ok env) (keyboard_inject_calls env s)"
    using prefetch_ok [OF touch [of "kb_irq_handler s"], of env]
    by (simp add: keyboard_inject_calls_def) (simp add: x86_call_ok_def)
  then have "list_all (x86_call_ok env) (tick_calls env s ns)"
    using s'(2) prefetch_ok [OF touch] by (simp add: tick_calls_def) (simp add: x86_call_ok_def)
  with s' assms show ?thesis by (auto simp: x86_alive_frame x86_frame_hooks)
qed

lemma x86_key_alive:
  fixes s :: "'a kb_state_scheme"
  assumes "x86_alive env s"
  shows "\<exists>s' cs. kb_callback (run_x86 env) press s = Inr ((), s') \<and> x86_alive env s'
     \<and> same_hooks s s' \<and> klog s' = klog s @ cs \<and> list_all (x86_call_ok env) cs"
proof -
  have m: "x86_machine env" and cb: "callback_fn (plugin_objs s plugin_keyboard) = Some RealKey"
    using assms by (simp_all add: x86_alive_def)
  have touch: "0 \<notin> set (prefetched env (own_code_addr env ''timer_restart'') 4096)"
    by (rule x86_machineD(5) [OF m]) simp
  from kb_callback_real [OF cb x86_period_drawable [OF m] touch, of press] obtain ns s' where
    s': "kb_callback (run_x86 env) press s = Inr ((), s')" "ns \<le> 20000000" "x86_frame s s'"
      "klog s' = klog s @ real_input_calls env (faketimer_running s) ns" by blast
  moreover have "list_all (x86_call_ok env) (real_input_calls env (faketimer_running s) ns)"
    by (rule module_x86_call_ok) (rule module_call_ok_input [OF touch s'(2)])
  ultimately show ?thesis using assms by (auto simp: x86_alive_frame x86_frame_hooks)
qed

lemma x86_irq_alive:
  fixes s :: "'a kb_state_scheme"
  assumes "x86_alive env s"
  shows "\<exists>s' cs. deliver_irq KbHookHandler (kb_hook_handler env call_flow) j s = Inr ((), s')
     \<and> x86_alive env s' \<and> same_hooks s s' \<and> klog s' = klog s @ cs \<and> list_all (x86_call_ok env) cs"
proof -
  have m: "x86_machine env" and own: "own_hooks KbHookHandler s" and nat: "native_handler s j \<noteq> Some KbHookHandler"
    and only: "\<And>j. hooked s j \<Longrightarrow> j = PLUGIN_KEYBOARD_INTERRUPT_HARDWARE"
    using assms by (simp_all add: x86_alive_def)
  have draw: "drawable env 0 100 s" by (rule fair_drawable [OF x86_machineD(3) [OF m]]) simp
  from irq_returns [OF own only draw _ nat] obtain s' cs where
    s': "deliver_irq KbHookHandler (kb_hook_handler env call_flow) j s = Inr ((), s')" "same_plugin_view s s'"
      "klog s' = klog s @ cs" "list_all (module_call_ok KbHookHandler 0 100) cs"
    unfolding kb_hook_handler_delayed by auto
  have "x86_alive env s'" using assms x86_alive_frame [OF view_x86_frame [OF s'(2)]] by simp
  moreover have "same_hooks s s'" using s'(2) by (simp add: same_plugin_view_def)
  ultimately show ?thesis using s' module_x86_call_ok by blast
qed

lemma x86_alive_event:
  fixes s :: "'a kb_state_scheme"
  assumes "x86_alive env s"
  shows "\<exists>s' cs. exec_event (run_x86 env) env (if arch_x86 env then x86_input env else (\<lambda>_. retk ())) ev s = Inr ((), s')
     \<and> x86_alive env s' \<and> same_hooks s s' \<and> klog s' = klog s @ cs \<and> list_all (x86_call_ok env) cs"
proof -
  have arch: "arch_x86 env" using assms by (simp add: x86_alive_def x86_machine_def)
  show ?thesis
  proof (cases ev)
    case (WriteControl parsed n)
    have "x86_alive env (s\<lparr>injection := v\<rparr>)" for v
      using assms x86_alive_frame [of s "s\<lparr>injection := v\<rparr>" env] by (simp add: view_x86_frame)
    with WriteControl arch assms show ?thesis
      by (cases parsed) (auto simp: exec_event_def keydrown_write_def seqk_def bindk_def retk_apply modk_apply)
  next
    case TimerTick
    with x86_tick_alive [OF assms] show ?thesis by (auto simp: exec_event_def seqk_def bindk_def retk_apply)
  next
    case (Input x)
    then show ?thesis
      using arch x86_key_alive [OF assms] x86_irq_alive [OF assms]
      by (cases x) (simp_all add: exec_event_def x86_input_def kb_tasklet_def)
  next
    case FakeTick
    have "x86_frame s (s\<lparr>faketimer_running := 0\<rparr>)" by (rule view_x86_frame) simp
    with FakeTick assms show ?thesis
      by (auto simp: exec_event_def faketimer_function_def seqk_def bindk_def retk_apply modk_apply x86_alive_frame)
  qed
qed

lemma x86_start_alive:
  fixes s :: "'a kb_state_scheme"
  assumes "x86_start env s"
    and "plugin_objs s plugin_keyboard = plugin_keyboard_object\<lparr>plugin_id := 0, callback_fn := Some RealKey\<rparr>"
    and init: "keyboard_init env (Some plugin_keyboard) s = Inr (r, s')"
  shows "x86_alive env s'"
proof -
  let ?i = PLUGIN_KEYBOARD_INTERRUPT_HARDWARE
  have m: "x86_machine env" and ready: "kb_ready s" and free: "\<And>j. \<not> hooked s j"
    and foreign: "\<And>j. current_handler s j \<noteq> Some KbHookHandler"
    using assms(1) by (simp_all add: x86_start_def x86_loadable_def)
  have own: "own_hooks KbHookHandler s"
    using ready free foreign by (simp add: own_hooks_def irq_ready_def)
  have nat: "native_handler s = current_handler s"
    using free by (simp add: fun_eq_iff native_handler_def current_handler_def)
  have hooks: "own_hooks KbHookHandler s' \<and> native_handler s' = native_handler s \<and> (\<forall>j. hooked s' j \<longrightarrow> j = ?i)"
    using keyboard_init_cases [OF ready init]
  proof (elim disjE conjE)
    assume able: "hookable ?i s" and sm: "same_hooks (hook_upd ?i (Some KbHookHandler) s) s'"
    then show ?thesis
      using own_hooks_hook_upd [OF own able] free
      by (simp add: own_hooks_same [OF sm] same_hooksD [OF sm] native_hook_upd [OF able] hooked_hook_upd [OF able])
  next
    assume sm: "same_hooks s s'"
    then show ?thesis using own free by (simp add: own_hooks_same [OF sm] same_hooksD [OF sm])
  qed
  have code: "plugin_code (plugin_objs s' plugin_keyboard) = plugin_code (plugin_objs s plugin_keyboard)"
    using keepsD [OF keyboard_init_modules init] by (simp add: same_modules_def)
  have "kb_irq_handler s' = kallsyms_lookup_name env ''i8042_interrupt''"
    by (rule keyboard_init_handler [OF init])
  moreover have "key_tasklets s'"
    using keyboard_init_tasklets [OF x86_machineD(2) [OF m] _ init] assms(1)
    by (simp add: x86_start_def x86_loadable_def)
  ultimately show ?thesis
    using m hooks foreign by (simp add: x86_alive_def plugin_code_fns [OF code] assms(2) nat plugin_keyboard_object_def)
qed

interpretation x86_running: running_module "run_x86 env" env PLUGIN_KEYBOARD_INTERRUPT_HARDWARE
  KeyboardInit KeyboardCleanup "if arch_x86 env then RealKey else RealTouchpad"
  "if arch_x86 env then x86_input env else (\<lambda>_. retk ())" "x86_loadable env" kb_ready
  "x86_start env" "x86_alive env" plugin_keyboard_object "x86_call_ok env" for env
proof unfold_locales
  fix s s' :: "'a kb_state_scheme"
  assume l: "same_linked s s'"
  then have sm: "same_hooks s s'" by (simp add: same_linked_def)
  show "x86_start env s' = x86_start env s"
    using x86.loadable_view [OF l, of env] by (simp add: x86_start_def same_hooksD [OF sm])
next
  fix s s' :: "'a kb_state_scheme"
  assume "same_plugin_view s s'"
  then show "x86_alive env s' = x86_alive env s" by (intro x86_alive_frame view_x86_frame)
next
  fix s s' :: "'a kb_state_scheme" and r
  assume start: "x86_start env s" and "plugin_objs s (module_plugin env) = plugin_keyboard_object\<lparr>plugin_id := 0,
      callback_fn := Some (if arch_x86 env then RealKey else RealTouchpad)\<rparr>"
    and "run_x86 env KeyboardInit (module_plugin env) s = Inr (r, s')"
  moreover have "arch_x86 env" using start by (simp add: x86_start_def x86_machine_def)
  ultimately show "x86_alive env s'"
    using x86_start_alive [OF start, of r s'] by (simp add: module_plugin_def run_x86_def)
next
  fix s :: "'a kb_state_scheme" and ev
  assume "x86_alive env s"
  then show "\<exists>s' cs. exec_event (run_x86 env) env (if arch_x86 env then x86_input env else (\<lambda>_. retk ())) ev s
      = Inr ((), s') \<and> x86_alive env s' \<and> same_hooks s s' \<and> klog s' = klog s @ cs \<and> list_all (x86_call_ok env) cs"
    by (rule x86_alive_event)
next
  fix c assume "x86_call_ok env c"
  then show "\<not> proc_call c"
    using module_call_no_proc by (auto simp: x86_call_ok_def split: kcall.splits)
qed (auto simp: x86_start_def linked_object_def well_typed_plugin_def slot_typed_def plugin_keyboard_object_def)

section \<open>What a run shows\<close>

lemma keyboard_inject_timing: "keeps same_timing (keyboard_inject env :: ('a kb_state_scheme, int) kprog)"
  by (auto simp: keyboard_inject_def send_scancode_def keyboard_inject_cpu_def same_timing_def quiet_call_def
      intro!: timing_frame.keeps_rules keeps_timing_emit keeps_timing_prefetch)

lemma x86_alive_shows:
  fixes s :: "'a kb_state_scheme"
  assumes "x86_alive env s"
    and run: "exec_event (run_x86 env) env (if arch_x86 env then x86_input env else (\<lambda>_. retk ())) ev s = Inr ((), s')"
  shows "timed env 0 100 (timing_class ev) s s' \<and> arms ev s s'"
proof -
  have m: "x86_machine env" and arch: "arch_x86 env" and own: "own_hooks KbHookHandler s"
    and only: "\<And>j. hooked s j \<Longrightarrow> j = PLUGIN_KEYBOARD_INTERRUPT_HARDWARE"
    and fns: "inject_fn (plugin_objs s plugin_keyboard) = Some KeyboardInject"
      "callback_fn (plugin_objs s plugin_keyboard) = Some RealKey"
    using assms(1) by (simp_all add: x86_alive_def x86_machine_def)
  have p: "module_plugin env = plugin_keyboard" using arch by (simp add: module_plugin_def)
  show ?thesis
  proof (cases ev)
    case (WriteControl parsed n)
    with run arch show ?thesis
      by (cases parsed) (auto simp: exec_event_def keydrown_write_def seqk_def bindk_def retk_apply modk_apply
          timed_def same_timing_def intro!: arms_nothing [of _ _ _ "[]"])
  next
    case TimerTick
    with run obtain r where tick: "timer_function (run_x86 env) env s = Inr (r, s')"
      by (auto simp: exec_event_def seqk_Inr_iff retk_apply)
    have "keeps same_timing (run_x86 env KeyboardInject (module_plugin env) :: ('a kb_state_scheme, int) kprog)"
      by (simp add: run_x86_def keyboard_inject_timing)
    note silent = timer_inject_silent [where run = "run_x86 env", OF fns(1) [folded p] this]
    show ?thesis
      using TimerTick timer_function_timed [OF silent tick] timer_function_arms [OF silent tick] by simp
  next
    case (Input x)
    show ?thesis
    proof (cases x)
      case (Tasklet press)
      let ?s1 = "s\<lparr>kb_event := (kb_event s)\<lparr>event_type := (if press then KEY_PRESS else KEY_RELEASE)\<rparr>\<rparr>"
      have "kb_callback (run_x86 env) press s = Inr ((), s')"
        using run Input Tasklet arch by (simp add: exec_event_def x86_input_def kb_tasklet_def split: if_splits)
      then obtain r where key: "real_key env ?s1 = Inr (r, s')"
        using fns(2) by (auto simp: kb_callback_def run_x86_def seqk_Inr_iff bindk_Inr_iff modk_apply readk_apply retk_apply)
      have same: "same_timing s ?s1" by (simp add: same_timing_def)
      show ?thesis
        using Input Tasklet period_silent(1) [OF same real_key_timed [OF key]]
          arms_silent [OF same real_key_arms [OF key] timing_frame.frame_refl] by simp
    next
      case (Irq j)
      have draw: "drawable env 0 100 s" by (rule fair_drawable [OF x86_machineD(3) [OF m]]) simp
      have "deliver_irq KbHookHandler (delayed_handler env 0 100 PLUGIN_KEYBOARD_INTERRUPT_HARDWARE call_flow) j s
          = Inr ((), s')"
        using run Input Irq arch by (simp add: exec_event_def x86_input_def kb_hook_handler_delayed)
      from deliver_irq_timed [OF own only draw _ this] irq_arms [OF own only draw _ this] Input Irq
      show ?thesis by simp
    qed
  next
    case FakeTick
    with run obtain r where "faketimer_function s = Inr (r, s')"
      by (auto simp: exec_event_def seqk_Inr_iff retk_apply)
    from keepsD [OF keeps_timing_faketimer this] faketimer_arms [OF this] FakeTick show ?thesis
      by (simp add: timed_def)
  qed
qed

interpretation x86_timed: timed_module "run_x86 env" env PLUGIN_KEYBOARD_INTERRUPT_HARDWARE
  KeyboardInit KeyboardCleanup "if arch_x86 env then RealKey else RealTouchpad"
  "if arch_x86 env then x86_input env else (\<lambda>_. retk ())" "x86_loadable env" kb_ready
  "x86_start env" "x86_alive env" plugin_keyboard_object "x86_call_ok env" 0 100 for env
  by unfold_locales (simp add: x86_alive_shows)

section \<open>Properties\<close>

definition demo_x86_env :: kenv where
  "demo_x86_env = demo_env\<lparr>vmalloc_result := (\<lambda>_. 0x2000)\<rparr>"

lemma demo_x86_loadable: "x86_loadable demo_x86_env demo_kb_state"
proof -
  have "get_irq_affinity demo_x86_env PLUGIN_KEYBOARD_INTERRUPT_HARDWARE demo_kb_state = Inr 5"
    by (simp add: get_irq_affinity_def irq_to_desc_def demo_x86_env_def demo_env_def demo_kb_defs
        demo_desc_def PLUGIN_KEYBOARD_INTERRUPT_HARDWARE_def kernel_version_def)
  then show ?thesis
    by (simp add: x86_loadable_def demo_kb_ready memory_ok_def)
       (simp add: demo_x86_env_def demo_env_def)
qed

lemma demo_kb_linked: "linked_object KeyboardInit KeyboardCleanup (plugin_objs demo_kb_state p)"
  by (simp add: linked_object_def well_typed_plugin_def slot_typed_def demo_kb_defs plugin_keyboard_object_def)

lemma demo_kb_empty: "empty_registry demo_kb_state"
  by (simp add: empty_registry_def demo_kb_defs)

text \<open>The clean-up of the plugin leaves no key filter.\<close>

lemma keyboard_cleanup_unfiltered:
  fixes sx s3 :: "'a kb_state_scheme"
  assumes "kb_ready sx" and "run_x86 env KeyboardCleanup p sx = Inr (0, s3)"
  shows "\<not> filter_installed env s3"
  using keyboard_cleanup_cases [OF assms(1)] assms(2)
  by (auto simp: run_x86_def filter_installed_def filter_after_append)

text \<open>
  On any machine (no driver, unfair entropy): if the events of the loaded module return, so does
  unloading it, and nothing of it is left.
\<close>

lemma x86_module_unloads:
  assumes "arch_x86 env" and "empty_registry s" and "x86_loadable env s" and "\<And>j. \<not> hooked s j"
    and "linked_object KeyboardInit KeyboardCleanup (plugin_objs s plugin_keyboard)"
  shows "\<exists>s1. inthide_init (run_x86 env) env True s = Inr (0, s1) \<and> timer_armed MainTimer s1
     \<and> (\<forall>evs s2. for_eachk evs (exec_event (run_x86 env) env (x86_input env)) s1 = Inr ((), s2) \<longrightarrow>
          (\<exists>s3. inthide_exit (run_x86 env) env s2 = Inr ((), s3) \<and> (\<forall>j. \<not> hooked s3 j)
             \<and> current_handler s3 = current_handler s \<and> \<not> filter_installed env s3
             \<and> \<not> timer_armed MainTimer s3 \<and> \<not> control_file s3))"
proof -
  have p: "module_plugin env = plugin_keyboard" using assms(1) by (simp add: module_plugin_def)
  have un: "\<exists>sx :: 'a kb_state_scheme. kb_ready sx \<and> run_x86 env KeyboardCleanup plugin_keyboard sx = Inr (0, s3)
      \<Longrightarrow> \<not> filter_installed env s3" for s3
    using keyboard_cleanup_unfiltered by blast
  from x86.load_run_unload [OF assms(2) assms(5) [folded p] assms(3,4)] assms(1)
  show ?thesis unfolding p by (simp only: if_True) (meson un)
qed

text \<open>
  C1. The life of the x86 module, on a machine with the i8042 driver, fair entropy and code that can
  be touched, whose interrupt descriptors hold no handler of the module. Loading succeeds with the
  injection timer armed. Any run of events (writes to the control file, keyboard tasklets, any
  interrupts delivered to whatever handlers they have, both timers firing) returns, and makes only
  allowed calls: timers set to at most 20 ms, delays of at most 100 microseconds, no call of the
  module's own handler by itself, the two illegal scancodes as the only injected bytes, injections
  on online CPUs only; the control file is there. After it, unloading returns: no interrupt is hooked
  any more, every interrupt has the handler it had before the load, no key filter is installed, the
  injection timer is not armed and the control file is gone.
\<close>

theorem x86_module_life:
  assumes "x86_start env s" and "empty_registry s"
    and "plugin_objs s plugin_keyboard = plugin_keyboard_object"
  shows "\<exists>s1. inthide_init (run_x86 env) env True s = Inr (0, s1) \<and> timer_armed MainTimer s1
     \<and> (\<forall>evs. \<exists>s2 cs s3. for_eachk evs (exec_event (run_x86 env) env (x86_input env)) s1 = Inr ((), s2)
          \<and> klog s2 = klog s1 @ cs \<and> list_all (x86_call_ok env) cs \<and> control_file s2
          \<and> inthide_exit (run_x86 env) env s2 = Inr ((), s3) \<and> (\<forall>j. \<not> hooked s3 j)
          \<and> current_handler s3 = current_handler s \<and> \<not> filter_installed env s3
          \<and> \<not> timer_armed MainTimer s3 \<and> \<not> control_file s3)"
proof -
  have arch: "arch_x86 env" using assms(1) by (simp add: x86_start_def x86_machine_def)
  then have p: "module_plugin env = plugin_keyboard" by (simp add: module_plugin_def)
  have un: "\<exists>sx :: 'a kb_state_scheme. kb_ready sx \<and> run_x86 env KeyboardCleanup plugin_keyboard sx = Inr (0, s3)
      \<Longrightarrow> \<not> filter_installed env s3" for s3
    using keyboard_cleanup_unfiltered by blast
  from x86_running.life [OF assms(2) assms(3) [folded p] assms(1)] arch
  show ?thesis unfolding p by (simp only: if_True) (meson un)
qed

lemma demo_x86_start: "x86_start demo_x86_env demo_kb_state"
proof -
  have "x86_machine demo_x86_env"
    using demo_fair by (simp add: x86_machine_def prefetched_nonzero demo_x86_env_def demo_env_def
        kb_supported_def fair_entropy_def)
  then show ?thesis
    by (simp add: x86_start_def demo_x86_loadable demo_kb_not_hooked)
       (simp add: current_handler_def demo_kb_defs demo_desc_def)
qed

theorem x86_module_life_witness:
  "\<exists>s1. inthide_init (run_x86 demo_x86_env) demo_x86_env True demo_kb_state = Inr (0, s1) \<and> timer_armed MainTimer s1
     \<and> (\<forall>evs. \<exists>s2 cs s3. for_eachk evs (exec_event (run_x86 demo_x86_env) demo_x86_env (x86_input demo_x86_env)) s1
              = Inr ((), s2)
          \<and> klog s2 = klog s1 @ cs \<and> list_all (x86_call_ok demo_x86_env) cs \<and> control_file s2
          \<and> inthide_exit (run_x86 demo_x86_env) demo_x86_env s2 = Inr ((), s3) \<and> (\<forall>j. \<not> hooked s3 j)
          \<and> current_handler s3 = current_handler demo_kb_state \<and> \<not> filter_installed demo_x86_env s3
          \<and> \<not> timer_armed MainTimer s3 \<and> \<not> control_file s3)"
  by (rule x86_module_life [OF demo_x86_start demo_kb_empty]) (simp add: demo_kb_defs)



text \<open>
  The path of a real key, from the byte of the keyboard to the timers: the filter lets the
  byte through and schedules one tasklet; that tasklet, run in any later state in which a period
  can be drawn, starts the fake timer unless one is pending, so that the injection timer's
  interrupt is replaced, and restarts the injection timer with a fresh period of at most 20 ms.
\<close>

theorem real_key_path:
  assumes "tasklet_press_notify s = Some KbPressNotify" and "tasklet_release_notify s = Some KbReleaseNotify"
    and "\<not> bit str 5" and "callback_fn (plugin_objs t plugin_keyboard) = Some RealKey"
    and "drawable env RND_MIN RND_MAX t"
    and "0 \<notin> set (prefetched env (own_code_addr env ''timer_restart'') 4096)"
  shows "\<exists>s' tasklet. key_filter data str s = Inr (False, s') \<and> klog s' = klog s @ [TaskletSchedule tasklet]
     \<and> (\<exists>t' ns. kb_tasklet (run_x86 env) tasklet t = Inr ((), t') \<and> ns \<le> 20000000
          \<and> faketimer_running t' = 1
          \<and> klog t' = klog t @ real_input_calls env (faketimer_running t) ns)"
proof -
  have "str AND 0x20 = 0"
    using assms(3) and_exp_eq_0_iff_not_bit [of str 5] by simp
  then obtain tasklet where "tasklet \<in> {KbPressNotify, KbReleaseNotify}"
    "key_filter data str s = Inr (False, s\<lparr>klog := klog s @ [TaskletSchedule tasklet]\<rparr>)"
    using assms(1,2)
    by (cases "data AND 0x80 = 0")
       (auto simp: key_filter_def I8042_STR_AUXDATA_def seqk_def bindk_def kprog_simps)
  then show ?thesis
    using kb_callback_real [OF assms(4-6)] by (fastforce simp: kb_tasklet_def)
qed

definition demo_x86_loaded :: kb_state where
  "demo_x86_loaded = demo_kb_state\<lparr>plugin_objs := (\<lambda>_. plugin_keyboard_object\<lparr>callback_fn := Some RealKey\<rparr>),
     injection := 1\<rparr>"

lemma demo_x86_draw: "drawable demo_x86_env RND_MIN RND_MAX demo_x86_loaded"
  by (simp add: drawable_def RND_MIN_def RND_MAX_def rand_truncation_def demo_x86_env_def demo_env_def
      demo_x86_loaded_def demo_kb_defs)
     (rule exI [of _ 0], simp)

theorem real_key_path_witness:
  "\<exists>s' tasklet. key_filter 0x1e 0x1d demo_kb_state = Inr (False, s')
     \<and> klog s' = klog demo_kb_state @ [TaskletSchedule tasklet]
     \<and> (\<exists>t' ns. kb_tasklet (run_x86 demo_x86_env) tasklet demo_x86_loaded = Inr ((), t') \<and> ns \<le> 20000000
          \<and> faketimer_running t' = 1
          \<and> klog t' = klog demo_x86_loaded @ real_input_calls demo_x86_env (faketimer_running demo_x86_loaded) ns)"
proof (rule real_key_path [OF _ _ _ _ demo_x86_draw])
  show "0 \<notin> set (prefetched demo_x86_env (own_code_addr demo_x86_env ''timer_restart'') 4096)"
    by (simp add: prefetched_nonzero demo_x86_env_def demo_env_def)
qed (simp_all add: demo_kb_defs demo_x86_loaded_def bit_simps)

text \<open>
  One tick of the injection timer: it always re-arms itself with a fresh period of at most
  20 ms, and it injects a fake key exactly when bit 0 of the control state is set. In particular
  an even value other than 0 injects nothing, although writing it is announced as activation.
\<close>

theorem x86_timer_tick:
  assumes "arch_x86 env" and "inject_fn (plugin_objs s plugin_keyboard) = Some KeyboardInject"
    and "drawable env RND_MIN RND_MAX s" and "\<And>c. c \<in> set (online_cpus env) \<Longrightarrow> c < 32"
    and "\<And>a. a \<in> {kb_irq_handler s, own_code_addr env ''real_key'', own_code_addr env ''timer_reset''} \<Longrightarrow>
           0 \<notin> set (prefetched env a 4096)"
  shows "\<exists>ns s'. timer_function (run_x86 env) env s = Inr (HRTIMER_RESTART, s') \<and> ns \<le> 20000000
     \<and> klog s' = klog s
        @ (if bit (injection s) 0
           then keyboard_inject_calls env s
                @ map PrefetchTouch (prefetched env (own_code_addr env ''real_key'') 4096)
           else [])
        @ map PrefetchTouch (prefetched env (own_code_addr env ''timer_reset'') 4096)
        @ [HrtimerForwardNow MainTimer (KtimeSet 0 ns)]"
proof -
  obtain ns s' where "ns \<le> 20000000" "timer_function (run_x86 env) env s = Inr (HRTIMER_RESTART, s')"
    "klog s' = klog s @ tick_calls env s ns"
    using x86_tick [OF assms] by blast
  then show ?thesis by (auto simp: tick_calls_def)
qed

theorem x86_timer_tick_witness:
  "\<exists>ns s'. timer_function (run_x86 demo_x86_env) demo_x86_env demo_x86_loaded = Inr (HRTIMER_RESTART, s')
     \<and> ns \<le> 20000000
     \<and> klog s' = klog demo_x86_loaded
        @ (if bit (injection demo_x86_loaded) 0
           then keyboard_inject_calls demo_x86_env demo_x86_loaded
                @ map PrefetchTouch (prefetched demo_x86_env (own_code_addr demo_x86_env ''real_key'') 4096)
           else [])
        @ map PrefetchTouch (prefetched demo_x86_env (own_code_addr demo_x86_env ''timer_reset'') 4096)
        @ [HrtimerForwardNow MainTimer (KtimeSet 0 ns)]"
proof (rule x86_timer_tick [OF _ _ demo_x86_draw])
  show "a \<in> {kb_irq_handler demo_x86_loaded, own_code_addr demo_x86_env ''real_key'',
      own_code_addr demo_x86_env ''timer_reset''} \<Longrightarrow> 0 \<notin> set (prefetched demo_x86_env a 4096)" for a
    by (rule prefetched_nonzero) (auto simp: demo_x86_env_def demo_env_def demo_x86_loaded_def demo_kb_defs)
qed (auto simp: demo_x86_env_def demo_env_def demo_x86_loaded_def plugin_keyboard_object_def)

text \<open>
  C34. A failed plugin initialisation is ignored: on a machine without the 8042 driver the module
  still loads, and the first tick of its timer after injection is switched on follows a null
  pointer.
\<close>

theorem failed_init_ignored:
  assumes "arch_x86 env" and "empty_registry s" and "x86_loadable env s" and "\<And>j. \<not> hooked s j"
    and "plugin_objs s plugin_keyboard = plugin_keyboard_object"
    and "kallsyms_lookup_name env ''i8042_interrupt'' = 0"
    and "\<And>c. c \<in> set (online_cpus env) \<Longrightarrow> c < 32" and "sizeof_size_t env = 8"
  shows "\<exists>s1 s2. inthide_init (run_x86 env) env True s = Inr (0, s1)
     \<and> keydrown_write (run_x86 env) env (Some 1) 2 s1 = Inr (2, s2)
     \<and> timer_function (run_x86 env) env s2 = Inl NullDeref"
proof -
  have p: "module_plugin env = plugin_keyboard" using assms(1) by (simp add: module_plugin_def)
  have "linked_object KeyboardInit KeyboardCleanup (plugin_objs s (module_plugin env))"
    using assms(5) by (simp add: p linked_object_def well_typed_plugin_def slot_typed_def plugin_keyboard_object_def)
  from x86.load [OF assms(2) this assms(3,4)] obtain s1 s3 r s4 where
    s1: "inthide_init (run_x86 env) env True s = Inr (0, s1)"
      "plugin_code (plugin_objs s1 plugin_keyboard)
         = plugin_code (plugin_keyboard_object\<lparr>plugin_id := 0, callback_fn := Some RealKey\<rparr>)"
      "run_x86 env KeyboardInit plugin_keyboard s3 = Inr (r, s4)" "same_plugin_view s4 s1"
    using assms(1,5) unfolding p by auto
  have "kb_irq_handler s4 = 0"
    using s1(3) keyboard_init_handler [of env "Some plugin_keyboard" s3 r s4] assms(6) by (simp add: run_x86_def)
  then have h: "kb_irq_handler s1 = 0" using s1(4) by (cases s1; cases s4) (simp add: same_plugin_view_def)
  have "inject_fn (plugin_code (plugin_objs s1 plugin_keyboard)) = Some KeyboardInject"
    by (simp add: s1(2)) (simp add: plugin_code_def plugin_keyboard_object_def)
  then have inj: "inject_fn (plugin_objs s1 plugin_keyboard) = Some KeyboardInject"
    by (simp add: plugin_code_def)
  let ?s2 = "s1\<lparr>injection := 1\<rparr>"
  have "keydrown_write (run_x86 env) env (Some 1) 2 s1 = Inr (2, ?s2)"
    using assms(1) by (simp add: keydrown_write_def seqk_def bindk_def kprog_simps)
  moreover have "timer_function (run_x86 env) env ?s2 = Inl NullDeref"
    using assms(1) inj keyboard_inject_null [OF assms(7) _ assms(8), of ?s2] h
    by (simp add: timer_function_def timer_inject_def run_x86_def Let_def STATE_INJECT_def bindk_def
        seqk_def kprog_simps)
  ultimately show ?thesis using s1(1) by blast
qed

theorem failed_init_ignored_witness:
  "\<exists>s1 s2. inthide_init (run_x86 (demo_x86_env\<lparr>kallsyms_lookup_name := (\<lambda>_. 0)\<rparr>))
          (demo_x86_env\<lparr>kallsyms_lookup_name := (\<lambda>_. 0)\<rparr>) True demo_kb_state = Inr (0, s1)
     \<and> keydrown_write (run_x86 (demo_x86_env\<lparr>kallsyms_lookup_name := (\<lambda>_. 0)\<rparr>))
          (demo_x86_env\<lparr>kallsyms_lookup_name := (\<lambda>_. 0)\<rparr>) (Some 1) 2 s1 = Inr (2, s2)
     \<and> timer_function (run_x86 (demo_x86_env\<lparr>kallsyms_lookup_name := (\<lambda>_. 0)\<rparr>))
          (demo_x86_env\<lparr>kallsyms_lookup_name := (\<lambda>_. 0)\<rparr>) s2 = Inl NullDeref"
proof (rule failed_init_ignored [OF _ demo_kb_empty _ demo_kb_not_hooked])
  have "get_irq_affinity (demo_x86_env\<lparr>kallsyms_lookup_name := (\<lambda>_. 0)\<rparr>)
      PLUGIN_KEYBOARD_INTERRUPT_HARDWARE demo_kb_state = Inr 5"
    by (simp add: get_irq_affinity_def irq_to_desc_def demo_x86_env_def demo_env_def demo_kb_defs
        demo_desc_def PLUGIN_KEYBOARD_INTERRUPT_HARDWARE_def kernel_version_def)
  then show "x86_loadable (demo_x86_env\<lparr>kallsyms_lookup_name := (\<lambda>_. 0)\<rparr>) demo_kb_state"
    using demo_x86_loadable by (simp add: x86_loadable_def memory_ok_def)
qed (auto simp: demo_x86_env_def demo_env_def demo_kb_defs)

text \<open>
  C35. The order of the exit leaves a window: a key whose tasklet runs after the timer is cancelled
  and before the plugin is cleaned up re-arms the injection timer (and the fake timer, which the
  exit never cancels), and the exit completes with both armed although the module's code goes away.
\<close>

theorem exit_window_rearms_timers:
  assumes "arch_x86 env" and "module_loaded kb_ready PLUGIN_KEYBOARD_INTERRUPT_HARDWARE plugin_keyboard
      KeyboardInit KeyboardCleanup s0 s"
    and "callback_fn (plugin_objs s plugin_keyboard) = Some RealKey"
    and "drawable env RND_MIN RND_MAX s" and "faketimer_running s = 0"
    and "0 \<notin> set (prefetched env (own_code_addr env ''timer_restart'') 4096)"
  shows "\<exists>s2. inthide_exit_with (run_x86 env) env (kb_tasklet (run_x86 env) KbPressNotify) s = Inr ((), s2)
     \<and> (\<forall>j. \<not> hooked s2 j) \<and> timer_armed MainTimer s2 \<and> timer_armed FakeTimer s2"
proof -
  have p: "module_plugin env = plugin_keyboard" using assms(1) by (simp add: module_plugin_def)
  let ?s1 = "s\<lparr>klog := klog s @ [ProcRemove, HrtimerCancel MainTimer]\<rparr>"
  have l1: "module_loaded kb_ready PLUGIN_KEYBOARD_INTERRUPT_HARDWARE (module_plugin env)
      KeyboardInit KeyboardCleanup s0 ?s1"
    using assms(2) unfolding p [symmetric] by (rule x86.view_loaded) simp
  have "drawable env RND_MIN RND_MAX ?s1" using assms(4) by (simp add: drawable_def)
  from kb_callback_real [OF _ this assms(6), of True] assms(3) obtain ns s1' where
    key: "kb_callback (run_x86 env) True ?s1 = Inr ((), s1')"
      "klog s1' = klog ?s1 @ real_input_calls env (faketimer_running s) ns" by auto
  have "exec_event (run_x86 env) env (if arch_x86 env then x86_input env else (\<lambda>_. retk ()))
      (Input (Tasklet True)) ?s1 = Inr ((), s1')"
    using key(1) assms(1) by (simp add: exec_event_def x86_input_def kb_tasklet_def)
  from x86.event_loaded [OF l1 this] have l2: "module_loaded kb_ready PLUGIN_KEYBOARD_INTERRUPT_HARDWARE
      (module_plugin env) KeyboardInit KeyboardCleanup s0 s1'" .
  from x86.cleanup_loaded [OF l2] obtain s2 where
    s2: "plugin_cleanup (run_x86 env) s1' = Inr (0, s2)" "\<forall>j. \<not> hooked s2 j"
      "\<And>t. timer_armed t s2 = timer_armed t s1'" by blast
  have pre: "armed_after t b (map PrefetchTouch as) = b" for t b as
    by (induction as) simp_all
  have "timer_armed MainTimer s1'" "timer_armed FakeTimer s1'"
    by (simp_all add: timer_armed_def key(2) real_input_calls_def assms(5) armed_after_append pre)
  with s2 key(1) show ?thesis
    by (intro exI [of _ s2])
       (simp add: inthide_exit_with_def kb_tasklet_def timer_cleanup_def seqk_def bindk_def kprog_simps)
qed

lemma demo_x86_module_loaded: "module_loaded kb_ready PLUGIN_KEYBOARD_INTERRUPT_HARDWARE plugin_keyboard
    KeyboardInit KeyboardCleanup
    (demo_x86_loaded\<lparr>plugins := (replicate 128 None)[0 := Some 0], plugin_count := 1\<rparr>)
    (demo_x86_loaded\<lparr>plugins := (replicate 128 None)[0 := Some 0], plugin_count := 1\<rparr>)" (is "module_loaded _ _ _ _ _ ?s ?s")
proof -
  have sm: "same_hooks demo_kb_state ?s"
    by (simp add: same_hooks_def demo_x86_loaded_def)
  have "kb_ready ?s" using demo_kb_ready by (simp add: irq_ready_same_hooks [OF sm])
  moreover have "\<not> hooked ?s j" for j using demo_kb_not_hooked by (simp add: same_hooksD [OF sm])
  ultimately show ?thesis
    by (simp add: module_loaded_def registry_inv_def registered_def linked_object_def well_typed_plugin_def slot_typed_def demo_x86_loaded_def
        plugin_keyboard_object_def plugin_keyboard_def replicate_Suc [of 127, simplified])
qed

theorem exit_window_rearms_timers_witness:
  "\<exists>s2. inthide_exit_with (run_x86 demo_x86_env) demo_x86_env (kb_tasklet (run_x86 demo_x86_env) KbPressNotify)
          (demo_x86_loaded\<lparr>plugins := (replicate 128 None)[0 := Some 0], plugin_count := 1\<rparr>) = Inr ((), s2)
     \<and> (\<forall>j. \<not> hooked s2 j) \<and> timer_armed MainTimer s2 \<and> timer_armed FakeTimer s2"
proof (rule exit_window_rearms_timers [OF _ demo_x86_module_loaded])
  show "drawable demo_x86_env RND_MIN RND_MAX
      (demo_x86_loaded\<lparr>plugins := (replicate 128 None)[0 := Some 0], plugin_count := 1\<rparr>)"
    using demo_x86_draw by (simp add: drawable_def)
  show "0 \<notin> set (prefetched demo_x86_env (own_code_addr demo_x86_env ''timer_restart'') 4096)"
    by (rule prefetched_nonzero) (simp_all add: demo_x86_env_def demo_env_def)
qed (simp_all add: demo_x86_env_def demo_env_def demo_x86_loaded_def demo_kb_defs)

end
