(* ===== verification/KD_X86_Runs.thy ===== *)
theory KD_X86_Runs
  imports KD_X86 KD_Input KD_Files
begin

text \<open>
  The x86 module in time and behind its key filter: the interpretations of \<open>armed_module\<close>,
  \<open>filtered_module\<close> and \<open>controlled_module\<close> on it, and what they give.
\<close>

section \<open>The module as an instance of \<open>armed_module\<close>\<close>

interpretation x86_armed: armed_module "run_x86 env" env PLUGIN_KEYBOARD_INTERRUPT_HARDWARE
  KeyboardInit KeyboardCleanup "if arch_x86 env then RealKey else RealTouchpad"
  "if arch_x86 env then x86_input env else (\<lambda>_. retk ())" "x86_loadable env" kb_ready
  "x86_start env" "x86_alive env" plugin_keyboard_object "x86_call_ok env" 0 100 for env
  by unfold_locales (simp add: x86_alive_shows)

section \<open>The module as an instance of \<open>filtered_module\<close>\<close>

text \<open>The i8042 driver passes each byte with its status to the filter.\<close>

definition key_data_filter :: "u8 \<times> u8 \<Rightarrow> ('a kb_state_scheme, bool) kprog" where
  "key_data_filter d = key_filter (fst d) (snd d)"

text \<open>Bytes of the auxiliary port (status bit 5) schedule nothing; bit 7 of a byte marks a release.\<close>

definition key_sched :: "u8 \<times> u8 \<Rightarrow> tasklet_id option" where
  "key_sched d = (if bit (snd d) 5 then None else Some (if bit (fst d) 7 then KbReleaseNotify else KbPressNotify))"

lemma key_filter_once:
  fixes s :: "'a kb_state_scheme"
  assumes "x86_alive env s"
  shows "\<exists>b cs. key_data_filter d s = Inr (b, s\<lparr>klog := klog s @ cs\<rparr>)
      \<and> list_all quiet_call cs \<and> scheduled cs = set_option (key_sched d)"
proof -
  have t: "tasklet_press_notify s = Some KbPressNotify" "tasklet_release_notify s = Some KbReleaseNotify"
    using assms by (simp_all add: x86_alive_def key_tasklets_def)
  have aux: "snd d AND 0x20 = 0 \<longleftrightarrow> \<not> bit (snd d) 5"
    using and_exp_eq_0_iff_not_bit [of "snd d" 5] by simp
  have release: "fst d AND 0x80 = 0 \<longleftrightarrow> \<not> bit (fst d) 7"
    using and_exp_eq_0_iff_not_bit [of "fst d" 7] by simp
  let ?cs = "map TaskletSchedule (case key_sched d of None \<Rightarrow> [] | Some t \<Rightarrow> [t])"
  have "key_data_filter d s = Inr (False, s\<lparr>klog := klog s @ ?cs\<rparr>)"
    by (simp add: key_data_filter_def key_filter_def I8042_STR_AUXDATA_def key_sched_def aux release t
        seqk_def bindk_def kprog_simps)
  then show ?thesis
    by (intro exI [of _ False] exI [of _ ?cs])
       (auto simp: scheduled_def quiet_call_def key_sched_def)
qed

interpretation x86_filtered: filtered_module "run_x86 env" env PLUGIN_KEYBOARD_INTERRUPT_HARDWARE
  KeyboardInit KeyboardCleanup "if arch_x86 env then RealKey else RealTouchpad"
  "if arch_x86 env then x86_input env else (\<lambda>_. retk ())" "x86_loadable env" kb_ready
  "x86_start env" "x86_alive env" plugin_keyboard_object "x86_call_ok env" 0 100 key_data_filter key_sched for env
  by unfold_locales (rule key_filter_once)

section \<open>The module as an instance of \<open>controlled_module\<close>\<close>

text \<open>An injection: a key that no keyboard has, pressed and released, and a request to each CPU that serves the keyboard.\<close>

definition x86_stroke :: "kenv \<Rightarrow> 'a kb_state_scheme \<Rightarrow> kcall list" where
  "x86_stroke env s =
     [SerioInterrupt (serio (kb_port s)) 0x5d, SerioInterrupt (serio (kb_port s)) 0xdd]
     @ map SmpCallInject (filter (bit (kb_affinity s)) (online_cpus env))"

lemma x86_stroke_view: "same_plugin_view s s' \<Longrightarrow> x86_stroke env s' = x86_stroke env s"
  by (cases s; cases s') (simp add: x86_stroke_def same_plugin_view_def)

lemma x86_injection:
  fixes s :: "'a kb_state_scheme"
  assumes "x86_alive env s" and "timer_inject (run_x86 env) env s = Inr (u, s1)"
  shows "injection s1 = injection s \<and> x86_stroke env s1 = x86_stroke env s
     \<and> (\<exists>cs. klog s1 = klog s @ cs \<and> injected cs = x86_stroke env s)"
proof -
  have m: "x86_machine env" and fn: "inject_fn (plugin_objs s plugin_keyboard) = Some KeyboardInject"
    and h: "kb_irq_handler s = kallsyms_lookup_name env ''i8042_interrupt''"
    using assms(1) by (simp_all add: x86_alive_def)
  have touch: "0 \<notin> set (prefetched env (kb_irq_handler s) 4096)" "0 \<notin> set (prefetched env (own_code_addr env ''real_key'') 4096)"
    using x86_machineD(5) [OF m] h by simp_all
  have "timer_inject (run_x86 env) env s = Inr ((), s\<lparr>
      interrupt_number := (if online_cpus env = [] then interrupt_number s else 49),
      klog := klog s @ keyboard_inject_calls env s
        @ map PrefetchTouch (prefetched env (own_code_addr env ''real_key'') 4096)\<rparr>)"
    using x86_machineD(1) [OF m] fn
    by (simp add: timer_inject_def run_x86_def Let_def bindk_def seqk_def readk_apply derefk_Some
        keyboard_inject_apply [OF x86_machineD(4) [OF m] touch(1)] prefetch_range_ok [OF touch(2)])
  with assms(2) show ?thesis by (auto simp: x86_stroke_def keyboard_inject_calls_def)
qed

lemma keyboard_init_control: "keeps same_control (keyboard_init env d :: ('a kb_state_scheme, int) kprog)"
  by (auto simp: keyboard_init_def keyboard_device_init_def keyboard_device_notify_def Let_def
      keyboard_device_install_filter_def keyboard_device_no_notify_def keyboard_device_remove_filter_def
      keyboard_init_data_def same_control_def upd_plugin_def
      intro!: control_frame.keeps_rules)

lemma x86_alive_controls:
  fixes s :: "'a kb_state_scheme"
  assumes alive: "x86_alive env s"
    and run: "exec_event (run_x86 env) env (if arch_x86 env then x86_input env else (\<lambda>_. retk ())) ev s = Inr ((), s')"
  shows "controls (x86_stroke env) ev s s'"
proof -
  have m: "x86_machine env" and arch: "arch_x86 env" and own: "own_hooks KbHookHandler s"
    and only: "\<And>j. hooked s j \<Longrightarrow> j = PLUGIN_KEYBOARD_INTERRUPT_HARDWARE"
    and callback: "callback_fn (plugin_objs s plugin_keyboard) = Some RealKey"
    using alive by (simp_all add: x86_alive_def x86_machine_def)
  show ?thesis
  proof (cases ev)
    case (WriteControl parsed n)
    with run arch show ?thesis
      by (cases parsed) (auto simp: exec_event_def keydrown_write_def seqk_def bindk_def retk_apply modk_apply
          controls_def x86_stroke_def)
  next
    case TimerTick
    with run obtain r where "timer_function (run_x86 env) env s = Inr (r, s')"
      by (auto simp: exec_event_def seqk_Inr_iff retk_apply)
    from tick_controls [OF x86_injection [OF alive] x86_stroke_view this] TimerTick show ?thesis by simp
  next
    case (Input x)
    show ?thesis
    proof (cases x)
      case (Tasklet press)
      let ?s1 = "s\<lparr>kb_event := (kb_event s)\<lparr>event_type := (if press then KEY_PRESS else KEY_RELEASE)\<rparr>\<rparr>"
      have "kb_callback (run_x86 env) press s = Inr ((), s')"
        using run Input Tasklet arch by (simp add: exec_event_def x86_input_def kb_tasklet_def split: if_splits)
      then obtain r where key: "real_key env ?s1 = Inr (r, s')"
        using callback by (auto simp: kb_callback_def run_x86_def seqk_Inr_iff bindk_Inr_iff modk_apply readk_apply retk_apply)
      have "x86_stroke env s' = x86_stroke env s"
        using x86_stroke_view [OF keepsD [OF keeps_view_real(1) key], of env] by (simp add: x86_stroke_def)
      moreover have "uninjected s s'"
        using keepsD [OF keeps_uninjected_real key] by (simp add: uninjected_def)
      ultimately show ?thesis using Input Tasklet by (simp add: uninjected_controls)
    next
      case (Irq j)
      have draw: "drawable env 0 100 s" by (rule fair_drawable [OF x86_machineD(3) [OF m]]) simp
      have "deliver_irq KbHookHandler (delayed_handler env 0 100 PLUGIN_KEYBOARD_INTERRUPT_HARDWARE call_flow) j s
          = Inr ((), s')"
        using run Input Irq arch by (simp add: exec_event_def x86_input_def kb_hook_handler_delayed)
      from irq_uninjected [OF own only draw _ this] Input Irq show ?thesis
        by (simp add: uninjected_controls x86_stroke_view)
    qed
  next
    case FakeTick
    with run obtain r where "faketimer_function s = Inr (r, s')"
      by (auto simp: exec_event_def seqk_Inr_iff retk_apply)
    from keepsD [OF keeps_uninjected_timers(3) this] x86_stroke_view [OF keepsD [OF keeps_view_timers(5) this]]
      FakeTick show ?thesis by (simp add: uninjected_controls)
  qed
qed

interpretation x86_controlled: controlled_module "run_x86 env" env PLUGIN_KEYBOARD_INTERRUPT_HARDWARE
  KeyboardInit KeyboardCleanup "if arch_x86 env then RealKey else RealTouchpad"
  "if arch_x86 env then x86_input env else (\<lambda>_. retk ())" "x86_loadable env" kb_ready
  "x86_start env" "x86_alive env" plugin_keyboard_object "x86_call_ok env" "x86_stroke env" for env
proof unfold_locales
  fix p r and s s' :: "'a kb_state_scheme"
  assume "run_x86 env KeyboardInit p s = Inr (r, s')"
  then show "injection s' = injection s"
    using keepsD [OF keyboard_init_control] by (auto simp: run_x86_def same_control_def)
qed (rule x86_alive_controls)

section \<open>Properties\<close>

text \<open>An event of the loaded x86 module, and a step of the machine around it.\<close>

abbreviation x86_exec :: "kenv \<Rightarrow> module_event \<Rightarrow> ('a kb_state_scheme, unit) kprog" where
  "x86_exec env \<equiv> exec_event (run_x86 env) env (x86_input env)"

abbreviation x86_hw :: "kenv \<Rightarrow> (u8 \<times> u8) hw_event \<Rightarrow> (tasklet_id set \<times> 'a kb_state_scheme, unit) kprog" where
  "x86_hw env \<equiv> hw_exec key_data_filter (x86_exec env)"

lemma x86_startD:
  assumes "x86_start env s"
  shows "arch_x86 env" "module_plugin env = plugin_keyboard"
  using assms by (simp_all add: x86_start_def x86_machine_def module_plugin_def)



text \<open>
  C4. Refinement of the keyboard's input: whatever bytes reach the key filter, mixed in any order with
  runs of the scheduled tasklets, interrupts, writes and timer firings, the loaded module returns,
  and shows an observer the same as the run of the module events behind it, in which a tasklet that
  was scheduled several times before it ran counts once. No pending tasklet is forgotten.
\<close>

theorem x86_bytes_refine_events:
  fixes s :: "'a kb_state_scheme"
  assumes "x86_start env s" and "empty_registry s" and "plugin_objs s plugin_keyboard = plugin_keyboard_object"
  shows "\<exists>s1. inthide_init (run_x86 env) env True s = Inr (0, s1)
     \<and> (\<forall>evs. \<exists>s2 s2' cs cs'.
          for_eachk evs (x86_hw env) ({}, s1) = Inr ((), (hw_pending key_sched {} evs, s2))
          \<and> klog s2 = klog s1 @ cs
          \<and> for_eachk (hw_events key_sched {} evs) (x86_exec env) s1 = Inr ((), s2')
          \<and> klog s2' = klog s1 @ cs' \<and> observed cs = observed cs')"
  using x86_filtered.hw_refines [OF assms(2) _ assms(1)] assms(3) x86_startD [OF assms(1)] by simp

theorem x86_bytes_refine_events_witness:
  "\<exists>s1. inthide_init (run_x86 demo_x86_env) demo_x86_env True demo_kb_state = Inr (0, s1)
     \<and> (\<forall>evs. \<exists>s2 s2' cs cs'.
          for_eachk evs (x86_hw demo_x86_env) ({}, s1) = Inr ((), (hw_pending key_sched {} evs, s2))
          \<and> klog s2 = klog s1 @ cs
          \<and> for_eachk (hw_events key_sched {} evs) (x86_exec demo_x86_env) s1 = Inr ((), s2')
          \<and> klog s2' = klog s1 @ cs' \<and> observed cs = observed cs')"
  by (rule x86_bytes_refine_events [OF demo_x86_start demo_kb_empty]) (simp add: demo_kb_defs)

text \<open>
  C19. Every key restarts the injection timer: once the tasklet that a byte of the keyboard schedules
  has run after it, the timer has been started again since the byte. And only keys do: over the
  whole run the timer is started at most once for each byte of the keyboard port, less often where
  bytes of the same kind arrive before their tasklet runs.
\<close>

theorem x86_keys_restart_timer:
  fixes s :: "'a kb_state_scheme"
  assumes "x86_start env s" and "empty_registry s" and "plugin_objs s plugin_keyboard = plugin_keyboard_object"
    and "\<not> bit str 5" and "Softirq (if bit byte 7 then KbReleaseNotify else KbPressNotify) \<in> set ys"
  shows "\<exists>s1 P2 s2 P3 s3 cs ds. inthide_init (run_x86 env) env True s = Inr (0, s1)
     \<and> for_eachk (xs @ [Datum (byte, str)]) (x86_hw env) ({}, s1) = Inr ((), (P2, s2)) \<and> klog s2 = klog s1 @ cs
     \<and> for_eachk ys (x86_hw env) (P2, s2) = Inr ((), (P3, s3)) \<and> klog s3 = klog s2 @ ds
     \<and> 1 \<le> restarts ds \<and> restarts (cs @ ds) \<le> scheduling key_sched (xs @ [Datum (byte, str)] @ ys)"
proof -
  have "key_sched (byte, str) = Some (if bit byte 7 then KbReleaseNotify else KbPressNotify)"
    using assms(4) by (simp add: key_sched_def)
  from x86_filtered.input_restarts [OF assms(2) _ assms(1) this assms(5), of xs] assms(3) x86_startD [OF assms(1)]
  show ?thesis by simp
qed

theorem x86_keys_restart_timer_witness:
  "\<exists>s1 P2 s2 P3 s3 cs ds. inthide_init (run_x86 demo_x86_env) demo_x86_env True demo_kb_state = Inr (0, s1)
     \<and> for_eachk ([Datum (0x1e, 0x1d)] @ [Datum (0x9e, 0x1d)]) (x86_hw demo_x86_env) ({}, s1) = Inr ((), (P2, s2))
     \<and> klog s2 = klog s1 @ cs
     \<and> for_eachk [Tick, Softirq KbPressNotify, Softirq KbReleaseNotify] (x86_hw demo_x86_env) (P2, s2) = Inr ((), (P3, s3))
     \<and> klog s3 = klog s2 @ ds
     \<and> 1 \<le> restarts ds
     \<and> restarts (cs @ ds) \<le> scheduling key_sched
         ([Datum (0x1e, 0x1d)] @ [Datum (0x9e, 0x1d)] @ [Tick, Softirq KbPressNotify, Softirq KbReleaseNotify])"
  by (rule x86_keys_restart_timer [OF demo_x86_start demo_kb_empty])
     (simp_all add: demo_kb_defs bit_simps)

text \<open>
  C21. Injection on demand, over whole runs: the load keeps the control state (0 in a fresh module), and
  in any run of the loaded module, exactly the timer firings that find bit 0 of the number written
  last set inject a fake key, once each; nothing else does, neither real keys nor interrupts nor the fake
  timer. A fake key is the illegal scancode, pressed and released, on the port that
  initialisation found, and one request to each online CPU of the keyboard's affinity.
\<close>

theorem x86_injects_on_demand:
  fixes s :: "'a kb_state_scheme"
  assumes "x86_start env s" and "empty_registry s" and "plugin_objs s plugin_keyboard = plugin_keyboard_object"
  shows "\<exists>s1. inthide_init (run_x86 env) env True s = Inr (0, s1)
     \<and> (\<forall>evs. \<exists>s2 cs. for_eachk evs (x86_exec env) s1 = Inr ((), s2) \<and> klog s2 = klog s1 @ cs
          \<and> injection s2 = foldl control_after (injection s) evs
          \<and> injected cs = concat (replicate (injections (injection s) evs)
              ([SerioInterrupt (serio (kb_port s1)) 0x5d, SerioInterrupt (serio (kb_port s1)) 0xdd]
               @ map SmpCallInject (filter (bit (kb_affinity s1)) (online_cpus env)))))"
  using x86_controlled.injects_on_demand [OF assms(2) _ assms(1)] assms(3) x86_startD [OF assms(1)]
  by (simp add: x86_stroke_def)

theorem x86_injects_on_demand_witness:
  "\<exists>s1. inthide_init (run_x86 demo_x86_env) demo_x86_env True demo_kb_state = Inr (0, s1)
     \<and> (\<forall>evs. \<exists>s2 cs. for_eachk evs (x86_exec demo_x86_env) s1 = Inr ((), s2) \<and> klog s2 = klog s1 @ cs
          \<and> injection s2 = foldl control_after (injection demo_kb_state) evs
          \<and> injected cs = concat (replicate (injections (injection demo_kb_state) evs)
              ([SerioInterrupt (serio (kb_port s1)) 0x5d, SerioInterrupt (serio (kb_port s1)) 0xdd]
               @ map SmpCallInject (filter (bit (kb_affinity s1)) (online_cpus demo_x86_env)))))"
  by (rule x86_injects_on_demand [OF demo_x86_start demo_kb_empty]) (simp add: demo_kb_defs)

text \<open>
  C37. The countermeasure can be switched off by those it defends against: the control file is
  writable for everyone. Whatever happened to the loaded module so far, any user, without any
  privilege, may write an even number to it, and from then on, whatever happens except another
  successful write, no fake key is injected at all.
\<close>

theorem any_user_stops_injection:
  fixes s :: "'a kb_state_scheme"
  assumes "x86_start env s" and "empty_registry s" and "plugin_objs s plugin_keyboard = plugin_keyboard_object"
    and "seq_file_works q" and "even v" and "list_all (\<lambda>ev. \<not> writes_control ev) evs'"
  shows "\<exists>s1. inthide_init (run_x86 env) env True s = Inr (0, s1)
     \<and> (\<forall>evs uid n. \<exists>s2 s3 s4 cs. for_eachk evs (x86_exec env) s1 = Inr ((), s2)
          \<and> user_writes q (run_x86 env) env uid (Some v) n s2 = Inr (int n, s3)
          \<and> for_eachk evs' (x86_exec env) s3 = Inr ((), s4) \<and> klog s4 = klog s3 @ cs \<and> injected cs = [])"
proof -
  note arch = x86_startD [OF assms(1)]
  from x86_controlled.start_controlled [OF assms(2) _ assms(1)] assms(3) arch obtain s1 where
    s1: "inthide_init (run_x86 env) env True s = Inr (0, s1)" "x86_alive env s1" by auto
  have "\<exists>s2 s3 s4 cs. for_eachk evs (x86_exec env) s1 = Inr ((), s2)
          \<and> user_writes q (run_x86 env) env uid (Some v) n s2 = Inr (int n, s3)
          \<and> for_eachk evs' (x86_exec env) s3 = Inr ((), s4) \<and> klog s4 = klog s3 @ cs \<and> injected cs = []" for evs uid n
  proof -
    from x86_controlled.controlled_events [OF s1(2), of evs] arch(1) obtain s2 where
      s2: "for_eachk evs (x86_exec env) s1 = Inr ((), s2)" "x86_alive env s2" by auto
    from x86_controlled.switched_off [OF s2(2) assms(5,6)] arch(1) s2(1) show ?thesis
      by (simp add: user_writes_any [OF assms(4)] keydrown_write_x86)
  qed
  with s1(1) show ?thesis by blast
qed

theorem any_user_stops_injection_witness:
  "\<exists>s1. inthide_init (run_x86 demo_x86_env) demo_x86_env True demo_kb_state = Inr (0, s1)
     \<and> (\<forall>evs uid n. \<exists>s2 s3 s4 cs. for_eachk evs (x86_exec demo_x86_env) s1 = Inr ((), s2)
          \<and> user_writes demo_seq (run_x86 demo_x86_env) demo_x86_env uid (Some 0) n s2 = Inr (int n, s3)
          \<and> for_eachk [TimerTick, Input (Tasklet True), WriteControl None 3, TimerTick] (x86_exec demo_x86_env) s3
              = Inr ((), s4)
          \<and> klog s4 = klog s3 @ cs \<and> injected cs = [])"
  by (rule any_user_stops_injection [OF demo_x86_start demo_kb_empty _ demo_seq_works])
     (simp_all add: demo_kb_defs)



end
