(* ===== verification/KD_Gpio.thy ===== *)
theory KD_Gpio
  imports KD_Main
begin

text \<open>
  Raising the touchscreen's interrupt through the GPIO controller of the phone:
  \<open>plugins/touchscreen/gpio/gpio-msm-pinctrl.c\<close> (OnePlus 3T) and \<open>gpio-msm-v2.c\<close> (Nexus 5).
\<close>

section \<open>The controller's tables\<close>

text \<open>
  The fields of \<open>struct msm_pingroup\<close>, \<open>struct gpio_chip\<close> and \<open>struct msm_pinctrl\<close> that the code
  uses. The array \<open>pins\<close> with its length \<open>npins\<close> is a list, likewise \<open>soc->groups\<close>; the chip and
  the \<open>msm_pinctrl\<close> around it (\<open>container_of\<close>) are one record.
\<close>

record msm_pingroup =
  pins :: "u32 list"
  intr_status_reg :: u32
  intr_status_bit :: nat

record msm_chip =
  chip_addr :: addr
  chip_label :: "string option"
  soc_groups :: "msm_pingroup list"
  regs :: addr

datatype gpio_driver = MsmPinctrl | MsmV2

text \<open>
  The environment of the touchscreen's parts: the kernel, the \<open>gpio_desc\<close> table with the chip of
  each of the \<open>ARCH_NR_GPIOS\<close> lines, what a device register reads as, the base address of the TLMM
  block, and the choices of the build (driver and hardware interrupt number).
\<close>

record gpio_env =
  kenv_of :: kenv
  gpio_table :: "msm_chip option list"
  readl_result :: "addr \<Rightarrow> u32"
  MSM_TLMM_BASE :: addr
  gpio_driver_of :: gpio_driver
  touchscreen_irq_hardware :: u32

record gpio_state = main_state +
  msm_gpio_set_ptr :: addr
  gpio_desc_ptr :: addr
  gpio_chip :: "msm_chip option"
  pin_group_index :: u32
  pin_group :: "msm_pingroup option"
  pctrl :: "msm_chip option"

section \<open>\<open>gpio-msm-pinctrl.c\<close>\<close>

text \<open>The two nested loops over the groups, from index \<open>i\<close> on, and over the pins of each.\<close>

fun find_pin :: "u32 \<Rightarrow> u32 list \<Rightarrow> bool" where
  "find_pin hw [] = False"
| "find_pin hw (p # ps) = (if p = hw then True else find_pin hw ps)"

fun find_correct_pingroup_from :: "u32 \<Rightarrow> nat \<Rightarrow> msm_pingroup list \<Rightarrow> (nat \<times> msm_pingroup) option" where
  "find_correct_pingroup_from hw i [] = None"
| "find_correct_pingroup_from hw i (g # gs) =
     (if find_pin hw (pins g) then Some (i, g) else find_correct_pingroup_from hw (Suc i) gs)"

definition find_correct_pingroup ::
  "gpio_env \<Rightarrow> msm_chip \<Rightarrow> ('a gpio_state_scheme, msm_pingroup option) kprog" where
  "find_correct_pingroup env chip =
     (case find_correct_pingroup_from (touchscreen_irq_hardware env) 0 (soc_groups chip) of
        None \<Rightarrow> retk None
      | Some (i, g) \<Rightarrow>
          seqk (modk (\<lambda>s. s\<lparr>pin_group_index := word_of_nat i\<rparr>)) (retk (Some g)))"

text \<open>The scan of the \<open>gpio_desc\<close> table.\<close>

fun gpio_scan :: "gpio_env \<Rightarrow> msm_chip option list \<Rightarrow> ('a gpio_state_scheme, unit) kprog" where
  "gpio_scan env [] = retk ()"
| "gpio_scan env (None # ds) = gpio_scan env ds"
| "gpio_scan env (Some chip # ds) =
     bindk (derefk (chip_label chip)) (\<lambda>label.
       if strstr label ''pinctrl'' = None then gpio_scan env ds
       else
         seqk (modk (\<lambda>s. s\<lparr>pctrl := Some chip\<rparr>))
        (bindk (find_correct_pingroup env chip) (\<lambda>g.
         seqk (modk (\<lambda>s. s\<lparr>pin_group := g\<rparr>))
              (if g \<noteq> None then modk (\<lambda>s. s\<lparr>gpio_chip := Some chip\<rparr>)
               else gpio_scan env ds))))"

definition pinctrl_interrupt_init :: "gpio_env \<Rightarrow> ('a gpio_state_scheme, bool) kprog" where
  "pinctrl_interrupt_init env =
     (let set_addr = kallsyms_lookup_name (kenv_of env) ''msm_gpio_set''
      in if set_addr = 0 then retk False
         else
           seqk (modk (\<lambda>s. s\<lparr>msm_gpio_set_ptr := set_addr\<rparr>))
          (let desc_addr = kallsyms_lookup_name (kenv_of env) ''gpio_desc''
           in if desc_addr = 0 then retk False
              else
                seqk (modk (\<lambda>s. s\<lparr>gpio_desc_ptr := desc_addr\<rparr>))
               (seqk (gpio_scan env (gpio_table env))
               (bindk (readk pin_group) (\<lambda>g. if g = None then retk False else retk True)))))"

text \<open>The lock around the register update is not represented: nothing here runs in between.\<close>

definition pinctrl_interrupt_inject :: "gpio_env \<Rightarrow> ('a gpio_state_scheme, int) kprog" where
  "pinctrl_interrupt_inject env =
     bindk (bindk (readk pctrl) derefk) (\<lambda>pc.
     bindk (bindk (readk pin_group) derefk) (\<lambda>g.
       let reg = regs pc + ucast (intr_status_reg g);
           val = readl_result env reg OR push_bit (intr_status_bit g) 1
       in seqk (emit (Writel val reg))
         (bindk (readk msm_gpio_set_ptr) (\<lambda>f.
            if f = 0 then stopk NullDeref
            else bindk (readk gpio_chip) (\<lambda>c.
                 bindk (readk pin_group_index) (\<lambda>i.
                   seqk (emit (MsmGpioSet (case c of None \<Rightarrow> 0 | Some c \<Rightarrow> chip_addr c) i 1))
                        (retk 1)))))))"

definition pinctrl_interrupt_clear :: "('a gpio_state_scheme, unit) kprog" where
  "pinctrl_interrupt_clear = retk ()"

definition pinctrl_inject_wrapper :: "gpio_env \<Rightarrow> ('a gpio_state_scheme, unit) kprog" where
  "pinctrl_inject_wrapper env = seqk (pinctrl_interrupt_inject env) (retk ())"

section \<open>\<open>gpio-msm-v2.c\<close>\<close>

definition v2_interrupt_init :: "('a gpio_state_scheme, bool) kprog" where
  "v2_interrupt_init = retk True"

definition GPIO_INTR_STATUS :: "gpio_env \<Rightarrow> u32 \<Rightarrow> addr" where
  "GPIO_INTR_STATUS env gpio = MSM_TLMM_BASE env + 0x100c + ucast (0x10 * gpio)"

definition v2_interrupt_inject :: "gpio_env \<Rightarrow> ('a gpio_state_scheme, int) kprog" where
  "v2_interrupt_inject env =
     seqk (emit (Writel 1 (GPIO_INTR_STATUS env (touchscreen_irq_hardware env)))) (retk 1)"

definition v2_interrupt_clear :: "('a gpio_state_scheme, unit) kprog" where
  "v2_interrupt_clear = retk ()"

definition v2_inject_wrapper :: "gpio_env \<Rightarrow> ('a gpio_state_scheme, unit) kprog" where
  "v2_inject_wrapper env = seqk (v2_interrupt_inject env) (retk ())"

section \<open>The functions the touchscreen plugin is linked with\<close>

definition gpio_msm_interrupt_init :: "gpio_env \<Rightarrow> ('a gpio_state_scheme, bool) kprog" where
  "gpio_msm_interrupt_init env =
     (case gpio_driver_of env of
        MsmPinctrl \<Rightarrow> pinctrl_interrupt_init env | MsmV2 \<Rightarrow> v2_interrupt_init)"

definition gpio_msm_interrupt_clear :: "gpio_env \<Rightarrow> ('a gpio_state_scheme, unit) kprog" where
  "gpio_msm_interrupt_clear env =
     (case gpio_driver_of env of
        MsmPinctrl \<Rightarrow> pinctrl_interrupt_clear | MsmV2 \<Rightarrow> v2_interrupt_clear)"

definition gpio_msm_interrupt_inject_wrapper :: "gpio_env \<Rightarrow> ('a gpio_state_scheme, unit) kprog" where
  "gpio_msm_interrupt_inject_wrapper env =
     (case gpio_driver_of env of
        MsmPinctrl \<Rightarrow> pinctrl_inject_wrapper env | MsmV2 \<Rightarrow> v2_inject_wrapper env)"

lemma gpio_msm_interrupt_clear_nothing: "gpio_msm_interrupt_clear env = retk ()"
  by (simp add: gpio_msm_interrupt_clear_def pinctrl_interrupt_clear_def v2_interrupt_clear_def
      split: gpio_driver.split)

section \<open>What the search finds\<close>

lemma find_pin_iff: "find_pin hw ps \<longleftrightarrow> hw \<in> set ps"
  by (induction ps) auto

lemma find_correct_pingroup_from_Some:
  "find_correct_pingroup_from hw i gs = Some (j, g) \<longleftrightarrow>
     (\<exists>k < length gs. j = i + k \<and> g = gs ! k \<and> hw \<in> set (pins g)
        \<and> (\<forall>l < k. hw \<notin> set (pins (gs ! l))))"
proof (induction gs arbitrary: i)
  case Nil
  then show ?case by simp
next
  case (Cons h gs)
  show ?case
    by (cases "hw \<in> set (pins h)")
       (auto simp: find_pin_iff Cons.IH Ex_less_Suc2 All_less_Suc2)
qed

lemma find_correct_pingroup_from_None:
  "find_correct_pingroup_from hw i gs = None \<longleftrightarrow> (\<forall>g \<in> set gs. hw \<notin> set (pins g))"
  by (induction gs arbitrary: i) (auto simp: find_pin_iff)

text \<open>A chip that serves the touchscreen's pin.\<close>

definition serves :: "gpio_env \<Rightarrow> msm_chip \<Rightarrow> bool" where
  "serves env chip \<longleftrightarrow> (\<exists>l. chip_label chip = Some l \<and> strstr l ''pinctrl'' \<noteq> None)
     \<and> (\<exists>g \<in> set (soc_groups chip). touchscreen_irq_hardware env \<in> set (pins g))"

definition serving_chips :: "gpio_env \<Rightarrow> msm_chip list" where
  "serving_chips env = filter (serves env) (map the (filter (\<lambda>d. d \<noteq> None) (gpio_table env)))"

text \<open>Every chip of the table has a label.\<close>

definition labelled :: "msm_chip option list \<Rightarrow> bool" where
  "labelled ds \<longleftrightarrow> (\<forall>c. Some c \<in> set ds \<longrightarrow> chip_label c \<noteq> None)"

text \<open>Two states that differ in the driver's own variables only.\<close>

definition same_but_gpio :: "'a gpio_state_scheme \<Rightarrow> 'a gpio_state_scheme \<Rightarrow> bool" where
  "same_but_gpio s s' \<longleftrightarrow> main_state.truncate s' = main_state.truncate s
     \<and> gpio_state.more s' = gpio_state.more s"

interpretation gpio_frame: frame_relation
  "same_but_gpio :: 'a gpio_state_scheme \<Rightarrow> 'a gpio_state_scheme \<Rightarrow> bool"
  by unfold_locales (simp_all add: same_but_gpio_def)

lemma same_but_gpioD:
  assumes "same_but_gpio s s'"
  shows "klog s' = klog s" "alloc_pos s' = alloc_pos s" "same_hooks s s'" "same_registry s s'"
    "plugin_objs s' = plugin_objs s" "gpio_state.more s' = gpio_state.more s" "injection s' = injection s"
  using assms
  by (simp_all add: same_but_gpio_def main_state.defs same_hooks_def same_registry_def)

lemma same_but_gpio_updates [simp]:
  "same_but_gpio s (s\<lparr>msm_gpio_set_ptr := f\<rparr>)" "same_but_gpio s (s\<lparr>gpio_desc_ptr := d\<rparr>)"
  "same_but_gpio s (s\<lparr>gpio_chip := c\<rparr>)" "same_but_gpio s (s\<lparr>pin_group_index := i\<rparr>)"
  "same_but_gpio s (s\<lparr>pin_group := g\<rparr>)" "same_but_gpio s (s\<lparr>pctrl := p\<rparr>)"
  by (simp_all add: same_but_gpio_def main_state.defs)

text \<open>
  The state a scan leaves: the first chip that serves the pin, and the first of its groups that
  contains it, are recorded; where none does, only the last chip tried is.
\<close>

lemma gpio_scan_found:
  assumes "labelled ds" and "find (serves env) (map the (filter (\<lambda>d. d \<noteq> None) ds)) = Some chip"
  shows "\<exists>i g pg. find_correct_pingroup_from (touchscreen_irq_hardware env) 0 (soc_groups chip) = Some (i, g)
     \<and> gpio_scan env ds s = Inr ((), s\<lparr>gpio_chip := Some chip, pin_group_index := word_of_nat i,
                                     pin_group := Some g, pctrl := Some chip\<rparr>)"
  using assms
proof (induction ds arbitrary: s)
  case Nil
  then show ?case by simp
next
  case (Cons d ds)
  have lab: "labelled ds" using Cons.prems(1) by (simp add: labelled_def)
  show ?case
  proof (cases d)
    case None
    then show ?thesis using Cons.IH [OF lab] Cons.prems(2) by simp
  next
    case (Some c)
    then obtain l where l: "chip_label c = Some l" using Cons.prems(1) by (auto simp: labelled_def)
    show ?thesis
    proof (cases "strstr l ''pinctrl''")
      case None
      then have "\<not> serves env c" using l by (simp add: serves_def)
      with Cons.IH [OF lab, of s] Cons.prems(2) Some None l show ?thesis
        by (simp add: kprog_simps bindk_def)
    next
      case lab_ok: (Some x)
      show ?thesis
      proof (cases "find_correct_pingroup_from (touchscreen_irq_hardware env) 0 (soc_groups c)")
        case None
        then have "\<not> serves env c"
          by (simp add: serves_def find_correct_pingroup_from_None)
        with Cons.IH [OF lab, of "s\<lparr>pctrl := Some c, pin_group := None\<rparr>"] Cons.prems(2) Some None l lab_ok
        show ?thesis
          by (simp add: kprog_simps bindk_def seqk_def find_correct_pingroup_def)
      next
        case found: (Some ig)
        obtain i g where ig: "ig = (i, g)" by (cases ig)
        have "find_correct_pingroup_from (touchscreen_irq_hardware env) 0 (soc_groups c) \<noteq> None"
          using found by simp
        then have "serves env c"
          using l lab_ok by (auto simp: serves_def find_correct_pingroup_from_None)
        with Cons.prems(2) Some have "chip = c" by simp
        with found ig Some l lab_ok show ?thesis
          by (simp add: kprog_simps bindk_def seqk_def find_correct_pingroup_def)
      qed
    qed
  qed
qed

lemma gpio_scan_not_found:
  assumes "labelled ds" and "find (serves env) (map the (filter (\<lambda>d. d \<noteq> None) ds)) = None"
    and "pin_group s = None"
  shows "\<exists>pc. gpio_scan env ds s = Inr ((), s\<lparr>pctrl := pc\<rparr>)"
  using assms
proof (induction ds arbitrary: s)
  case Nil
  show ?case by (rule exI [of _ "pctrl s"]) (simp add: kprog_simps)
next
  case (Cons d ds)
  have lab: "labelled ds" using Cons.prems(1) by (simp add: labelled_def)
  show ?case
  proof (cases d)
    case None
    then show ?thesis using Cons.IH [OF lab] Cons.prems(2,3) by simp
  next
    case (Some c)
    then obtain l where l: "chip_label c = Some l" using Cons.prems(1) by (auto simp: labelled_def)
    have rest: "find (serves env) (map the (filter (\<lambda>d. d \<noteq> None) ds)) = None" and no: "\<not> serves env c"
      using Cons.prems(2) Some by (simp_all split: if_splits)
    show ?thesis
    proof (cases "strstr l ''pinctrl''")
      case None
      with Cons.IH [OF lab rest] Cons.prems(3) Some l show ?thesis
        by (simp add: kprog_simps bindk_def)
    next
      case lab_ok: (Some x)
      then have none: "find_correct_pingroup_from (touchscreen_irq_hardware env) 0 (soc_groups c) = None"
        using no l by (simp add: serves_def find_correct_pingroup_from_None)
      have pg: "s\<lparr>pctrl := Some c, pin_group := None\<rparr> = s\<lparr>pctrl := Some c\<rparr>"
        using Cons.prems(3) by (intro gpio_state.equality) simp_all
      have "gpio_scan env (d # ds) s = gpio_scan env ds (s\<lparr>pctrl := Some c, pin_group := None\<rparr>)"
        using Some l lab_ok none
        by (simp add: kprog_simps bindk_def seqk_def find_correct_pingroup_def)
      moreover obtain pc where "gpio_scan env ds (s\<lparr>pctrl := Some c\<rparr>) = Inr ((), s\<lparr>pctrl := Some c, pctrl := pc\<rparr>)"
        using Cons.IH [OF lab rest, of "s\<lparr>pctrl := Some c\<rparr>"] Cons.prems(3) by auto
      ultimately show ?thesis unfolding pg by auto
    qed
  qed
qed

section \<open>Initialisation and injection\<close>

lemma find_filter_hd: "find P xs = (case filter P xs of [] \<Rightarrow> None | x # ys \<Rightarrow> Some x)"
  by (induction xs) auto

lemma find_serving: "find (serves env) (map the (filter (\<lambda>d. d \<noteq> None) (gpio_table env)))
    = (case serving_chips env of [] \<Rightarrow> None | c # cs \<Rightarrow> Some c)"
  by (simp only: serving_chips_def find_filter_hd)

text \<open>The kernel exports what the driver looks up.\<close>

definition gpio_symbols :: "gpio_env \<Rightarrow> bool" where
  "gpio_symbols env \<longleftrightarrow> kallsyms_lookup_name (kenv_of env) ''msm_gpio_set'' \<noteq> 0
     \<and> kallsyms_lookup_name (kenv_of env) ''gpio_desc'' \<noteq> 0"

lemma pinctrl_init_unfold:
  assumes "gpio_symbols env"
  shows "pinctrl_interrupt_init env s = seqk (gpio_scan env (gpio_table env))
           (bindk (readk pin_group) (\<lambda>g. if g = None then retk False else retk True))
           (s\<lparr>msm_gpio_set_ptr := kallsyms_lookup_name (kenv_of env) ''msm_gpio_set'',
             gpio_desc_ptr := kallsyms_lookup_name (kenv_of env) ''gpio_desc''\<rparr>)"
  using assms by (simp add: pinctrl_interrupt_init_def gpio_symbols_def seqk_def bindk_def kprog_simps)

lemma pinctrl_init_found:
  assumes "gpio_symbols env" and "labelled (gpio_table env)" and "serving_chips env = chip # cs"
  shows "\<exists>i g. find_correct_pingroup_from (touchscreen_irq_hardware env) 0 (soc_groups chip) = Some (i, g)
     \<and> pinctrl_interrupt_init env s = Inr (True, s\<lparr>
         msm_gpio_set_ptr := kallsyms_lookup_name (kenv_of env) ''msm_gpio_set'',
         gpio_desc_ptr := kallsyms_lookup_name (kenv_of env) ''gpio_desc'',
         gpio_chip := Some chip, pin_group_index := word_of_nat i, pin_group := Some g,
         pctrl := Some chip\<rparr>)"
proof -
  let ?s = "s\<lparr>msm_gpio_set_ptr := kallsyms_lookup_name (kenv_of env) ''msm_gpio_set'',
             gpio_desc_ptr := kallsyms_lookup_name (kenv_of env) ''gpio_desc''\<rparr>"
  have "find (serves env) (map the (filter (\<lambda>d. d \<noteq> None) (gpio_table env))) = Some chip"
    unfolding find_serving assms(3) by simp
  from gpio_scan_found [OF assms(2) this, of ?s] show ?thesis
    unfolding pinctrl_init_unfold [OF assms(1)] by (auto simp: seqk_def bindk_def kprog_simps)
qed

lemma pinctrl_init_not_found:
  assumes "gpio_symbols env" and "labelled (gpio_table env)" and "serving_chips env = []"
    and "pin_group s = None"
  shows "\<exists>pc. pinctrl_interrupt_init env s = Inr (False, s\<lparr>
         msm_gpio_set_ptr := kallsyms_lookup_name (kenv_of env) ''msm_gpio_set'',
         gpio_desc_ptr := kallsyms_lookup_name (kenv_of env) ''gpio_desc'', pctrl := pc\<rparr>)"
proof -
  let ?s = "s\<lparr>msm_gpio_set_ptr := kallsyms_lookup_name (kenv_of env) ''msm_gpio_set'',
             gpio_desc_ptr := kallsyms_lookup_name (kenv_of env) ''gpio_desc''\<rparr>"
  have "find (serves env) (map the (filter (\<lambda>d. d \<noteq> None) (gpio_table env))) = None"
    unfolding find_serving assms(3) by simp
  from gpio_scan_not_found [OF assms(2) this, of ?s] assms(4) show ?thesis
    unfolding pinctrl_init_unfold [OF assms(1)] by (auto simp: seqk_def bindk_def kprog_simps)
qed

lemma pinctrl_init_no_symbols:
  assumes "\<not> gpio_symbols env"
  shows "\<exists>s'. pinctrl_interrupt_init env s = Inr (False, s')"
  using assms
  by (cases "kallsyms_lookup_name (kenv_of env) ''msm_gpio_set'' = 0")
     (simp_all add: pinctrl_interrupt_init_def gpio_symbols_def kprog_simps Let_def seqk_def bindk_def)

text \<open>A machine on which the initialisation succeeds.\<close>

definition gpio_works :: "gpio_env \<Rightarrow> bool" where
  "gpio_works env \<longleftrightarrow> (gpio_driver_of env = MsmPinctrl \<longrightarrow>
     gpio_symbols env \<and> labelled (gpio_table env) \<and> serving_chips env \<noteq> [])"

lemma gpio_init_works:
  assumes "gpio_works env"
  shows "\<exists>s'. gpio_msm_interrupt_init env s = Inr (True, s')"
proof (cases "gpio_driver_of env")
  case MsmV2
  then show ?thesis by (simp add: gpio_msm_interrupt_init_def v2_interrupt_init_def retk_apply)
next
  case MsmPinctrl
  with assms obtain chip cs where "gpio_symbols env" "labelled (gpio_table env)" "serving_chips env = chip # cs"
    by (auto simp: gpio_works_def neq_Nil_conv)
  from pinctrl_init_found [OF this, of s] MsmPinctrl show ?thesis
    by (auto simp: gpio_msm_interrupt_init_def)
qed

text \<open>Initialisation touches the driver's own variables only.\<close>

lemma gpio_scan_frame: "keeps same_but_gpio (gpio_scan env ds :: ('a gpio_state_scheme, unit) kprog)"
proof (induction ds)
  case Nil
  show ?case by (simp add: gpio_frame.keeps_retk)
next
  case (Cons d ds)
  then show ?case
    by (cases d)
       (auto simp: find_correct_pingroup_def intro!: gpio_frame.keeps_rules split: prod.split)
qed

lemma gpio_init_frame:
  "keeps same_but_gpio (gpio_msm_interrupt_init env :: ('a gpio_state_scheme, bool) kprog)"
  by (cases "gpio_driver_of env")
     (auto simp: gpio_msm_interrupt_init_def v2_interrupt_init_def pinctrl_interrupt_init_def Let_def
       intro!: gpio_frame.keeps_rules gpio_scan_frame)

text \<open>With labels everywhere it always returns.\<close>

lemma gpio_scan_returns:
  "labelled ds \<Longrightarrow> \<exists>s'. gpio_scan env ds s = Inr ((), s')"
proof (induction ds arbitrary: s)
  case Nil
  then show ?case by (simp add: kprog_simps)
next
  case (Cons d ds)
  have lab: "labelled ds" using Cons.prems by (simp add: labelled_def)
  show ?case
  proof (cases d)
    case None
    then show ?thesis using Cons.IH [OF lab] by simp
  next
    case (Some c)
    then obtain l where "chip_label c = Some l" using Cons.prems by (auto simp: labelled_def)
    with Some Cons.IH [OF lab] show ?thesis
      by (cases "find_correct_pingroup_from (touchscreen_irq_hardware env) 0 (soc_groups c)")
         (auto simp: bindk_def seqk_def kprog_simps find_correct_pingroup_def)
  qed
qed

lemma gpio_init_returns:
  assumes "gpio_driver_of env = MsmPinctrl \<Longrightarrow> labelled (gpio_table env)"
  shows "\<exists>b s'. gpio_msm_interrupt_init env s = Inr (b, s')"
proof (cases "gpio_driver_of env")
  case MsmV2
  then show ?thesis by (auto simp: gpio_msm_interrupt_init_def v2_interrupt_init_def kprog_simps)
next
  case MsmPinctrl
  show ?thesis
  proof (cases "gpio_symbols env")
    case True
    obtain s1 where "gpio_scan env (gpio_table env)
        (s\<lparr>msm_gpio_set_ptr := kallsyms_lookup_name (kenv_of env) ''msm_gpio_set'',
           gpio_desc_ptr := kallsyms_lookup_name (kenv_of env) ''gpio_desc''\<rparr>) = Inr ((), s1)"
      using gpio_scan_returns [OF assms [OF MsmPinctrl]] by blast
    with MsmPinctrl show ?thesis
      by (auto simp: gpio_msm_interrupt_init_def pinctrl_init_unfold [OF True] seqk_def bindk_def
          kprog_simps)
  next
    case False
    with MsmPinctrl pinctrl_init_no_symbols [OF False, of s] show ?thesis
      by (simp add: gpio_msm_interrupt_init_def) blast
  qed
qed

section \<open>Properties\<close>

definition demo_group :: "u32 list \<Rightarrow> msm_pingroup" where
  "demo_group ps = \<lparr>pins = ps, intr_status_reg = 0x100c, intr_status_bit = 3\<rparr>"

definition demo_chip :: msm_chip where
  "demo_chip = \<lparr>chip_addr = 0x7000, chip_label = Some ''1010000.pinctrl'',
     soc_groups = [demo_group [4, 5], demo_group [124, 125], demo_group [125]], regs = 0x9000\<rparr>"

definition demo_gpio_env :: gpio_env where
  "demo_gpio_env = \<lparr>kenv_of = demo_env, gpio_table = [None, Some (demo_chip\<lparr>chip_label := Some ''pmic''\<rparr>), Some demo_chip],
     readl_result = (\<lambda>_. 0x60), MSM_TLMM_BASE = 0xfa000000, gpio_driver_of = MsmPinctrl,
     touchscreen_irq_hardware = 125\<rparr>"

definition demo_gpio_state :: gpio_state where
  "demo_gpio_state = main_state.extend (registry_state.extend demo_registry \<lparr>injection = 0\<rparr>)
     \<lparr>msm_gpio_set_ptr = 0, gpio_desc_ptr = 0, gpio_chip = None, pin_group_index = 0,
      pin_group = None, pctrl = None\<rparr>"

lemma demo_gpio_ok:
  "gpio_symbols demo_gpio_env" "labelled (gpio_table demo_gpio_env)"
  "serving_chips demo_gpio_env = [demo_chip]"
  by (auto simp: gpio_symbols_def labelled_def serving_chips_def serves_def demo_gpio_env_def
      demo_env_def demo_chip_def demo_group_def)

text \<open>
  C29. The search of the pin controllers is exact: given the two kernel symbols, initialisation
  returns true exactly when some labelled \<open>pinctrl\<close> chip has a group with the touchscreen's pin;
  without the symbols it returns false. It never stops when every chip has a label.
\<close>

theorem pinctrl_init_exact:
  assumes "labelled (gpio_table env)" and "pin_group s = None"
  shows "\<exists>s'. pinctrl_interrupt_init env s = Inr (gpio_symbols env \<and> serving_chips env \<noteq> [], s')"
proof (cases "gpio_symbols env")
  case True
  show ?thesis
  proof (cases "serving_chips env")
    case Nil
    with pinctrl_init_not_found [OF True assms(1) Nil assms(2)] show ?thesis by auto
  next
    case (Cons chip cs)
    with pinctrl_init_found [OF True assms(1) Cons, of s] True show ?thesis by auto
  qed
next
  case False
  with pinctrl_init_no_symbols [OF False, of s] show ?thesis by simp
qed

theorem pinctrl_init_exact_witness:
  "\<exists>s'. pinctrl_interrupt_init demo_gpio_env demo_gpio_state
     = Inr (gpio_symbols demo_gpio_env \<and> serving_chips demo_gpio_env \<noteq> [], s')"
  by (rule pinctrl_init_exact [OF demo_gpio_ok(2)])
     (simp add: demo_gpio_state_def registry_state.defs main_state.defs)

text \<open>
  After a successful initialisation an injection raises the touchscreen's own interrupt: it
  writes the status register of the first group that contains the pin, in the first chip that has
  one, with the group's status bit set and every other bit as it was read, and then raises the
  line of that group on that chip.
\<close>

theorem pinctrl_inject_after_init:
  assumes "gpio_symbols env" and "labelled (gpio_table env)" and "serving_chips env = chip # cs"
    and "\<And>g. g \<in> set (soc_groups chip) \<Longrightarrow> intr_status_bit g < 32"
  shows "\<exists>i s1 s2 v. pinctrl_interrupt_init env s = Inr (True, s1)
     \<and> pinctrl_interrupt_inject env s1 = Inr (1, s2)
     \<and> i < length (soc_groups chip) \<and> touchscreen_irq_hardware env \<in> set (pins (soc_groups chip ! i))
     \<and> (\<forall>l < i. touchscreen_irq_hardware env \<notin> set (pins (soc_groups chip ! l)))
     \<and> klog s2 = klog s @ [Writel v (regs chip + ucast (intr_status_reg (soc_groups chip ! i))),
                           MsmGpioSet (chip_addr chip) (word_of_nat i) 1]
     \<and> (\<forall>b < 32. bit v b \<longleftrightarrow> b = intr_status_bit (soc_groups chip ! i)
          \<or> bit (readl_result env (regs chip + ucast (intr_status_reg (soc_groups chip ! i)))) b)"
proof -
  from pinctrl_init_found [OF assms(1-3), of s] obtain i g where
    found: "find_correct_pingroup_from (touchscreen_irq_hardware env) 0 (soc_groups chip) = Some (i, g)"
    and init: "pinctrl_interrupt_init env s = Inr (True, s\<lparr>
         msm_gpio_set_ptr := kallsyms_lookup_name (kenv_of env) ''msm_gpio_set'',
         gpio_desc_ptr := kallsyms_lookup_name (kenv_of env) ''gpio_desc'',
         gpio_chip := Some chip, pin_group_index := word_of_nat i, pin_group := Some g,
         pctrl := Some chip\<rparr>)" (is "_ = Inr (True, ?s1)") by blast
  from found have i: "i < length (soc_groups chip)" "g = soc_groups chip ! i"
    "touchscreen_irq_hardware env \<in> set (pins (soc_groups chip ! i))"
    "\<forall>l < i. touchscreen_irq_hardware env \<notin> set (pins (soc_groups chip ! l))"
    unfolding find_correct_pingroup_from_Some by auto
  let ?reg = "regs chip + ucast (intr_status_reg g)"
  let ?v = "readl_result env ?reg OR push_bit (intr_status_bit g) 1"
  have "kallsyms_lookup_name (kenv_of env) ''msm_gpio_set'' \<noteq> 0"
    using assms(1) by (simp add: gpio_symbols_def)
  then have inject: "\<exists>s2. pinctrl_interrupt_inject env ?s1 = Inr (1, s2)
      \<and> klog s2 = klog s @ [Writel ?v ?reg, MsmGpioSet (chip_addr chip) (word_of_nat i) 1]"
    by (simp add: pinctrl_interrupt_inject_def bindk_def seqk_def kprog_simps Let_def)
  have "intr_status_bit g < 32" using assms(4) i by simp
  then have "\<forall>b < 32. bit ?v b \<longleftrightarrow> b = intr_status_bit g \<or> bit (readl_result env ?reg) b"
    by (auto simp: bit_simps)
  with init inject i show ?thesis by blast
qed

theorem pinctrl_inject_after_init_witness:
  "\<exists>i s1 s2 v. pinctrl_interrupt_init demo_gpio_env demo_gpio_state = Inr (True, s1)
     \<and> pinctrl_interrupt_inject demo_gpio_env s1 = Inr (1, s2)
     \<and> i < length (soc_groups demo_chip) \<and> touchscreen_irq_hardware demo_gpio_env \<in> set (pins (soc_groups demo_chip ! i))
     \<and> (\<forall>l < i. touchscreen_irq_hardware demo_gpio_env \<notin> set (pins (soc_groups demo_chip ! l)))
     \<and> klog s2 = klog demo_gpio_state @ [Writel v (regs demo_chip + ucast (intr_status_reg (soc_groups demo_chip ! i))),
                           MsmGpioSet (chip_addr demo_chip) (word_of_nat i) 1]
     \<and> (\<forall>b < 32. bit v b \<longleftrightarrow> b = intr_status_bit (soc_groups demo_chip ! i)
          \<or> bit (readl_result demo_gpio_env (regs demo_chip + ucast (intr_status_reg (soc_groups demo_chip ! i)))) b)"
  by (rule pinctrl_inject_after_init [OF demo_gpio_ok])
     (auto simp: demo_chip_def demo_group_def)

end
