(* ===== verification/KD_Touchscreen.thy ===== *)
theory KD_Touchscreen
  imports KD_Gpio
begin

text \<open>
  The touchscreen plugin of the phones: \<open>source/plugins/touchscreen/plugin.c\<close> with its two devices
  \<open>devices/s3320.c\<close> and \<open>devices/s3350.c\<close>.
\<close>

section \<open>Constants and state\<close>

definition SEND_VALUE :: int where "SEND_VALUE = 230"

text \<open>Event types and codes of \<open>linux/input.h\<close> (the two time codes are those of the phones' kernels).\<close>

definition EV_SYN :: u32 where "EV_SYN = 0"
definition EV_ABS :: u32 where "EV_ABS = 3"
definition SYN_TIME_SEC :: u32 where "SYN_TIME_SEC = 4"
definition SYN_TIME_NSEC :: u32 where "SYN_TIME_NSEC = 5"
definition BTN_TOOL_FINGER :: u32 where "BTN_TOOL_FINGER = 0x145"
definition ABS_MT_TOUCH_MAJOR :: u32 where "ABS_MT_TOUCH_MAJOR = 0x30"
definition ABS_MT_TOUCH_MINOR :: u32 where "ABS_MT_TOUCH_MINOR = 0x31"
definition ABS_MT_POSITION_X :: u32 where "ABS_MT_POSITION_X = 0x35"
definition ABS_MT_POSITION_Y :: u32 where "ABS_MT_POSITION_Y = 0x36"
definition MT_TOOL_FINGER :: u32 where "MT_TOOL_FINGER = 0"

text \<open>
  Input devices of the kernel. A handle points to its handler by address; several handles may share
  one. The filter of each handler is part of the state, because the plugin replaces it.
\<close>

datatype filter_ptr = NoFilter | TouchscreenFilter | OtherFilter nat

record input_handle =
  handle_handler :: addr
  handle_open :: int

record input_dev =
  dev_addr :: addr
  dev_name :: "string option"
  dev_grab :: "input_handle option"
  dev_h_list :: "input_handle list"

datatype ts_device = S3320 | S3350

record ts_env =
  gpio_of :: gpio_env
  input_devs :: "input_dev list"
  touchscreen_device :: ts_device
  touchscreen_irq_software :: int
  clock :: "nat \<Rightarrow> int \<times> int"

abbreviation ts_kenv :: "ts_env \<Rightarrow> kenv" where
  "ts_kenv env \<equiv> kenv_of (gpio_of env)"

definition device_string :: "ts_env \<Rightarrow> string" where
  "device_string env = (case touchscreen_device env of S3320 \<Rightarrow> ''s3320'' | S3350 \<Rightarrow> ''s3350'')"

record ts_plugin_data =
  touchscreen_affinity :: u32
  touchscreen_input_dev :: addr
  ts_irq_handler :: addr
  ts_data_state :: int

text \<open>
  The list of saved filters has its newest entry first; it is \<open>None\<close> until its head is initialised.
  An entry is the address it was allocated at, the handle, and the filter that was there.
\<close>

record ts_state = gpio_state +
  ts_event :: event
  input_handle_list :: "(addr \<times> input_handle \<times> filter_ptr) list option"
  handler_filter :: "addr \<Rightarrow> filter_ptr"
  ts_data :: "addr \<Rightarrow> ts_plugin_data"
  abs_defuzz :: int
  clock_pos :: nat

definition plugin_touchscreen_object :: "ts_env \<Rightarrow> event_plugin" where
  "plugin_touchscreen_object env = \<lparr>plugin_name = Some (device_string env @ ''touchscreen''),
     init_fn = Some TouchscreenInit, cleanup_fn = Some TouchscreenCleanup,
     enable_fn = Some TouchscreenEnable, disable_fn = Some TouchscreenDisable, callback_fn = None,
     inject_fn = Some TouchscreenInject, update_fn = Some TouchscreenUpdate, plugin_id = 0,
     plugin_data = 0\<rparr>"

section \<open>The filter\<close>

definition TOUCHSCREEN_FILTER_NOT_IN_RANGE :: "int \<Rightarrow> int \<Rightarrow> int \<Rightarrow> bool" where
  "TOUCHSCREEN_FILTER_NOT_IN_RANGE v middle width \<longleftrightarrow> v > middle + width \<or> v < middle - width"

definition touchscreen_filter ::
  "ts_env \<Rightarrow> input_handle \<Rightarrow> u32 \<Rightarrow> u32 \<Rightarrow> int \<Rightarrow> ('a ts_state_scheme, bool) kprog" where
  "touchscreen_filter env handle type code value =
     (let tap = (if type = EV_ABS \<and> code = ABS_MT_POSITION_X
                    \<and> TOUCHSCREEN_FILTER_NOT_IN_RANGE value SEND_VALUE 1
                 then emit (TaskletSchedule TsTapNotify) else retk ())
      in if linux_version_code (ts_kenv env) \<le> kernel_version 3 6 0
         then seqk (emit (HandlerEvent (handle_handler handle) type code value))
             (seqk tap (retk True))
         else seqk tap (retk False))"

section \<open>The hook handler and the callback\<close>

definition touchscreen_hook_handler ::
  "ts_env \<Rightarrow> (flow_handler \<Rightarrow> int \<Rightarrow> ('a hook_state_scheme, unit) kprog) \<Rightarrow> int
     \<Rightarrow> ('a hook_state_scheme, unit) kprog" where
  "touchscreen_hook_handler env run_flow irq =
     bindk (bindk (readk (irq_to_desc irq)) derefk) (\<lambda>desc.
       let unhandled = irqs_unhandled desc
       in bindk (get_randomk (ts_kenv env) 1 1000) (\<lambda>r.
          seqk (emit (Udelay r))
         (bindk (bindk (hook_get_original (touchscreen_irq_software env)) derefk) (\<lambda>orig.
          seqk (run_flow orig irq)
               (modk (upd_desc irq (irqs_unhandled_update (\<lambda>_. unhandled))))))))"

definition touchscreen_callback ::
  "'a ts_state_scheme dispatcher \<Rightarrow> bool \<Rightarrow> ('a ts_state_scheme, unit) kprog" where
  "touchscreen_callback run press =
     seqk (modk (\<lambda>s. s\<lparr>ts_event := (ts_event s)\<lparr>event_type := (if press then KEY_PRESS else KEY_RELEASE)\<rparr>\<rparr>))
    (bindk (readk (\<lambda>s. callback_fn (plugin_objs s plugin_touchscreen))) (\<lambda>cb.
       case cb of None \<Rightarrow> retk () | Some f \<Rightarrow> seqk (run f plugin_touchscreen) (retk ())))"

text \<open>The two tasklets as \<open>DECLARE_TASKLET\<close> binds them.\<close>

definition ts_tasklet ::
  "'a ts_state_scheme dispatcher \<Rightarrow> tasklet_id \<Rightarrow> ('a ts_state_scheme, unit) kprog" where
  "ts_tasklet run t =
     (case t of
        TsTapNotify \<Rightarrow> touchscreen_callback run True
      | TsReleaseNotify \<Rightarrow> touchscreen_callback run False
      | _ \<Rightarrow> stopk NullDeref)"

section \<open>Finding the device and replacing its filters\<close>

fun find_input_dev :: "string \<Rightarrow> input_dev list \<Rightarrow> input_dev option res" where
  "find_input_dev name [] = Inr None"
| "find_input_dev name (dev # devs) =
     (case dev_name dev of
        None \<Rightarrow> Inl NullDeref
      | Some n \<Rightarrow> if strstr n name \<noteq> None \<or> strstr n ''touch_dev'' \<noteq> None then Inr (Some dev)
                  else find_input_dev name devs)"

definition find_touchscreen_device :: "ts_env \<Rightarrow> string \<Rightarrow> ('a ts_state_scheme, input_dev option) kprog" where
  "find_touchscreen_device env name =
     (if kallsyms_lookup_name (ts_kenv env) ''input_dev_list'' = 0 then stopk NullDeref
      else liftk (find_input_dev name (input_devs env)))"

definition input_handle_list_add ::
  "ts_env \<Rightarrow> input_handle \<Rightarrow> filter_ptr \<Rightarrow> ('a ts_state_scheme, unit) kprog" where
  "input_handle_list_add env handle flt =
     bindk (vmalloc (ts_kenv env)) (\<lambda>tmp.
       if tmp = 0 then stopk NullDeref
       else bindk (bindk (readk input_handle_list) derefk) (\<lambda>entries.
            modk (\<lambda>s. s\<lparr>input_handle_list := Some ((tmp, handle, flt) # entries)\<rparr>)))"

definition patch_handle :: "ts_env \<Rightarrow> input_handle \<Rightarrow> ('a ts_state_scheme, unit) kprog" where
  "patch_handle env handle =
     seqk (bindk (readk (\<lambda>s. handler_filter s (handle_handler handle)))
             (input_handle_list_add env handle))
          (modk (\<lambda>s. s\<lparr>handler_filter := (handler_filter s)(handle_handler handle := TouchscreenFilter)\<rparr>))"

definition modify_touchscreen_device :: "ts_env \<Rightarrow> input_dev option \<Rightarrow> ('a ts_state_scheme, int) kprog" where
  "modify_touchscreen_device env dev =
     (case dev of
        None \<Rightarrow> retk 1
      | Some dev \<Rightarrow>
          (case dev_grab dev of
             Some handle \<Rightarrow> seqk (patch_handle env handle) (retk 0)
           | None \<Rightarrow> seqk (for_eachk (dev_h_list dev)
                             (\<lambda>handle. if handle_open handle \<noteq> 0 then patch_handle env handle else retk ()))
                          (retk 0)))"

fun reset_entries :: "(addr \<times> input_handle \<times> filter_ptr) list \<Rightarrow> ('a ts_state_scheme, unit) kprog" where
  "reset_entries [] = retk ()"
| "reset_entries ((a, handle, flt) # es) =
     seqk (modk (\<lambda>s. s\<lparr>handler_filter := (handler_filter s)(handle_handler handle := flt)\<rparr>))
    (seqk (modk (\<lambda>s. s\<lparr>input_handle_list := Some es\<rparr>))
    (seqk (emit (Vfree a))
    (reset_entries es)))"

definition reset_touchscreen_device :: "('a ts_state_scheme, int) kprog" where
  "reset_touchscreen_device =
     bindk (bindk (readk input_handle_list) derefk) (\<lambda>es. seqk (reset_entries es) (retk 0))"

section \<open>Injection\<close>

definition s3320_get_irq_handler :: "kenv \<Rightarrow> addr" where
  "s3320_get_irq_handler env = kallsyms_lookup_name env ''msm_gpio_irq_handler''"

definition s3350_get_irq_handler :: "kenv \<Rightarrow> addr" where
  "s3350_get_irq_handler env = kallsyms_lookup_name env ''touch_irq_handler''"

definition touchscreen_device_get_irq_handler :: "ts_env \<Rightarrow> addr" where
  "touchscreen_device_get_irq_handler env =
     (case touchscreen_device env of
        S3320 \<Rightarrow> s3320_get_irq_handler (ts_kenv env) | S3350 \<Rightarrow> s3350_get_irq_handler (ts_kenv env))"

definition ktime_get :: "ts_env \<Rightarrow> ('a ts_state_scheme, int \<times> int) kprog" where
  "ktime_get env s = Inr (clock env (clock_pos s), s\<lparr>clock_pos := Suc (clock_pos s)\<rparr>)"

text \<open>Passing a number as an \<open>int\<close> argument.\<close>

definition to_int :: "int \<Rightarrow> int" where
  "to_int x = sint (word_of_int x :: u32)"

definition TOUCHSCREEN_ABS_DEFUZZ :: "'a ts_state_scheme \<Rightarrow> int \<Rightarrow> int" where
  "TOUCHSCREEN_ABS_DEFUZZ s v = abs_defuzz s + v"

definition TOUCHSCREEN_ABS_DEFUZZ_UPDATE :: "('a ts_state_scheme, unit) kprog" where
  "TOUCHSCREEN_ABS_DEFUZZ_UPDATE =
     modk (\<lambda>s. s\<lparr>abs_defuzz := (if abs_defuzz s = 0 then 1 else 0)\<rparr>)"

definition report_abs :: "addr \<Rightarrow> u32 \<Rightarrow> int \<Rightarrow> ('a ts_state_scheme, unit) kprog" where
  "report_abs dev code v =
     bindk (readk (\<lambda>s. TOUCHSCREEN_ABS_DEFUZZ s v)) (\<lambda>x. emit (InputReportAbs dev code x))"

text \<open>The body of the loop over the online CPUs, the same in both devices.\<close>

definition touchscreen_inject_cpu :: "addr \<Rightarrow> nat \<Rightarrow> ('a ts_state_scheme, unit) kprog" where
  "touchscreen_inject_cpu data c =
     bindk (liftk (shift_1 c)) (\<lambda>bit_c.
     bindk (readk (\<lambda>s. touchscreen_affinity (ts_data s data))) (\<lambda>aff.
       if aff AND bit_c \<noteq> 0 \<or> aff = 0 then emit (SmpCallInject c) else retk ()))"

definition s3320_inject :: "ts_env \<Rightarrow> addr \<Rightarrow> ('a ts_state_scheme, int) kprog" where
  "s3320_inject env data =
     (if data = 0 then stopk NullDeref
      else bindk (readk (\<lambda>s. touchscreen_input_dev (ts_data s data))) (\<lambda>dev.
        bindk (ktime_get env) (\<lambda>t.
        seqk (doallk [
          emit (InputEvent dev EV_SYN SYN_TIME_SEC (to_int (fst t))),
          emit (InputEvent dev EV_SYN SYN_TIME_NSEC (to_int (snd t))),
          emit (InputMtSlot dev 0),
          emit (InputMtReportSlotState dev MT_TOOL_FINGER True),
          emit (InputReportKey dev BTN_TOOL_FINGER 1),
          report_abs dev ABS_MT_POSITION_X SEND_VALUE,
          report_abs dev ABS_MT_POSITION_Y SEND_VALUE,
          report_abs dev ABS_MT_TOUCH_MAJOR 20,
          report_abs dev ABS_MT_TOUCH_MINOR 20,
          TOUCHSCREEN_ABS_DEFUZZ_UPDATE,
          emit (InputSync dev)])
       (bindk (ktime_get env) (\<lambda>t.
        seqk (doallk [
          emit (InputEvent dev EV_SYN SYN_TIME_SEC (to_int (fst t))),
          emit (InputEvent dev EV_SYN SYN_TIME_NSEC (to_int (snd t))),
          emit (InputMtSlot dev 0),
          emit (InputMtReportSlotState dev MT_TOOL_FINGER False),
          emit (InputReportKey dev BTN_TOOL_FINGER 0),
          emit (InputSync dev)])
       (seqk (for_eachk (online_cpus (ts_kenv env)) (touchscreen_inject_cpu data))
       (seqk (bindk (readk (\<lambda>s. ts_irq_handler (ts_data s data)))
                (\<lambda>h. prefetch_range (ts_kenv env) h 4096))
       (retk 0))))))))"

definition s3350_inject :: "ts_env \<Rightarrow> addr \<Rightarrow> ('a ts_state_scheme, int) kprog" where
  "s3350_inject env data =
     (if data = 0 then stopk NullDeref
      else bindk (readk (\<lambda>s. touchscreen_input_dev (ts_data s data))) (\<lambda>dev.
        bindk (ktime_get env) (\<lambda>t.
        seqk (doallk [
          emit (InputEvent dev EV_SYN SYN_TIME_SEC (to_int (fst t))),
          emit (InputEvent dev EV_SYN SYN_TIME_NSEC (to_int (snd t))),
          emit (InputMtSlot dev 0),
          emit (InputMtReportSlotState dev MT_TOOL_FINGER True),
          report_abs dev ABS_MT_POSITION_X SEND_VALUE,
          report_abs dev ABS_MT_POSITION_Y SEND_VALUE,
          report_abs dev ABS_MT_TOUCH_MAJOR 20,
          report_abs dev ABS_MT_TOUCH_MINOR 20,
          TOUCHSCREEN_ABS_DEFUZZ_UPDATE,
          emit (InputSync dev)])
       (bindk (ktime_get env) (\<lambda>t.
        seqk (doallk [
          emit (InputEvent dev EV_SYN SYN_TIME_SEC (to_int (fst t))),
          emit (InputEvent dev EV_SYN SYN_TIME_NSEC (to_int (snd t + 20))),
          emit (InputMtSlot dev 0),
          emit (InputMtReportSlotState dev MT_TOOL_FINGER False),
          emit (InputReportKey dev BTN_TOOL_FINGER 0),
          emit (InputSync dev)])
       (seqk (for_eachk (online_cpus (ts_kenv env)) (touchscreen_inject_cpu data))
       (seqk (bindk (readk (\<lambda>s. ts_irq_handler (ts_data s data)))
                (\<lambda>h. prefetch_range (ts_kenv env) h 4096))
       (retk 0))))))))"

definition touchscreen_inject :: "ts_env \<Rightarrow> addr \<Rightarrow> ('a ts_state_scheme, int) kprog" where
  "touchscreen_inject env data =
     (case touchscreen_device env of S3320 \<Rightarrow> s3320_inject env data | S3350 \<Rightarrow> s3350_inject env data)"

section \<open>The plugin\<close>

definition touchscreen_update :: "int \<Rightarrow> addr \<Rightarrow> ('a ts_state_scheme, int) kprog" where
  "touchscreen_update new_state data =
     (if data = 0 then stopk NullDeref
      else seqk (modk (\<lambda>s. s\<lparr>ts_data := (ts_data s)(data := (ts_data s data)\<lparr>ts_data_state := new_state\<rparr>)\<rparr>))
                (retk 0))"

text \<open>\<open>vmalloc\<close> leaves the field \<open>state\<close> of the new structure as the memory was.\<close>

definition touchscreen_init_data ::
  "ts_env \<Rightarrow> nat option \<Rightarrow> u32 \<Rightarrow> addr \<Rightarrow> addr \<Rightarrow> ('a ts_state_scheme, int) kprog" where
  "touchscreen_init_data env data affinity dev handler =
     (case data of
        None \<Rightarrow> retk 0
      | Some p \<Rightarrow>
          bindk (vmalloc (ts_kenv env)) (\<lambda>d.
            if d = 0 then stopk NullDeref
            else
              seqk (modk (\<lambda>s. s\<lparr>ts_data := (ts_data s)(d := (ts_data s d)\<lparr>touchscreen_affinity := affinity,
                        touchscreen_input_dev := dev, ts_irq_handler := handler\<rparr>)\<rparr>))
             (seqk (modk (upd_plugin p (plugin_data_update (\<lambda>_. d))))
             (retk 0))))"

definition touchscreen_init_hook ::
  "ts_env \<Rightarrow> nat option \<Rightarrow> input_dev \<Rightarrow> ('a ts_state_scheme, int) kprog" where
  "touchscreen_init_hook env data dev =
     (let irq = touchscreen_irq_software env; handler = touchscreen_device_get_irq_handler env
      in bindk (hook_interrupt irq (Some TouchscreenHookHandler)) (\<lambda>r.
         if r \<noteq> 0 then retk 1
         else bindk (bindk (readk (get_irq_affinity (ts_kenv env) irq)) liftk) (\<lambda>a.
              touchscreen_init_data env data a (dev_addr dev) handler)))"

definition touchscreen_init :: "ts_env \<Rightarrow> nat option \<Rightarrow> ('a ts_state_scheme, int) kprog" where
  "touchscreen_init env data =
     seqk (modk (\<lambda>s. s\<lparr>ts_event := (ts_event s)\<lparr>event_data := 0, event_len := 0\<rparr>\<rparr>))
    (seqk (modk (\<lambda>s. s\<lparr>input_handle_list := Some []\<rparr>))
    (bindk (find_touchscreen_device env (device_string env)) (\<lambda>found.
       case found of
         None \<Rightarrow> retk 1
       | Some dev \<Rightarrow>
           bindk (modify_touchscreen_device env (Some dev)) (\<lambda>r.
           if r \<noteq> 0 then retk 1
           else bindk (gpio_msm_interrupt_init (gpio_of env)) (\<lambda>ok.
                if ok \<noteq> True then retk 1
                else touchscreen_init_hook env data dev)))))"

definition touchscreen_cleanup :: "ts_env \<Rightarrow> ('a ts_state_scheme, int) kprog" where
  "touchscreen_cleanup env =
     seqk (gpio_msm_interrupt_clear (gpio_of env))
    (seqk reset_touchscreen_device
    (seqk (unhook_interrupt (touchscreen_irq_software env))
    (retk 0)))"

definition touchscreen_enable :: "('a ts_state_scheme, int) kprog" where
  "touchscreen_enable = retk 0"

definition touchscreen_disable :: "('a ts_state_scheme, int) kprog" where
  "touchscreen_disable = retk 0"

section \<open>What each operation leaves alone\<close>

lemma keeps_hooks_emit: "keeps same_hooks (emit c :: ('a hook_state_scheme, unit) kprog)"
  by (simp add: keeps_def emit_apply same_hooks_def)

lemma keeps_hooks_vmalloc: "keeps same_hooks (vmalloc env :: ('a hook_state_scheme, addr) kprog)"
  by (simp add: keeps_def vmalloc_def Let_def same_hooks_def)

lemma keeps_hooks_gpio_init:
  "keeps same_hooks (gpio_msm_interrupt_init env :: ('a gpio_state_scheme, bool) kprog)"
  by (rule keepsI) (blast dest: keepsD [OF gpio_init_frame] same_but_gpioD(3))

lemma same_hooks_ts_updates [simp]:
  fixes s :: "'a ts_state_scheme"
  shows "same_hooks s (s\<lparr>input_handle_list := l\<rparr>)" "same_hooks s (s\<lparr>handler_filter := f\<rparr>)"
    "same_hooks s (s\<lparr>ts_data := d\<rparr>)" "same_hooks s (s\<lparr>ts_event := e\<rparr>)"
    "same_hooks s (s\<lparr>abs_defuzz := z\<rparr>)" "same_hooks s (upd_plugin p g s)"
  by (simp_all add: same_hooks_def upd_plugin_def)

lemmas keeps_hooks_rules = hook_frame.keeps_rules keeps_hooks_emit keeps_hooks_vmalloc
  keeps_hooks_gpio_init

lemma keeps_hooks_patch_handle:
  "keeps same_hooks (patch_handle env h :: ('a ts_state_scheme, unit) kprog)"
  by (auto simp: patch_handle_def input_handle_list_add_def intro!: keeps_hooks_rules)

lemma keeps_hooks_modify:
  "keeps same_hooks (modify_touchscreen_device env dev :: ('a ts_state_scheme, int) kprog)"
  by (auto simp: modify_touchscreen_device_def
      intro!: keeps_hooks_rules keeps_hooks_patch_handle split: option.split)

lemma keeps_hooks_reset_entries:
  "keeps same_hooks (reset_entries es :: ('a ts_state_scheme, unit) kprog)"
  by (induction es rule: reset_entries.induct)
     (auto intro!: keeps_hooks_rules)

lemma keeps_hooks_init_data:
  "keeps same_hooks (touchscreen_init_data env data a dev h :: ('a ts_state_scheme, int) kprog)"
  by (auto simp: touchscreen_init_data_def intro!: keeps_hooks_rules split: option.split)

section \<open>Saving and restoring filters\<close>

text \<open>
  The abstract view of the filters: the filter of each handler, and a stack of saved ones. Pushing
  puts the plugin's filter in place, popping restores the newest entry. The two form a patch that
  can be taken back, even for handlers that are shared.
\<close>

type_synonym filter_view = "(addr \<Rightarrow> filter_ptr) \<times> (addr \<times> filter_ptr) list"

definition push_filter :: "addr \<Rightarrow> (filter_view, unit) kprog" where
  "push_filter k v = (case v of (f, st) \<Rightarrow> Inr ((), f(k := TouchscreenFilter), (k, f k) # st))"

definition pop_filter :: "addr \<Rightarrow> (filter_view, unit) kprog" where
  "pop_filter k v = (case v of
       (f, []) \<Rightarrow> Inl NullDeref
     | (f, (k', p) # st) \<Rightarrow> Inr ((), f(k' := p), st))"

interpretation filters: patching "\<lambda>_ _. True" "\<lambda>_ _. True" push_filter pop_filter
  by unfold_locales (auto simp: push_filter_def pop_filter_def)

definition filter_view_of :: "'a ts_state_scheme \<Rightarrow> filter_view" where
  "filter_view_of s = (handler_filter s,
     map (\<lambda>(a, h, p). (handle_handler h, p)) (case input_handle_list s of None \<Rightarrow> [] | Some es \<Rightarrow> es))"

text \<open>The handles \<open>modify_touchscreen_device\<close> patches.\<close>

definition patched_handles :: "input_dev \<Rightarrow> input_handle list" where
  "patched_handles dev =
     (case dev_grab dev of Some h \<Rightarrow> [h] | None \<Rightarrow> filter (\<lambda>h. handle_open h \<noteq> 0) (dev_h_list dev))"

lemma patch_handle_refines:
  assumes "vmalloc_result (ts_kenv env) (alloc_pos s) \<noteq> 0" and "input_handle_list s \<noteq> None"
  shows "\<exists>s'. patch_handle env h s = Inr ((), s') \<and> input_handle_list s' \<noteq> None
     \<and> push_filter (handle_handler h) (filter_view_of s) = Inr ((), filter_view_of s')"
  using assms
  by (auto simp: patch_handle_def input_handle_list_add_def vmalloc_def Let_def seqk_def bindk_def
      kprog_simps push_filter_def filter_view_of_def)

lemma patch_handles_refine:
  assumes "memory_ok (ts_kenv env)" and "input_handle_list s \<noteq> None"
  shows "\<exists>s'. for_eachk hs (patch_handle env) s = Inr ((), s') \<and> input_handle_list s' \<noteq> None
     \<and> for_eachk (map handle_handler hs) push_filter (filter_view_of s) = Inr ((), filter_view_of s')"
  using assms(2)
proof (induction hs arbitrary: s)
  case Nil
  then show ?case by (simp add: kprog_simps)
next
  case (Cons h hs)
  from patch_handle_refines [of env s h] assms(1) Cons.prems obtain s1 where
    s1: "patch_handle env h s = Inr ((), s1)" "input_handle_list s1 \<noteq> None"
      "push_filter (handle_handler h) (filter_view_of s) = Inr ((), filter_view_of s1)"
    by (auto simp: memory_ok_def)
  from Cons.IH [OF s1(2)] s1 show ?case by (auto simp: kprog_simps)
qed

lemma for_eachk_filter:
  "for_eachk xs (\<lambda>x. if P x then f x else retk ()) s = for_eachk (filter P xs) f s"
  by (induction xs arbitrary: s) (auto simp: seqk_def bindk_def kprog_simps split: sum.split)

lemma modify_refines:
  assumes "memory_ok (ts_kenv env)" and "input_handle_list s \<noteq> None"
  shows "\<exists>s'. modify_touchscreen_device env (Some dev) s = Inr (0, s') \<and> input_handle_list s' \<noteq> None
     \<and> for_eachk (map handle_handler (patched_handles dev)) push_filter (filter_view_of s)
         = Inr ((), filter_view_of s')"
proof -
  have "modify_touchscreen_device env (Some dev) s
      = seqk (for_eachk (patched_handles dev) (patch_handle env)) (retk 0) s"
    by (cases "dev_grab dev")
       (simp_all add: modify_touchscreen_device_def patched_handles_def seqk_def bindk_def
         for_eachk_filter kprog_simps split: sum.split)
  with patch_handles_refine [OF assms, of "patched_handles dev"] show ?thesis
    by (auto simp: kprog_simps)
qed

lemma reset_entries_refines:
  assumes "input_handle_list s = Some es" and "length ks = length es"
  shows "\<exists>s'. reset_entries es s = Inr ((), s') \<and> input_handle_list s' = Some []
     \<and> for_eachk ks pop_filter (filter_view_of s) = Inr ((), filter_view_of s')"
  using assms
proof (induction es arbitrary: s ks)
  case Nil
  then show ?case by (simp add: kprog_simps)
next
  case (Cons e es)
  obtain a h p where e: "e = (a, h, p)" by (cases e)
  from Cons.prems(2) obtain k ks' where ks: "ks = k # ks'" "length ks' = length es"
    by (cases ks) auto
  let ?s = "s\<lparr>handler_filter := (handler_filter s)(handle_handler h := p),
      input_handle_list := Some es, klog := klog s @ [Vfree a]\<rparr>"
  from Cons.IH [of ?s, OF _ ks(2)] obtain s' where
    s': "reset_entries es ?s = Inr ((), s')" "input_handle_list s' = Some []"
      "for_eachk ks' pop_filter (filter_view_of ?s) = Inr ((), filter_view_of s')" by auto
  have "pop_filter k (filter_view_of s) = Inr ((), filter_view_of ?s)"
    using Cons.prems(1) e by (simp add: pop_filter_def filter_view_of_def)
  with s' e ks show ?case by (simp add: seqk_def bindk_def kprog_simps)
qed

lemma reset_refines:
  assumes "input_handle_list s = Some es" and "length ks = length es"
  shows "\<exists>s'. reset_touchscreen_device s = Inr (0, s') \<and> input_handle_list s' = Some []
     \<and> for_eachk ks pop_filter (filter_view_of s) = Inr ((), filter_view_of s')"
  using reset_entries_refines [OF assms] assms
  by (auto simp: reset_touchscreen_device_def bindk_def seqk_def kprog_simps)

lemma push_filters:
  "for_eachk ks push_filter v = Inr ((), v') \<Longrightarrow>
     fst v' = (\<lambda>a. if a \<in> set ks then TouchscreenFilter else fst v a)
     \<and> length (snd v') = length ks + length (snd v)"
  by (induction ks arbitrary: v)
     (force simp: push_filter_def seqk_def bindk_def kprog_simps split: prod.splits)+

text \<open>Whatever was pushed from an empty stack is restored by a reset.\<close>

lemma reset_restores:
  assumes "input_handle_list s \<noteq> None"
    and "for_eachk ks push_filter (f, []) = Inr ((), filter_view_of s)"
  shows "\<exists>s'. reset_touchscreen_device s = Inr (0, s') \<and> input_handle_list s' = Some []
     \<and> handler_filter s' = f"
proof -
  from assms(1) obtain es where es: "input_handle_list s = Some es" by blast
  have "length (rev ks) = length es"
    using push_filters [OF assms(2)] es by (simp add: filter_view_of_def)
  from reset_refines [OF es this] obtain s' where s': "reset_touchscreen_device s = Inr (0, s')"
    "input_handle_list s' = Some []" "for_eachk (rev ks) pop_filter (filter_view_of s) = Inr ((), filter_view_of s')"
    by blast
  have "sorted_wrt (\<lambda>_ _. True) ks" by (induction ks) simp_all
  from filters.patch_all [OF this, of "(f, [])"] assms(2) s'(3)
  have "filter_view_of s' = (f, [])" by auto
  with s' show ?thesis by (auto simp: filter_view_of_def)
qed

section \<open>What \<open>touchscreen_init\<close> and \<open>touchscreen_cleanup\<close> do\<close>

text \<open>The part of the state that saving and restoring filters is about.\<close>

definition same_filters :: "'a ts_state_scheme \<Rightarrow> 'a ts_state_scheme \<Rightarrow> bool" where
  "same_filters s s' \<longleftrightarrow> handler_filter s' = handler_filter s \<and> input_handle_list s' = input_handle_list s"

interpretation filter_frame: frame_relation
  "same_filters :: 'a ts_state_scheme \<Rightarrow> 'a ts_state_scheme \<Rightarrow> bool"
  by unfold_locales (simp_all add: same_filters_def)

lemma same_filters_view: "same_filters s s' \<Longrightarrow> filter_view_of s' = filter_view_of s"
  by (simp add: same_filters_def filter_view_of_def)

lemma same_filters_updates [simp]:
  "same_filters s (s\<lparr>klog := l\<rparr>)" "same_filters s (s\<lparr>ts_data := d\<rparr>)" "same_filters s (upd_plugin p g s)"
  "same_filters s (hook_upd i h s)"
  by (simp_all add: same_filters_def upd_plugin_def hook_upd_def upd_desc_def)

lemma same_filters_gpio:
  assumes "gpio_msm_interrupt_init env s = Inr (b, s')"
  shows "same_filters s s'"
  using same_but_gpioD(6) [OF keepsD [OF gpio_init_frame assms]]
  by (cases s; cases s') (simp add: same_filters_def)

lemma keeps_filters_vmalloc: "keeps same_filters (vmalloc env :: ('a ts_state_scheme, addr) kprog)"
  by (simp add: keeps_def vmalloc_def Let_def same_filters_def)

lemma keeps_filters_init_data:
  "keeps same_filters (touchscreen_init_data env data a dev h :: ('a ts_state_scheme, int) kprog)"
  by (auto simp: touchscreen_init_data_def intro!: filter_frame.keeps_rules keeps_filters_vmalloc
      split: option.split)

lemma touchscreen_init_hook_cases:
  assumes ready: "irq_ready (touchscreen_irq_software env) s"
    and result: "touchscreen_init_hook env data dev s = Inr (r, s')"
  shows "same_filters s s' \<and> (r = 0 \<and> hookable (touchscreen_irq_software env) s
       \<and> same_hooks (hook_upd (touchscreen_irq_software env) (Some TouchscreenHookHandler) s) s'
     \<or> r = 1 \<and> s' = s)"
proof -
  let ?i = "touchscreen_irq_software env"
  from result obtain r1 s1 where hook: "hook_interrupt ?i (Some TouchscreenHookHandler) s = Inr (r1, s1)"
    and rest: "(if r1 \<noteq> 0 then retk 1 else
       bindk (bindk (readk (get_irq_affinity (ts_kenv env) ?i)) liftk) (\<lambda>a.
         touchscreen_init_data env data a (dev_addr dev) (touchscreen_device_get_irq_handler env))) s1
       = Inr (r, s')"
    by (auto simp: touchscreen_init_hook_def Let_def bindk_Inr_iff)
  from hook_ready_cases [OF ready hook] show ?thesis
  proof (elim disjE conjE)
    assume "r1 = - EINVAL" "s1 = s"
    with rest show ?thesis by (simp add: kprog_simps same_filters_def)
  next
    assume h: "r1 = 0" "hookable ?i s" "s1 = hook_upd ?i (Some TouchscreenHookHandler) s"
    from rest h(1) obtain a where
      d: "touchscreen_init_data env data a (dev_addr dev) (touchscreen_device_get_irq_handler env) s1 = Inr (r, s')"
      by (auto simp: bindk_Inr_iff kprog_simps liftk_Inr_iff)
    have "same_hooks s1 s'" "same_filters s1 s'"
      using keepsD [OF keeps_hooks_init_data d] keepsD [OF keeps_filters_init_data d] by simp_all
    moreover have "r = 0"
      using d by (auto simp: touchscreen_init_data_def bindk_Inr_iff seqk_Inr_iff kprog_simps
          split: option.splits if_splits)
    moreover have "same_filters s s1" unfolding h(3) by simp
    ultimately show ?thesis using h by (auto simp: same_filters_def)
  qed
qed

text \<open>The alternation of the fake coordinates starts where it was.\<close>

definition same_defuzz :: "'a ts_state_scheme \<Rightarrow> 'a ts_state_scheme \<Rightarrow> bool" where
  "same_defuzz s s' \<longleftrightarrow> abs_defuzz s' = abs_defuzz s"

interpretation defuzz_frame: frame_relation "same_defuzz :: 'a ts_state_scheme \<Rightarrow> 'a ts_state_scheme \<Rightarrow> bool"
  by unfold_locales (simp_all add: same_defuzz_def)

lemma keeps_defuzz_modify:
  "keeps same_defuzz (modify_touchscreen_device env dev :: ('a ts_state_scheme, int) kprog)"
proof -
  have "keeps same_defuzz (vmalloc kenv :: ('a ts_state_scheme, addr) kprog)" for kenv
    by (simp add: keeps_def vmalloc_def Let_def same_defuzz_def)
  then show ?thesis
    by (auto simp: modify_touchscreen_device_def patch_handle_def input_handle_list_add_def same_defuzz_def
        intro!: defuzz_frame.keeps_rules split: option.split)
qed

text \<open>
  Initialisation up to the hook: the state \<open>s2\<close> it reaches has the hooks of the start, and its saved
  filters are what pushing the filters of some handlers gives; then it either fails or goes on to
  hook the interrupt. A failure before the device is found saves nothing.
\<close>

definition filters_pushed :: "addr list \<Rightarrow> 'a ts_state_scheme \<Rightarrow> 'a ts_state_scheme \<Rightarrow> bool" where
  "filters_pushed ks s s2 \<longleftrightarrow> input_handle_list s2 \<noteq> None
     \<and> for_eachk ks push_filter (handler_filter s, []) = Inr ((), filter_view_of s2)"

lemma touchscreen_init_until_hook:
  assumes mem: "memory_ok (ts_kenv env)"
    and sym: "kallsyms_lookup_name (ts_kenv env) ''input_dev_list'' \<noteq> 0"
    and found: "find_input_dev (device_string env) (input_devs env) = Inr dev"
    and gpio: "gpio_driver_of (gpio_of env) = MsmPinctrl \<Longrightarrow> labelled (gpio_table (gpio_of env))"
  shows "\<exists>s2. same_hooks s s2
     \<and> filters_pushed (case dev of None \<Rightarrow> [] | Some d \<Rightarrow> map handle_handler (patched_handles d)) s s2
     \<and> abs_defuzz s2 = abs_defuzz s
     \<and> (touchscreen_init env data s = Inr (1, s2) \<and> \<not> (dev \<noteq> None \<and> gpio_works (gpio_of env))
        \<or> (\<exists>d. dev = Some d \<and> touchscreen_init env data s = touchscreen_init_hook env data d s2))"
proof -
  define s0 where "s0 = s\<lparr>ts_event := (ts_event s)\<lparr>event_data := 0, event_len := 0\<rparr>,
      input_handle_list := Some []\<rparr>"
  have s0: "same_hooks s s0" "input_handle_list s0 \<noteq> None" "filter_view_of s0 = (handler_filter s, [])"
    "abs_defuzz s0 = abs_defuzz s"
    by (simp_all add: s0_def same_hooks_def filter_view_of_def)
  have start: "touchscreen_init env data s = (case dev of None \<Rightarrow> retk 1
       | Some dev \<Rightarrow> bindk (modify_touchscreen_device env (Some dev)) (\<lambda>r.
           if r \<noteq> 0 then retk 1
           else bindk (gpio_msm_interrupt_init (gpio_of env)) (\<lambda>ok.
                if ok \<noteq> True then retk 1 else touchscreen_init_hook env data dev))) s0"
    using sym found
    by (simp add: touchscreen_init_def find_touchscreen_device_def seqk_def bindk_def kprog_simps s0_def)
  show ?thesis
  proof (cases dev)
    case None
    with start s0 show ?thesis
      by (auto simp: kprog_simps filters_pushed_def intro!: exI [of _ s0])
  next
    case (Some d)
    from modify_refines [OF mem s0(2), of d] obtain s1 where
      s1: "modify_touchscreen_device env (Some d) s0 = Inr (0, s1)" "input_handle_list s1 \<noteq> None"
        "for_eachk (map handle_handler (patched_handles d)) push_filter (filter_view_of s0)
          = Inr ((), filter_view_of s1)" by blast
    from gpio_init_returns [OF gpio, of s1] obtain b s2 where s2: "gpio_msm_interrupt_init (gpio_of env) s1 = Inr (b, s2)" by blast
    have filt: "same_filters s1 s2" by (rule same_filters_gpio [OF s2])
    have "abs_defuzz s1 = abs_defuzz s0"
      using keepsD [OF keeps_defuzz_modify s1(1)] by (simp add: same_defuzz_def)
    moreover have "abs_defuzz s2 = abs_defuzz s1"
      using same_but_gpioD(6) [OF keepsD [OF gpio_init_frame s2]] by (cases s1; cases s2) simp
    ultimately have defuzz: "abs_defuzz s2 = abs_defuzz s" using s0(4) by simp
    have works: "b" if "gpio_works (gpio_of env)"
      using gpio_init_works [OF that, of s1] s2 by simp
    have "same_hooks s0 s1" "same_hooks s1 s2"
      using keepsD [OF keeps_hooks_modify s1(1)] keepsD [OF keeps_hooks_gpio_init s2] by simp_all
    then have "same_hooks s s2" using s0(1) by (simp add: same_hooks_def)
    moreover have "filters_pushed (map handle_handler (patched_handles d)) s s2"
      using s1 filt s0(3) unfolding filters_pushed_def same_filters_view [OF filt]
      by (simp add: same_filters_def)
    moreover have "touchscreen_init env data s = (if b then touchscreen_init_hook env data d s2 else Inr (1, s2))"
      using start Some s1(1) s2 by (simp add: bindk_def kprog_simps)
    ultimately show ?thesis using Some defuzz works by (cases b) auto
  qed
qed

text \<open>The end of an initialisation, whatever it returns.\<close>

lemma touchscreen_init_cases:
  assumes mem: "memory_ok (ts_kenv env)"
    and sym: "kallsyms_lookup_name (ts_kenv env) ''input_dev_list'' \<noteq> 0"
    and found: "find_input_dev (device_string env) (input_devs env) = Inr dev"
    and gpio: "gpio_driver_of (gpio_of env) = MsmPinctrl \<Longrightarrow> labelled (gpio_table (gpio_of env))"
    and ready: "irq_ready (touchscreen_irq_software env) s"
    and result: "touchscreen_init env data s = Inr (r, s')"
  shows "filters_pushed (case dev of None \<Rightarrow> [] | Some d \<Rightarrow> map handle_handler (patched_handles d)) s s'
     \<and> (r = 0 \<and> hookable (touchscreen_irq_software env) s
          \<and> same_hooks (hook_upd (touchscreen_irq_software env) (Some TouchscreenHookHandler) s) s'
        \<or> r = 1 \<and> same_hooks s s')"
proof -
  let ?i = "touchscreen_irq_software env"
  let ?ks = "case dev of None \<Rightarrow> [] | Some d \<Rightarrow> map handle_handler (patched_handles d)"
  from touchscreen_init_until_hook [OF mem sym found gpio, of s data] obtain s2 where
    sm: "same_hooks s s2" and pushed: "filters_pushed ?ks s s2"
    and rest: "touchscreen_init env data s = Inr (1, s2)
        \<or> (\<exists>d. dev = Some d \<and> touchscreen_init env data s = touchscreen_init_hook env data d s2)" by blast
  from rest show ?thesis
  proof (elim disjE exE conjE)
    assume "touchscreen_init env data s = Inr (1, s2)"
    with result sm pushed show ?thesis by simp
  next
    fix d assume "touchscreen_init env data s = touchscreen_init_hook env data d s2"
    with result have hook: "touchscreen_init_hook env data d s2 = Inr (r, s')" by simp
    have ready2: "irq_ready ?i s2" using ready by (simp add: irq_ready_same_hooks [OF sm])
    from touchscreen_init_hook_cases [OF ready2 hook] have filt: "same_filters s2 s'"
      and cases: "r = 0 \<and> hookable ?i s2 \<and> same_hooks (hook_upd ?i (Some TouchscreenHookHandler) s2) s'
        \<or> r = 1 \<and> s' = s2" by blast+
    have "filters_pushed ?ks s s'"
      using pushed filt unfolding filters_pushed_def same_filters_view [OF filt]
      by (simp add: same_filters_def)
    moreover have "same_hooks (hook_upd ?i (Some TouchscreenHookHandler) s)
        (hook_upd ?i (Some TouchscreenHookHandler) s2)"
      by (rule same_hooks_hook_upd [OF sm])
    ultimately show ?thesis
      using cases sm same_hooksD(5) [OF sm, of ?i] by (auto simp: same_hooks_def)
  qed
qed

lemma touchscreen_cleanup_cases:
  assumes ready: "irq_ready (touchscreen_irq_software env) s" and entries: "input_handle_list s \<noteq> None"
  shows "\<exists>s'. touchscreen_cleanup env s = Inr (0, s') \<and> input_handle_list s' = Some []
     \<and> same_hooks (if hooked s (touchscreen_irq_software env)
                   then unhook_upd (touchscreen_irq_software env) s else s) s'
     \<and> (\<forall>f ks. for_eachk ks push_filter (f, []) = Inr ((), filter_view_of s) \<longrightarrow> handler_filter s' = f)"
proof -
  let ?i = "touchscreen_irq_software env"
  from entries obtain es where es: "input_handle_list s = Some es" by blast
  obtain s1 where s1: "reset_touchscreen_device s = Inr (0, s1)" "input_handle_list s1 = Some []"
    using reset_refines [OF es, of "replicate (length es) 0"] by auto
  have sm: "same_hooks s s1"
    using s1(1) keepsD [OF keeps_hooks_reset_entries]
    by (auto simp: reset_touchscreen_device_def bindk_Inr_iff seqk_Inr_iff kprog_simps derefk_Inr_iff)
  let ?s2 = "if hooked s1 ?i then unhook_upd ?i s1 else s1"
  have ready1: "irq_ready ?i s1" using ready by (simp add: irq_ready_same_hooks [OF sm])
  have "touchscreen_cleanup env s = Inr (0, ?s2)"
    using s1(1) unhook_ready_cases [OF ready1]
    by (simp add: touchscreen_cleanup_def gpio_msm_interrupt_clear_nothing seqk_def bindk_def kprog_simps)
  moreover have "same_hooks (if hooked s ?i then unhook_upd ?i s else s) ?s2"
    using sm same_hooks_unhook_upd [OF sm] by (simp add: same_hooksD [OF sm])
  moreover have "input_handle_list ?s2 = Some []" "handler_filter ?s2 = handler_filter s1"
    using s1(2) by (simp_all add: unhook_upd_def upd_desc_def)
  moreover have "handler_filter s1 = f"
    if "for_eachk ks push_filter (f, []) = Inr ((), filter_view_of s)" for f ks
    using reset_restores [OF entries that] s1(1) by simp
  ultimately show ?thesis by (intro exI [of _ ?s2]) blast
qed

text \<open>What the plugin needs of the machine for its functions to return.\<close>

definition ts_env_ok :: "ts_env \<Rightarrow> bool" where
  "ts_env_ok env \<longleftrightarrow> memory_ok (ts_kenv env)
     \<and> kallsyms_lookup_name (ts_kenv env) ''input_dev_list'' \<noteq> 0
     \<and> list_all (\<lambda>d. dev_name d \<noteq> None) (input_devs env)
     \<and> (gpio_driver_of (gpio_of env) = MsmPinctrl \<longrightarrow> labelled (gpio_table (gpio_of env)))"

lemma find_input_dev_named:
  "list_all (\<lambda>d. dev_name d \<noteq> None) devs \<Longrightarrow> find_input_dev name devs = Inr (List.find (\<lambda>d.
     strstr (the (dev_name d)) name \<noteq> None \<or> strstr (the (dev_name d)) ''touch_dev'' \<noteq> None) devs)"
  by (induction devs) auto

lemma ts_env_okD:
  assumes "ts_env_ok env"
  obtains dev where "memory_ok (ts_kenv env)" "kallsyms_lookup_name (ts_kenv env) ''input_dev_list'' \<noteq> 0"
    "find_input_dev (device_string env) (input_devs env) = Inr dev"
    "gpio_driver_of (gpio_of env) = MsmPinctrl \<Longrightarrow> labelled (gpio_table (gpio_of env))"
  using assms find_input_dev_named [of "input_devs env" "device_string env"]
  by (auto simp: ts_env_ok_def)

definition ts_loadable :: "ts_env \<Rightarrow> 'a ts_state_scheme \<Rightarrow> bool" where
  "ts_loadable env s \<longleftrightarrow> ts_env_ok env \<and> irq_ready (touchscreen_irq_software env) s"

definition ts_ready :: "ts_env \<Rightarrow> 'a ts_state_scheme \<Rightarrow> bool" where
  "ts_ready env s \<longleftrightarrow> irq_ready (touchscreen_irq_software env) s \<and> input_handle_list s \<noteq> None"

interpretation touchscreen: hooking_plugin "touchscreen_init env" "touchscreen_cleanup env"
  "touchscreen_irq_software env" "ts_loadable env" "ts_ready env" for env
proof unfold_locales
  fix d r and s s' :: "'a ts_state_scheme"
  let ?i = "touchscreen_irq_software env"
  assume "ts_loadable env s" and init: "touchscreen_init env d s = Inr (r, s')"
  then have ok: "ts_env_ok env" and ready: "irq_ready ?i s" by (simp_all add: ts_loadable_def)
  from ts_env_okD [OF ok] obtain dev where
    pushed: "filters_pushed (case dev of None \<Rightarrow> [] | Some d \<Rightarrow> map handle_handler (patched_handles d)) s s'"
    and cases: "r = 0 \<and> hookable ?i s \<and> same_hooks (hook_upd ?i (Some TouchscreenHookHandler) s) s'
        \<or> r = 1 \<and> same_hooks s s'"
    using touchscreen_init_cases [OF _ _ _ _ ready init] by metis
  have "input_handle_list s' \<noteq> None" using pushed by (simp add: filters_pushed_def)
  with cases show "ts_ready env s' \<and> native_handler s' = native_handler s
      \<and> (\<forall>j. hooked s' j \<longleftrightarrow> hooked s j \<or> r = 0 \<and> j = ?i)"
  proof (elim disjE conjE)
    assume "r = 0" and "hookable ?i s"
      and "same_hooks (hook_upd ?i (Some TouchscreenHookHandler) s) s'"
    with hooked_contract [OF ready this(2,3)] \<open>input_handle_list s' \<noteq> None\<close> show ?thesis
      by (simp add: ts_ready_def)
  next
    assume "r = 1" and "same_hooks s s'"
    with not_hooked_contract [OF ready this(2)] \<open>input_handle_list s' \<noteq> None\<close> show ?thesis
      by (simp add: ts_ready_def)
  qed
next
  fix s :: "'a ts_state_scheme"
  let ?i = "touchscreen_irq_software env"
  assume "ts_ready env s"
  then have ready: "irq_ready ?i s" and entries: "input_handle_list s \<noteq> None"
    by (simp_all add: ts_ready_def)
  from touchscreen_cleanup_cases [OF this] obtain s' where
    "touchscreen_cleanup env s = Inr (0, s')" "input_handle_list s' = Some []"
    "same_hooks (if hooked s ?i then unhook_upd ?i s else s) s'" by blast
  with unhooked_contract [OF ready this(3)] show "\<exists>s'. touchscreen_cleanup env s = Inr (0, s')
      \<and> ts_ready env s' \<and> native_handler s' = native_handler s
      \<and> (\<forall>j. hooked s' j \<longleftrightarrow> hooked s j \<and> j \<noteq> ?i)"
    by (auto simp: ts_ready_def)
qed

lemma touchscreen_init_returns:
  assumes "ts_env_ok env" and "irq_ready (touchscreen_irq_software env) s"
    and "\<not> hooked s (touchscreen_irq_software env)"
    and "get_irq_affinity (ts_kenv env) (touchscreen_irq_software env) s = Inr a"
  shows "\<exists>r s'. touchscreen_init env data s = Inr (r, s')"
proof -
  let ?i = "touchscreen_irq_software env"
  from ts_env_okD [OF assms(1)] obtain dev where dev: "memory_ok (ts_kenv env)"
    "kallsyms_lookup_name (ts_kenv env) ''input_dev_list'' \<noteq> 0"
    "find_input_dev (device_string env) (input_devs env) = Inr dev"
    "gpio_driver_of (gpio_of env) = MsmPinctrl \<Longrightarrow> labelled (gpio_table (gpio_of env))" by metis
  from touchscreen_init_until_hook [OF dev, of s data] obtain s2 where sm: "same_hooks s s2"
    and rest: "touchscreen_init env data s = Inr (1, s2)
        \<or> (\<exists>d. dev = Some d \<and> touchscreen_init env data s = touchscreen_init_hook env data d s2)" by blast
  have able: "hookable ?i s2"
    using irq_ready_hookable [OF assms(2,3)] by (simp add: same_hooksD [OF sm])
  have "\<exists>r s1. touchscreen_init_hook env data d s2 = Inr (r, s1)" for d
    using hook_interrupt_ok [OF able] assms(4) dev(1) affinity_same_hooks [OF sm, of "ts_kenv env" ?i]
    by (cases data)
       (simp_all add: touchscreen_init_hook_def Let_def bindk_def kprog_simps affinity_hook_upd
         touchscreen_init_data_def vmalloc_def seqk_def memory_ok_def)
  with rest show ?thesis by metis
qed

section \<open>What an injection sends\<close>

text \<open>One fake touch: finger down with its position, then finger up, as the input core sees it.\<close>

definition fake_touch :: "ts_device \<Rightarrow> addr \<Rightarrow> int \<Rightarrow> int \<times> int \<Rightarrow> int \<times> int \<Rightarrow> kcall list" where
  "fake_touch device dev z t1 t2 =
     [InputEvent dev EV_SYN SYN_TIME_SEC (to_int (fst t1)),
      InputEvent dev EV_SYN SYN_TIME_NSEC (to_int (snd t1)),
      InputMtSlot dev 0, InputMtReportSlotState dev MT_TOOL_FINGER True]
   @ (if device = S3320 then [InputReportKey dev BTN_TOOL_FINGER 1] else [])
   @ [InputReportAbs dev ABS_MT_POSITION_X (z + 230), InputReportAbs dev ABS_MT_POSITION_Y (z + 230),
      InputReportAbs dev ABS_MT_TOUCH_MAJOR (z + 20), InputReportAbs dev ABS_MT_TOUCH_MINOR (z + 20),
      InputSync dev,
      InputEvent dev EV_SYN SYN_TIME_SEC (to_int (fst t2)),
      InputEvent dev EV_SYN SYN_TIME_NSEC (to_int (if device = S3320 then snd t2 else snd t2 + 20)),
      InputMtSlot dev 0, InputMtReportSlotState dev MT_TOOL_FINGER False,
      InputReportKey dev BTN_TOOL_FINGER 0, InputSync dev]"

lemma touchscreen_inject_cpus:
  assumes "\<And>c. c \<in> set cs \<Longrightarrow> c < 32"
  shows "for_eachk cs (touchscreen_inject_cpu data) s = Inr ((), s\<lparr>klog := klog s @
     map SmpCallInject (filter (\<lambda>c. bit (touchscreen_affinity (ts_data s data)) c
                                    \<or> touchscreen_affinity (ts_data s data) = 0) cs)\<rparr>)"
  using assms
proof (induction cs arbitrary: s)
  case Nil
  then show ?case by (simp add: kprog_simps)
next
  case (Cons c cs)
  have c: "c < 32" using Cons.prems by simp
  have "touchscreen_inject_cpu data c s = Inr ((), s\<lparr>klog := klog s @
      (if bit (touchscreen_affinity (ts_data s data)) c \<or> touchscreen_affinity (ts_data s data) = 0
       then [SmpCallInject c] else [])\<rparr>)"
    using c
    by (auto simp: touchscreen_inject_cpu_def bindk_def readk_def liftk_def shift_1_def
        push_bit_eq_mult and_exp_eq_0_iff_not_bit emit_apply retk_def)
  with Cons show ?case by (simp add: seqk_def bindk_def)
qed

lemma report_abs_apply [kprog_simps]:
  "report_abs dev code v s = Inr ((), s\<lparr>klog := klog s @ [InputReportAbs dev code (abs_defuzz s + v)]\<rparr>)"
  by (simp add: report_abs_def bindk_def kprog_simps TOUCHSCREEN_ABS_DEFUZZ_def)

lemma touchscreen_inject_apply:
  assumes "data \<noteq> 0" and "\<And>c. c \<in> set (online_cpus (ts_kenv env)) \<Longrightarrow> c < 32"
    and "0 \<notin> set (prefetched (ts_kenv env) (ts_irq_handler (ts_data s data)) 4096)"
  shows "touchscreen_inject env data s = Inr (0, s\<lparr>
     abs_defuzz := (if abs_defuzz s = 0 then 1 else 0), clock_pos := clock_pos s + 2,
     klog := klog s
       @ fake_touch (touchscreen_device env) (touchscreen_input_dev (ts_data s data)) (abs_defuzz s)
           (clock env (clock_pos s)) (clock env (Suc (clock_pos s)))
       @ map SmpCallInject (filter (\<lambda>c. bit (touchscreen_affinity (ts_data s data)) c
             \<or> touchscreen_affinity (ts_data s data) = 0) (online_cpus (ts_kenv env)))
       @ map PrefetchTouch (prefetched (ts_kenv env) (ts_irq_handler (ts_data s data)) 4096)\<rparr>)"
  using assms
  by (cases "touchscreen_device env")
     (simp_all add: touchscreen_inject_def s3320_inject_def s3350_inject_def fake_touch_def
       seqk_def bindk_def readk_apply retk_apply emit_apply doallk_Cons doallk_Nil report_abs_apply
       TOUCHSCREEN_ABS_DEFUZZ_UPDATE_def modk_apply ktime_get_def SEND_VALUE_def
       touchscreen_inject_cpus prefetch_range_ok)

text \<open>The data a successful initialisation sets up, and an injection without an interrupt handler.\<close>

definition ts_data_linked :: "ts_env \<Rightarrow> addr \<Rightarrow> nat \<Rightarrow> 'a ts_state_scheme \<Rightarrow> bool" where
  "ts_data_linked env dev p s \<longleftrightarrow> plugin_data (plugin_objs s p) \<noteq> 0
     \<and> ts_irq_handler (ts_data s (plugin_data (plugin_objs s p))) = touchscreen_device_get_irq_handler env
     \<and> touchscreen_input_dev (ts_data s (plugin_data (plugin_objs s p))) = dev"

lemma touchscreen_init_hook_data:
  assumes "touchscreen_init_hook env (Some p) d s = Inr (0, s1)"
  shows "ts_data_linked env (dev_addr d) p s1 \<and> abs_defuzz s1 = abs_defuzz s"
  unfolding ts_data_linked_def
  using assms
  by (auto simp: touchscreen_init_hook_def touchscreen_init_data_def Let_def bindk_Inr_iff seqk_Inr_iff
      kprog_simps liftk_Inr_iff vmalloc_def upd_plugin_def hook_interrupt_def upd_desc_def
      split: if_splits option.splits)

text \<open>Where the device, the GPIO driver and the interrupt are there, the initialisation succeeds.\<close>

lemma touchscreen_init_succeeds:
  assumes "ts_env_ok env" and "irq_ready (touchscreen_irq_software env) s"
    and "\<not> hooked s (touchscreen_irq_software env)" and "gpio_works (gpio_of env)"
    and "find_input_dev (device_string env) (input_devs env) = Inr (Some d)"
    and init: "touchscreen_init env (Some p) s = Inr (r, s')"
  shows "r = 0 \<and> ts_data_linked env (dev_addr d) p s' \<and> abs_defuzz s' = abs_defuzz s"
proof -
  from ts_env_okD [OF assms(1)] have dev: "memory_ok (ts_kenv env)"
    "kallsyms_lookup_name (ts_kenv env) ''input_dev_list'' \<noteq> 0"
    "gpio_driver_of (gpio_of env) = MsmPinctrl \<Longrightarrow> labelled (gpio_table (gpio_of env))" by metis+
  from touchscreen_init_until_hook [OF dev(1,2) assms(5) dev(3), of s "Some p"] assms(4) init obtain s2 where
    sm: "same_hooks s s2" and z: "abs_defuzz s2 = abs_defuzz s"
    and hook: "touchscreen_init_hook env (Some p) d s2 = Inr (r, s')" by auto
  have ready: "irq_ready (touchscreen_irq_software env) s2" using assms(2) by (simp add: irq_ready_same_hooks [OF sm])
  have able: "hookable (touchscreen_irq_software env) s2"
    using irq_ready_hookable [OF assms(2,3)] by (simp add: same_hooksD [OF sm])
  have "r = 0"
    using hook hook_interrupt_ok [OF able]
    by (auto simp: touchscreen_init_hook_def touchscreen_init_data_def Let_def bindk_Inr_iff seqk_Inr_iff
        kprog_simps split: if_splits)
  with touchscreen_init_hook_data [of env p d s2 s'] hook z show ?thesis by simp
qed

lemma touchscreen_inject_no_handler:
  assumes "data \<noteq> 0" and "ts_irq_handler (ts_data s data) = 0"
    and "\<And>c. c \<in> set (online_cpus (ts_kenv env)) \<Longrightarrow> c < 32"
    and "0 < sizeof_size_t (ts_kenv env)" and "sizeof_size_t (ts_kenv env) \<le> 4096"
  shows "touchscreen_inject env data s = Inl NullDeref"
  using assms
  by (cases "touchscreen_device env")
     (simp_all add: touchscreen_inject_def s3320_inject_def s3350_inject_def
       seqk_def bindk_def readk_apply retk_apply emit_apply doallk_Cons doallk_Nil report_abs_apply
       TOUCHSCREEN_ABS_DEFUZZ_UPDATE_def modk_apply ktime_get_def touchscreen_inject_cpus prefetch_range_null)

text \<open>The X positions a sequence of calls reports.\<close>

fun x_positions :: "kcall list \<Rightarrow> int list" where
  "x_positions [] = []"
| "x_positions (InputReportAbs dev code v # cs) =
     (if code = ABS_MT_POSITION_X then v # x_positions cs else x_positions cs)"
| "x_positions (c # cs) = x_positions cs"

lemma x_positions_append: "x_positions (xs @ ys) = x_positions xs @ x_positions ys"
  by (induction xs rule: x_positions.induct) auto

lemma x_positions_other [simp]:
  "x_positions (map SmpCallInject cs) = []" "x_positions (map PrefetchTouch as) = []"
proof -
  show "x_positions (map SmpCallInject cs) = []" by (induction cs) simp_all
  show "x_positions (map PrefetchTouch as) = []" by (induction as) simp_all
qed

lemma x_positions_fake_touch [simp]: "x_positions (fake_touch device dev z t1 t2) = [z + 230]"
  by (simp add: fake_touch_def ABS_MT_POSITION_X_def ABS_MT_POSITION_Y_def ABS_MT_TOUCH_MAJOR_def
      ABS_MT_TOUCH_MINOR_def)

fun inject_times :: "nat \<Rightarrow> ts_env \<Rightarrow> addr \<Rightarrow> ('a ts_state_scheme, unit) kprog" where
  "inject_times 0 env data = retk ()"
| "inject_times (Suc n) env data = seqk (touchscreen_inject env data) (inject_times n env data)"

section \<open>Properties\<close>

definition demo_dev :: input_dev where
  "demo_dev = \<lparr>dev_addr = 0x5000, dev_name = Some ''synaptics,s3320'', dev_grab = None,
     dev_h_list = [\<lparr>handle_handler = 0x100, handle_open = 1\<rparr>, \<lparr>handle_handler = 0x200, handle_open = 0\<rparr>,
                   \<lparr>handle_handler = 0x100, handle_open = 2\<rparr>]\<rparr>"

definition demo_ts_env :: ts_env where
  "demo_ts_env = \<lparr>gpio_of = demo_gpio_env\<lparr>kenv_of := demo_env\<lparr>vmalloc_result := (\<lambda>_. 0x8000), arch_x86 := False\<rparr>\<rparr>,
     input_devs = [demo_dev\<lparr>dev_name := Some ''gpio-keys''\<rparr>, demo_dev], touchscreen_device = S3320,
     touchscreen_irq_software = 12, clock = (\<lambda>n. (int n, 5))\<rparr>"

definition demo_ts_state :: ts_state where
  "demo_ts_state = gpio_state.extend
     (main_state.extend (registry_state.extend (timer_state.extend (hook_state.extend (hook_state.truncate demo_hook_state)
        \<lparr>periode = KtimeSet 0 0, faketimer_t = KtimeSet 0 0, faketimer_running = 0,
         timer_fn = None, faketimer_fn = None\<rparr>)
        \<lparr>plugins = replicate 128 None, plugin_count = 0, plugin_objs = (\<lambda>_. plugin_touchscreen_object demo_ts_env)\<rparr>)
     \<lparr>injection = 0\<rparr>)
     \<lparr>msm_gpio_set_ptr = 0, gpio_desc_ptr = 0, gpio_chip = None, pin_group_index = 0,
      pin_group = None, pctrl = None\<rparr>)
     \<lparr>ts_event = \<lparr>event_type = KEY_PRESS, event_data = 0, event_len = 0\<rparr>, input_handle_list = None,
      handler_filter = (\<lambda>a. if a = 0x100 then OtherFilter 3 else NoFilter),
      ts_data = (\<lambda>_. \<lparr>touchscreen_affinity = 2, touchscreen_input_dev = 0x5000, ts_irq_handler = 4096, ts_data_state = 0\<rparr>),
      abs_defuzz = 0, clock_pos = 0\<rparr>"

lemmas demo_ts_defs = demo_ts_state_def hook_state.defs timer_state.defs registry_state.defs
  main_state.defs gpio_state.defs demo_hook_state_def

lemma demo_ts_same_hooks: "same_hooks demo_hook_state demo_ts_state"
  by (simp add: same_hooks_def demo_ts_defs)

lemma demo_ts_ready: "irq_ready (touchscreen_irq_software demo_ts_env) demo_ts_state"
  unfolding irq_ready_def same_hooksD [OF demo_ts_same_hooks]
  by (intro conjI, simp add: irq_ok_def demo_ts_env_def, rule demo_hook_inv)
     (simp add: demo_ts_defs demo_desc_def demo_ts_env_def)

lemma demo_ts_not_hooked: "\<not> hooked demo_ts_state j"
  unfolding same_hooksD [OF demo_ts_same_hooks]
  by (simp add: hooked_def irq_ok_def demo_hook_state_def)

lemma demo_ts_env_ok: "ts_env_ok demo_ts_env"
  by (simp add: ts_env_ok_def memory_ok_def demo_ts_env_def demo_gpio_env_def demo_env_def labelled_def
      demo_chip_def demo_dev_def)

text \<open>
  The input filter: exactly the X coordinates outside 229..231 of an absolute event schedule
  the tap tasklet, once each. On kernels after 3.6.0 every event is passed on; up to 3.6.0 the
  filter first hands the event to its handler itself and then claims it.
\<close>

theorem touchscreen_filter_spec:
  "touchscreen_filter env handle type code value s =
     Inr (linux_version_code (ts_kenv env) \<le> kernel_version 3 6 0, s\<lparr>klog := klog s
       @ (if linux_version_code (ts_kenv env) \<le> kernel_version 3 6 0
          then [HandlerEvent (handle_handler handle) type code value] else [])
       @ (if type = EV_ABS \<and> code = ABS_MT_POSITION_X \<and> value \<notin> {229..231}
          then [TaskletSchedule TsTapNotify] else [])\<rparr>)"
  by (auto simp: touchscreen_filter_def Let_def seqk_def bindk_def emit_apply retk_apply SEND_VALUE_def
      TOUCHSCREEN_FILTER_NOT_IN_RANGE_def)

text \<open>
  One touchscreen injection: it sends one complete fake touch, finger down and finger up, to
  the device of the plugin's data, then asks exactly the online CPUs of the affinity (all of them
  if it is empty) to raise the interrupt, then touches the 4096 bytes of the interrupt handler.
\<close>

theorem touchscreen_inject_spec:
  assumes "data \<noteq> 0" and "\<And>c. c \<in> set (online_cpus (ts_kenv env)) \<Longrightarrow> c < 32"
    and "0 \<notin> set (prefetched (ts_kenv env) (ts_irq_handler (ts_data s data)) 4096)"
  shows "\<exists>s'. touchscreen_inject env data s = Inr (0, s')
     \<and> klog s' = klog s
       @ fake_touch (touchscreen_device env) (touchscreen_input_dev (ts_data s data)) (abs_defuzz s)
           (clock env (clock_pos s)) (clock env (Suc (clock_pos s)))
       @ map SmpCallInject (filter (\<lambda>c. bit (touchscreen_affinity (ts_data s data)) c
             \<or> touchscreen_affinity (ts_data s data) = 0) (online_cpus (ts_kenv env)))
       @ map PrefetchTouch (prefetched (ts_kenv env) (ts_irq_handler (ts_data s data)) 4096)"
  by (simp add: touchscreen_inject_apply [OF assms])

lemma demo_ts_prefetch:
  "0 \<notin> set (prefetched (ts_kenv demo_ts_env) (ts_irq_handler (ts_data demo_ts_state d)) 4096)"
  by (simp add: prefetched_nonzero demo_ts_env_def demo_gpio_env_def demo_env_def demo_ts_defs)

theorem touchscreen_inject_spec_witness:
  "\<exists>s'. touchscreen_inject demo_ts_env 0x8000 demo_ts_state = Inr (0, s')
     \<and> klog s' = klog demo_ts_state
       @ fake_touch (touchscreen_device demo_ts_env) (touchscreen_input_dev (ts_data demo_ts_state 0x8000))
           (abs_defuzz demo_ts_state) (clock demo_ts_env (clock_pos demo_ts_state))
           (clock demo_ts_env (Suc (clock_pos demo_ts_state)))
       @ map SmpCallInject (filter (\<lambda>c. bit (touchscreen_affinity (ts_data demo_ts_state 0x8000)) c
             \<or> touchscreen_affinity (ts_data demo_ts_state 0x8000) = 0) (online_cpus (ts_kenv demo_ts_env)))
       @ map PrefetchTouch (prefetched (ts_kenv demo_ts_env) (ts_irq_handler (ts_data demo_ts_state 0x8000)) 4096)"
proof (rule touchscreen_inject_spec [OF _ _ demo_ts_prefetch])
  show "c \<in> set (online_cpus (ts_kenv demo_ts_env)) \<Longrightarrow> c < 32" for c
    by (auto simp: demo_ts_env_def demo_gpio_env_def demo_env_def)
qed simp

text \<open>
  C24. Fake touches are never taken for real ones, and are never dropped as repetitions: over any
  number of injections the reported X positions alternate between 230 and 231, so neighbours
  differ, and none of them makes the plugin's own filter schedule the tap tasklet.
\<close>

theorem fake_touches_alternate_undetected:
  assumes "data \<noteq> 0" and "\<And>c. c \<in> set (online_cpus (ts_kenv env)) \<Longrightarrow> c < 32"
    and "0 \<notin> set (prefetched (ts_kenv env) (ts_irq_handler (ts_data s data)) 4096)"
    and "abs_defuzz s = 0 \<or> abs_defuzz s = 1"
  shows "\<exists>s' cs. inject_times n env data s = Inr ((), s') \<and> klog s' = klog s @ cs
     \<and> x_positions cs = map (\<lambda>k. 230 + (if even k then abs_defuzz s else 1 - abs_defuzz s)) [0..<n]
     \<and> (\<forall>v \<in> set (x_positions cs). \<forall>h (t :: 'b ts_state_scheme).
          \<exists>r t' ev. touchscreen_filter env h EV_ABS ABS_MT_POSITION_X v t = Inr (r, t')
            \<and> klog t' = klog t @ ev \<and> TaskletSchedule TsTapNotify \<notin> set ev)"
proof -
  have "\<exists>s' cs. inject_times n env data s = Inr ((), s') \<and> klog s' = klog s @ cs
     \<and> x_positions cs = map (\<lambda>k. 230 + (if even k then abs_defuzz s else 1 - abs_defuzz s)) [0..<n]"
    using assms
  proof (induction n arbitrary: s)
    case 0
    then show ?case by (simp add: kprog_simps)
  next
    case (Suc n)
    obtain s1 cs1 where s1: "touchscreen_inject env data s = Inr (0, s1)" "klog s1 = klog s @ cs1"
      "x_positions cs1 = [abs_defuzz s + 230]" "abs_defuzz s1 = 1 - abs_defuzz s"
      "ts_data s1 = ts_data s"
      using touchscreen_inject_apply [OF Suc.prems(1-3)] Suc.prems(4)
      by (auto simp: x_positions_append)
    from Suc.IH [of s1] Suc.prems s1 obtain s' cs where
      s': "inject_times n env data s1 = Inr ((), s')" "klog s' = klog s1 @ cs"
        "x_positions cs = map (\<lambda>k. 230 + (if even k then abs_defuzz s1 else 1 - abs_defuzz s1)) [0..<n]"
      by auto
    have "[0..<Suc n] = 0 # map Suc [0..<n]" by (simp add: map_Suc_upt upt_conv_Cons del: upt_Suc)
    with s1 s' show ?case
      by (auto simp: seqk_def bindk_def x_positions_append o_def)
  qed
  then obtain s' cs where s': "inject_times n env data s = Inr ((), s')" "klog s' = klog s @ cs"
    "x_positions cs = map (\<lambda>k. 230 + (if even k then abs_defuzz s else 1 - abs_defuzz s)) [0..<n]"
    by blast
  have near: "v \<in> {229..231}" if "v \<in> set (x_positions cs)" for v
    using that assms(4) unfolding s'(3) by auto
  then have "\<exists>r t' ev. touchscreen_filter env h EV_ABS ABS_MT_POSITION_X v t = Inr (r, t')
       \<and> klog t' = klog t @ ev \<and> TaskletSchedule TsTapNotify \<notin> set ev"
    if "v \<in> set (x_positions cs)" for v h and t :: "'b ts_state_scheme"
    using near [OF that]
    by (auto simp: touchscreen_filter_def Let_def seqk_def bindk_def emit_apply retk_apply SEND_VALUE_def
      TOUCHSCREEN_FILTER_NOT_IN_RANGE_def)
  with s' show ?thesis by blast
qed

theorem fake_touches_alternate_undetected_witness:
  "\<exists>s' cs. inject_times 3 demo_ts_env 0x8000 demo_ts_state = Inr ((), s') \<and> klog s' = klog demo_ts_state @ cs
     \<and> x_positions cs = map (\<lambda>k. 230 + (if even k then abs_defuzz demo_ts_state else 1 - abs_defuzz demo_ts_state)) [0..<3]
     \<and> (\<forall>v \<in> set (x_positions cs). \<forall>h (t :: ts_state).
          \<exists>r t' ev. touchscreen_filter demo_ts_env h EV_ABS ABS_MT_POSITION_X v t = Inr (r, t')
            \<and> klog t' = klog t @ ev \<and> TaskletSchedule TsTapNotify \<notin> set ev)"
proof (rule fake_touches_alternate_undetected [OF _ _ demo_ts_prefetch])
  show "c \<in> set (online_cpus (ts_kenv demo_ts_env)) \<Longrightarrow> c < 32" for c
    by (auto simp: demo_ts_env_def demo_gpio_env_def demo_env_def)
qed (simp_all add: demo_ts_defs)

text \<open>
  C23. Filters are saved and restored exactly, even where handles share a handler: after
  \<open>modify_touchscreen_device\<close> every handler of the device's patched handles has the plugin's filter,
  and \<open>reset_touchscreen_device\<close> gives every handler back the filter it had before and empties the
  list of saved ones.
\<close>

theorem touchscreen_filters_restored:
  assumes "memory_ok (ts_kenv env)" and "input_handle_list s = Some []"
  shows "\<exists>s1 s2. modify_touchscreen_device env (Some dev) s = Inr (0, s1)
     \<and> (\<forall>a. handler_filter s1 a = (if a \<in> handle_handler ` set (patched_handles dev)
                                    then TouchscreenFilter else handler_filter s a))
     \<and> reset_touchscreen_device s1 = Inr (0, s2)
     \<and> handler_filter s2 = handler_filter s \<and> input_handle_list s2 = Some []"
proof -
  from assms(2) have view: "filter_view_of s = (handler_filter s, [])"
    by (simp add: filter_view_of_def)
  from assms(2) have "input_handle_list s \<noteq> None" by simp
  from modify_refines [OF assms(1) this, of dev] obtain s1 where
    s1: "modify_touchscreen_device env (Some dev) s = Inr (0, s1)" "input_handle_list s1 \<noteq> None"
      "for_eachk (map handle_handler (patched_handles dev)) push_filter (handler_filter s, [])
        = Inr ((), filter_view_of s1)" unfolding view by blast
  from reset_restores [OF s1(2,3)] obtain s2 where
    "reset_touchscreen_device s1 = Inr (0, s2)" "input_handle_list s2 = Some []"
    "handler_filter s2 = handler_filter s" by blast
  with s1 push_filters [OF s1(3)] show ?thesis
    by (auto simp: filter_view_of_def)
qed

theorem touchscreen_filters_restored_witness:
  "\<exists>s1 s2. modify_touchscreen_device demo_ts_env (Some demo_dev) (demo_ts_state\<lparr>input_handle_list := Some []\<rparr>) = Inr (0, s1)
     \<and> (\<forall>a. handler_filter s1 a = (if a \<in> handle_handler ` set (patched_handles demo_dev)
                                    then TouchscreenFilter
                                    else handler_filter (demo_ts_state\<lparr>input_handle_list := Some []\<rparr>) a))
     \<and> reset_touchscreen_device s1 = Inr (0, s2)
     \<and> handler_filter s2 = handler_filter (demo_ts_state\<lparr>input_handle_list := Some []\<rparr>)
     \<and> input_handle_list s2 = Some []"
  by (rule touchscreen_filters_restored) (use demo_ts_env_ok in \<open>simp_all add: ts_env_ok_def\<close>)





definition demo_no_handler_env :: ts_env where
  "demo_no_handler_env = demo_ts_env\<lparr>touchscreen_device := S3350, gpio_of := (gpio_of demo_ts_env)
     \<lparr>gpio_driver_of := MsmV2, kenv_of := (ts_kenv demo_ts_env)
        \<lparr>kallsyms_lookup_name := (\<lambda>n. if n = ''touch_irq_handler'' then 0 else 4096)\<rparr>\<rparr>,
     input_devs := [demo_dev\<lparr>dev_name := Some ''touch_dev''\<rparr>]\<rparr>"

lemma demo_no_handler_init: "\<exists>s1. touchscreen_init demo_no_handler_env (Some 1) demo_ts_state = Inr (0, s1)"
  by (simp add: touchscreen_init_def find_touchscreen_device_def device_string_def modify_touchscreen_device_def
      patch_handle_def input_handle_list_add_def gpio_msm_interrupt_init_def v2_interrupt_init_def
      touchscreen_init_hook_def touchscreen_init_data_def hook_interrupt_def get_irq_affinity_def irq_to_desc_def
      vmalloc_def seqk_def bindk_def kprog_simps Let_def upd_desc_def upd_plugin_def
      demo_no_handler_env_def demo_ts_env_def demo_gpio_env_def demo_env_def demo_dev_def demo_ts_defs
      demo_desc_def kernel_version_def)

text \<open>
  A missing interrupt handler is only reported: when the kernel does not export the symbol of
  the GPIO interrupt handler, \<open>touchscreen_init\<close> can still return 0, and whenever it does the first
  injection afterwards follows a null pointer.
\<close>

theorem missing_irq_handler_accepted:
  assumes "ts_env_ok env" and "touchscreen_device_get_irq_handler env = 0"
    and "touchscreen_init env (Some p) s = Inr (0, s1)"
    and "\<And>c. c \<in> set (online_cpus (ts_kenv env)) \<Longrightarrow> c < 32"
    and "0 < sizeof_size_t (ts_kenv env)" and "sizeof_size_t (ts_kenv env) \<le> 4096"
  shows "touchscreen_inject env (plugin_data (plugin_objs s1 p)) s1 = Inl NullDeref"
proof -
  let ?d = "plugin_data (plugin_objs s1 p)"
  from ts_env_okD [OF assms(1)] obtain dev where dev: "memory_ok (ts_kenv env)"
    "kallsyms_lookup_name (ts_kenv env) ''input_dev_list'' \<noteq> 0"
    "find_input_dev (device_string env) (input_devs env) = Inr dev"
    "gpio_driver_of (gpio_of env) = MsmPinctrl \<Longrightarrow> labelled (gpio_table (gpio_of env))" by metis
  from touchscreen_init_until_hook [OF dev, of s "Some p"] assms(3) obtain s2 d where
    "touchscreen_init_hook env (Some p) d s2 = Inr (0, s1)" by auto
  from touchscreen_init_hook_data [OF this] have "?d \<noteq> 0" "ts_irq_handler (ts_data s1 ?d) = 0"
    using assms(2) by (simp_all add: ts_data_linked_def)
  then show ?thesis using assms(4-6) by (intro touchscreen_inject_no_handler)
qed

theorem missing_irq_handler_accepted_witness:
  "\<exists>s1. touchscreen_init demo_no_handler_env (Some 1) demo_ts_state = Inr (0, s1)
     \<and> touchscreen_inject demo_no_handler_env (plugin_data (plugin_objs s1 1)) s1 = Inl NullDeref"
proof -
  obtain s1 where s1: "touchscreen_init demo_no_handler_env (Some 1) demo_ts_state = Inr (0, s1)"
    using demo_no_handler_init by blast
  have "touchscreen_inject demo_no_handler_env (plugin_data (plugin_objs s1 1)) s1 = Inl NullDeref"
    by (rule missing_irq_handler_accepted [OF _ _ s1])
       (auto simp: demo_no_handler_env_def ts_env_ok_def memory_ok_def touchscreen_device_get_irq_handler_def
         s3320_get_irq_handler_def s3350_get_irq_handler_def
         demo_ts_env_def demo_gpio_env_def demo_env_def labelled_def demo_chip_def demo_dev_def)
  with s1 show ?thesis by blast
qed

lemma touchscreen_hook_handler_delayed:
  "touchscreen_hook_handler env = delayed_handler (ts_kenv env) 1 1000 (touchscreen_irq_software env)"
  by (intro ext) (simp add: touchscreen_hook_handler_def delayed_handler_def)

text \<open>
  The touchscreen's hook handler: on a hooked interrupt it waits a random time of 1 to 1000
  microseconds, then runs the native handler of the interrupt, exactly once, and then restores the
  number of unhandled interrupts.
\<close>

theorem touchscreen_hook_handler_spec:
  assumes "hook_inv s" and "hooked s (touchscreen_irq_software env)"
    and "descs s (touchscreen_irq_software env) = Some d" and "drawable (ts_kenv env) 1 1000 s"
  shows "\<exists>delay pos orig. 1 \<le> unat delay \<and> unat delay \<le> 1000
     \<and> native_handler s (touchscreen_irq_software env) = Some orig
     \<and> (\<forall>run. touchscreen_hook_handler env run (touchscreen_irq_software env) s =
          seqk (run orig (touchscreen_irq_software env))
               (modk (upd_desc (touchscreen_irq_software env) (irqs_unhandled_update (\<lambda>_. irqs_unhandled d))))
               (s\<lparr>entropy_pos := pos, klog := klog s @ [Udelay delay]\<rparr>))"
  using delayed_handler_spec [OF assms]
  by (fastforce simp: word_le_nat_alt touchscreen_hook_handler_delayed)

theorem touchscreen_hook_handler_spec_witness:
  "\<exists>delay pos orig. 1 \<le> unat delay \<and> unat delay \<le> 1000
     \<and> native_handler (hook_upd 12 (Some TouchscreenHookHandler) demo_hook_state) (touchscreen_irq_software demo_ts_env) = Some orig
     \<and> (\<forall>run. touchscreen_hook_handler demo_ts_env run (touchscreen_irq_software demo_ts_env)
            (hook_upd 12 (Some TouchscreenHookHandler) demo_hook_state) =
          seqk (run orig (touchscreen_irq_software demo_ts_env))
               (modk (upd_desc (touchscreen_irq_software demo_ts_env) (irqs_unhandled_update (\<lambda>_.
                  irqs_unhandled ((demo_desc (Some (OtherHandler 7)))\<lparr>handle_irq := Some TouchscreenHookHandler\<rparr>)))))
               ((hook_upd 12 (Some TouchscreenHookHandler) demo_hook_state)
                 \<lparr>entropy_pos := pos, klog := klog (hook_upd 12 (Some TouchscreenHookHandler) demo_hook_state) @ [Udelay delay]\<rparr>))"
proof (rule touchscreen_hook_handler_spec)
  show "hook_inv (hook_upd 12 (Some TouchscreenHookHandler) demo_hook_state)"
    by (rule hook_upd_inv [OF demo_hook_inv]) simp
  show "hooked (hook_upd 12 (Some TouchscreenHookHandler) demo_hook_state) (touchscreen_irq_software demo_ts_env)"
    by (simp add: hooked_hook_upd [OF demo_hookable] demo_ts_env_def)
  show "descs (hook_upd 12 (Some TouchscreenHookHandler) demo_hook_state) (touchscreen_irq_software demo_ts_env)
      = Some ((demo_desc (Some (OtherHandler 7)))\<lparr>handle_irq := Some TouchscreenHookHandler\<rparr>)"
    by (simp add: hook_upd_def upd_desc_def demo_hook_state_def demo_ts_env_def)
  show "drawable (ts_kenv demo_ts_env) 1 1000 (hook_upd 12 (Some TouchscreenHookHandler) demo_hook_state)"
    by (simp add: drawable_def rand_truncation_def demo_ts_env_def demo_gpio_env_def demo_env_def
        hook_upd_def upd_desc_def demo_hook_state_def)
       (rule exI [of _ 0], simp)
qed

end
