(* ===== verification/KD_Arm.thy ===== *)
theory KD_Arm
  imports KD_Touchscreen KD_Observe
begin

text \<open>
  The modules of the two phones: \<open>main.c\<close> linked with the touchscreen plugin, its device and its
  GPIO driver, as a second interpretation of \<open>linked_module\<close>.
\<close>

section \<open>The dispatcher\<close>

definition run_arm :: "ts_env \<Rightarrow> 'a ts_state_scheme dispatcher" where
  "run_arm env f p =
     (case f of
        TouchscreenInit \<Rightarrow> touchscreen_init env (Some p)
      | TouchscreenCleanup \<Rightarrow> touchscreen_cleanup env
      | TouchscreenEnable \<Rightarrow> touchscreen_enable
      | TouchscreenDisable \<Rightarrow> touchscreen_disable
      | TouchscreenInject \<Rightarrow>
          bindk (readk (\<lambda>s. plugin_data (plugin_objs s p))) (touchscreen_inject env)
      | RealTouchpad \<Rightarrow> real_touchpad (ts_kenv env)
      | _ \<Rightarrow> stopk NullDeref)"

text \<open>Input of the loaded module: a tasklet that runs, or an interrupt that reaches its handler.\<close>

definition arm_input :: "ts_env \<Rightarrow> input_event \<Rightarrow> ('a ts_state_scheme, unit) kprog" where
  "arm_input env x =
     (case x of
        Tasklet tap \<Rightarrow> ts_tasklet (run_arm env) (if tap then TsTapNotify else TsReleaseNotify)
      | Irq irq \<Rightarrow> deliver_irq TouchscreenHookHandler (touchscreen_hook_handler env call_flow) irq)"

definition arm_loadable :: "ts_env \<Rightarrow> (addr \<Rightarrow> filter_ptr) \<Rightarrow> 'a ts_state_scheme \<Rightarrow> bool" where
  "arm_loadable env f0 s \<longleftrightarrow> ts_loadable env s \<and> \<not> hooked s (touchscreen_irq_software env)
     \<and> (\<exists>a. get_irq_affinity (ts_kenv env) (touchscreen_irq_software env) s = Inr a)
     \<and> handler_filter s = f0"

text \<open>Ready for a clean-up that gives back the filters \<open>f0\<close>.\<close>

definition arm_ready :: "ts_env \<Rightarrow> (addr \<Rightarrow> filter_ptr) \<Rightarrow> 'a ts_state_scheme \<Rightarrow> bool" where
  "arm_ready env f0 s \<longleftrightarrow> ts_ready env s
     \<and> (\<exists>ks. for_eachk ks push_filter (f0, []) = Inr ((), filter_view_of s))"

section \<open>What the plugin's functions keep\<close>

lemma same_modules_ts_updates [simp]:
  fixes s :: "'a ts_state_scheme"
  shows "same_modules s (s\<lparr>ts_event := e\<rparr>)" "same_modules s (s\<lparr>input_handle_list := l\<rparr>)"
    "same_modules s (s\<lparr>handler_filter := f\<rparr>)" "same_modules s (s\<lparr>ts_data := d\<rparr>)"
    "same_modules s (s\<lparr>abs_defuzz := z\<rparr>)" "same_modules s (s\<lparr>clock_pos := c\<rparr>)"
  by (simp_all add: same_modules_def same_registry_def)

lemma keeps_modules_gpio_init [intro!]:
  "keeps same_modules (gpio_msm_interrupt_init env :: ('a gpio_state_scheme, bool) kprog)"
proof (rule keepsI)
  fix s b and s' :: "'a gpio_state_scheme"
  assume "gpio_msm_interrupt_init env s = Inr (b, s')"
  from same_but_gpioD [OF keepsD [OF gpio_init_frame this]] show "same_modules s s'"
    by (simp add: same_modules_def)
qed

lemma keeps_modules_patch [intro!]:
  "keeps same_modules (patch_handle env h :: ('a ts_state_scheme, unit) kprog)"
  by (auto simp: patch_handle_def input_handle_list_add_def intro!: modules_frame.keeps_rules)

lemma keeps_modules_reset [intro!]:
  "keeps same_modules (reset_entries es :: ('a ts_state_scheme, unit) kprog)"
  by (induction es rule: reset_entries.induct) (auto intro!: modules_frame.keeps_rules)

lemma touchscreen_init_modules: "keeps same_modules (touchscreen_init env d :: ('a ts_state_scheme, int) kprog)"
  by (auto simp: touchscreen_init_def find_touchscreen_device_def modify_touchscreen_device_def
      touchscreen_init_hook_def touchscreen_init_data_def Let_def intro!: modules_frame.keeps_rules
      split: option.split)

lemma touchscreen_cleanup_modules:
  "keeps same_modules (touchscreen_cleanup env :: ('a ts_state_scheme, int) kprog)"
  by (auto simp: touchscreen_cleanup_def gpio_msm_interrupt_clear_nothing reset_touchscreen_device_def
      intro!: modules_frame.keeps_rules)

text \<open>An injection changes neither hooks nor modules nor saved filters.\<close>

definition same_but_touch :: "'a ts_state_scheme \<Rightarrow> 'a ts_state_scheme \<Rightarrow> bool" where
  "same_but_touch s s' \<longleftrightarrow> same_hooks s s' \<and> same_modules s s' \<and> same_filters s s'"

interpretation touch_frame: frame_relation
  "same_but_touch :: 'a ts_state_scheme \<Rightarrow> 'a ts_state_scheme \<Rightarrow> bool"
  by unfold_locales (auto simp: same_but_touch_def same_hooks_def same_modules_def same_registry_def
      same_filters_def)

lemma same_but_touch_updates [simp]:
  fixes s :: "'a ts_state_scheme"
  shows "same_but_touch s (s\<lparr>klog := l\<rparr>)" "same_but_touch s (s\<lparr>abs_defuzz := z\<rparr>)"
    "same_but_touch s (s\<lparr>clock_pos := c\<rparr>)" "same_but_touch s (s\<lparr>ts_event := e\<rparr>)"
  by (simp_all add: same_but_touch_def same_hooks_def same_filters_def)

lemma keeps_touch_emit [intro!]: "keeps same_but_touch (emit c :: ('a ts_state_scheme, unit) kprog)"
  by (simp add: keeps_def emit_apply)

lemma keeps_touch_parts [intro!]:
  "keeps same_but_touch (report_abs dev code v :: ('a ts_state_scheme, unit) kprog)"
  "keeps same_but_touch (TOUCHSCREEN_ABS_DEFUZZ_UPDATE :: ('a ts_state_scheme, unit) kprog)"
  "keeps same_but_touch (ktime_get env :: ('a ts_state_scheme, int \<times> int) kprog)"
  "keeps same_but_touch (touchscreen_inject_cpu data c :: ('a ts_state_scheme, unit) kprog)"
  "keeps same_but_touch (prefetch_range kenv a n :: ('a ts_state_scheme, unit) kprog)"
proof -
  show "keeps same_but_touch (report_abs dev code v :: ('a ts_state_scheme, unit) kprog)"
    by (auto simp: report_abs_def intro!: touch_frame.keeps_rules)
  show "keeps same_but_touch (TOUCHSCREEN_ABS_DEFUZZ_UPDATE :: ('a ts_state_scheme, unit) kprog)"
    by (auto simp: TOUCHSCREEN_ABS_DEFUZZ_UPDATE_def intro!: touch_frame.keeps_rules)
  show "keeps same_but_touch (ktime_get env :: ('a ts_state_scheme, int \<times> int) kprog)"
    by (simp add: keeps_def ktime_get_def)
  show "keeps same_but_touch (touchscreen_inject_cpu data c :: ('a ts_state_scheme, unit) kprog)"
    by (auto simp: touchscreen_inject_cpu_def intro!: touch_frame.keeps_rules)
  show "keeps same_but_touch (prefetch_range kenv a n :: ('a ts_state_scheme, unit) kprog)"
    by (auto simp: prefetch_range_def Let_def intro!: touch_frame.keeps_rules)
qed

lemma touchscreen_inject_keeps:
  "keeps same_but_touch (touchscreen_inject env d :: ('a ts_state_scheme, int) kprog)"
  by (cases "touchscreen_device env")
     (auto simp: touchscreen_inject_def s3320_inject_def s3350_inject_def
       intro!: touch_frame.keeps_rules touch_frame.keeps_doallk)

lemma view_touch: "same_plugin_view s s' \<Longrightarrow> same_but_touch s s'"
  by (cases s; cases s') (simp add: same_but_touch_def same_plugin_view_def same_modules_def same_filters_def)

lemma keeps_view_touch:
  "keeps same_plugin_view (m :: ('a ts_state_scheme, 'b) kprog) \<Longrightarrow> keeps same_but_touch m"
  by (simp add: keeps_def view_touch)

lemma run_arm_modules: "keeps same_modules (run_arm env f p :: ('a ts_state_scheme, int) kprog)"
proof -
  have inj: "keeps same_modules (touchscreen_inject env d :: ('a ts_state_scheme, int) kprog)" for d
    using touchscreen_inject_keeps [of env d] unfolding keeps_def same_but_touch_def by blast
  show ?thesis
    by (cases f) (auto simp: run_arm_def touchscreen_init_modules touchscreen_cleanup_modules inj
        touchscreen_enable_def touchscreen_disable_def
        intro!: modules_frame.keeps_rules keeps_view_modules [OF keeps_view_real(2)])
qed

lemma run_arm_touch:
  assumes "f \<notin> {TouchscreenInit, TouchscreenCleanup}"
  shows "keeps same_but_touch (run_arm env f p :: ('a ts_state_scheme, int) kprog)"
  using assms
  by (cases f) (auto simp: run_arm_def touchscreen_enable_def touchscreen_disable_def
      intro!: touch_frame.keeps_rules touchscreen_inject_keeps keeps_view_touch [OF keeps_view_real(2)])

interpretation arm_functions: plugin_functions "run_arm env" for env
  by unfold_locales (auto dest: keepsD [OF run_arm_modules] simp: same_modules_def)

section \<open>The module as an instance of \<open>linked_module\<close>\<close>

lemma touch_quiet: "same_but_touch s s' \<Longrightarrow> quiet s s'"
  by (simp add: same_but_touch_def quiet_iff)

lemma touch_ready: "same_but_touch s s' \<Longrightarrow> arm_ready env f0 s' = arm_ready env f0 s"
  using irq_ready_same_hooks [of s s' "touchscreen_irq_software env"] same_filters_view [of s s']
  by (simp add: same_but_touch_def arm_ready_def ts_ready_def) (simp add: same_filters_def)

lemma touchscreen_callback_keeps:
  assumes "callback_fn (plugin_objs s plugin_touchscreen) \<notin> {Some TouchscreenInit, Some TouchscreenCleanup}"
    and "touchscreen_callback (run_arm env) b s = Inr (u, s')"
  shows "same_but_touch s s'"
proof -
  let ?s1 = "s\<lparr>ts_event := (ts_event s)\<lparr>event_type := (if b then KEY_PRESS else KEY_RELEASE)\<rparr>\<rparr>"
  have q1: "same_but_touch s ?s1" by simp
  show ?thesis
  proof (cases "callback_fn (plugin_objs s plugin_touchscreen)")
    case None
    with assms(2) q1 show ?thesis
      by (simp add: touchscreen_callback_def seqk_def bindk_def kprog_simps)
  next
    case (Some f)
    with assms(2) obtain r where "run_arm env f plugin_touchscreen ?s1 = Inr (r, s')"
      by (auto simp: touchscreen_callback_def seqk_Inr_iff bindk_Inr_iff kprog_simps)
    moreover have "f \<notin> {TouchscreenInit, TouchscreenCleanup}" using assms(1) Some by simp
    ultimately have "same_but_touch ?s1 s'" using keepsD [OF run_arm_touch] by blast
    with q1 show ?thesis by (rule touch_frame.frame_trans)
  qed
qed

lemma arm_input_keeps:
  fixes s :: "'a ts_state_scheme"
  assumes "callback_fn (plugin_objs s plugin_touchscreen) \<notin> {Some TouchscreenInit, Some TouchscreenCleanup}"
    and "arm_input env x s = Inr (u, s')"
  shows "same_but_touch s s'"
proof (cases x)
  case (Tasklet b)
  with assms touchscreen_callback_keeps [of s env b u s'] show ?thesis
    by (auto simp: arm_input_def ts_tasklet_def split: if_splits)
next
  case (Irq j)
  with assms(2) have "deliver_irq TouchscreenHookHandler (touchscreen_hook_handler env call_flow) j s = Inr (u, s')"
    by (simp add: arm_input_def)
  from deliver_irq_frame [OF this [unfolded touchscreen_hook_handler_delayed]] have "same_plugin_view s s'"
    by (auto simp: same_plugin_view_def same_hooks_def same_registry_def)
  then show ?thesis by (rule view_touch)
qed

text \<open>The clean-up makes no timer calls.\<close>

definition same_timers :: "'a kernel_scheme \<Rightarrow> 'a kernel_scheme \<Rightarrow> bool" where
  "same_timers s s' \<longleftrightarrow> (\<forall>t. timer_armed t s' = timer_armed t s)"

interpretation timer_frame: frame_relation "same_timers :: 'a kernel_scheme \<Rightarrow> 'a kernel_scheme \<Rightarrow> bool"
  by unfold_locales (simp_all add: same_timers_def)

lemma keeps_timers_vfree: "keeps same_timers (emit (Vfree a) :: ('a kernel_scheme, unit) kprog)"
  by (simp add: keeps_def emit_apply same_timers_def timer_armed_def armed_after_append)

lemma keeps_timers_unhook: "keeps same_timers (unhook_interrupt i :: ('a hook_state_scheme, unit) kprog)"
proof (rule keepsI)
  fix s u and s' :: "'a hook_state_scheme"
  assume "unhook_interrupt i s = Inr (u, s')"
  then show "same_timers s s'"
    by (auto simp: unhook_interrupt_def bindk_Inr_iff seqk_Inr_iff liftk_Inr_iff kprog_simps
        same_timers_def timer_armed_def split: option.splits if_splits)
qed

lemma keeps_timers_modk: "(\<And>s. klog (f s) = klog s) \<Longrightarrow> keeps same_timers (modk f)"
  by (rule timer_frame.keeps_modk) (simp add: same_timers_def timer_armed_def)

lemma touchscreen_cleanup_timers:
  "keeps same_timers (touchscreen_cleanup env :: ('a ts_state_scheme, int) kprog)"
proof -
  have "keeps same_timers (reset_entries es :: ('a ts_state_scheme, unit) kprog)" for es
    by (induction es rule: reset_entries.induct)
       (auto intro!: timer_frame.keeps_retk timer_frame.keeps_seqk keeps_timers_modk keeps_timers_vfree)
  then show ?thesis
    by (auto simp: touchscreen_cleanup_def gpio_msm_interrupt_clear_nothing reset_touchscreen_device_def
        intro!: timer_frame.keeps_rules keeps_timers_unhook)
qed

text \<open>Neither initialisation nor clean-up touches the control file.\<close>

lemma keeps_file_gpio_init [intro!]:
  "keeps same_file (gpio_msm_interrupt_init env :: ('a gpio_state_scheme, bool) kprog)"
proof (rule keepsI)
  fix s b and s' :: "'a gpio_state_scheme"
  assume "gpio_msm_interrupt_init env s = Inr (b, s')"
  from same_but_gpioD [OF keepsD [OF gpio_init_frame this]] show "same_file s s'" by (simp add: same_file_log)
qed

lemma keeps_file_patch [intro!]: "keeps same_file (patch_handle env h :: ('a ts_state_scheme, unit) kprog)"
  by (auto simp: patch_handle_def input_handle_list_add_def
      intro!: file_frame.keeps_rules keeps_file_emit same_file_log)

lemma keeps_file_reset [intro!]: "keeps same_file (reset_entries es :: ('a ts_state_scheme, unit) kprog)"
  by (induction es rule: reset_entries.induct)
     (auto intro!: file_frame.keeps_rules keeps_file_emit same_file_log)

lemma touchscreen_file:
  "keeps same_file (touchscreen_init env d :: ('a ts_state_scheme, int) kprog)"
  "keeps same_file (touchscreen_cleanup env :: ('a ts_state_scheme, int) kprog)"
proof -
  show "keeps same_file (touchscreen_init env d :: ('a ts_state_scheme, int) kprog)"
    by (auto simp: touchscreen_init_def find_touchscreen_device_def modify_touchscreen_device_def
        touchscreen_init_hook_def touchscreen_init_data_def Let_def upd_plugin_def
        intro!: file_frame.keeps_rules keeps_file_emit same_file_log split: option.split)
  show "keeps same_file (touchscreen_cleanup env :: ('a ts_state_scheme, int) kprog)"
    by (auto simp: touchscreen_cleanup_def gpio_msm_interrupt_clear_nothing reset_touchscreen_device_def
        intro!: file_frame.keeps_rules keeps_file_emit same_file_log)
qed

lemma run_arm_file:
  "f \<in> {TouchscreenInit, TouchscreenCleanup} \<Longrightarrow> keeps same_file (run_arm env f p :: ('a ts_state_scheme, int) kprog)"
  by (auto simp: run_arm_def touchscreen_file)

interpretation arm: linked_module "run_arm env" "ts_kenv env" "touchscreen_irq_software env"
  TouchscreenInit TouchscreenCleanup "if arch_x86 (ts_kenv env) then RealKey else RealTouchpad"
  "if arch_x86 (ts_kenv env) then (\<lambda>_. retk ()) else arm_input env"
  "arm_loadable env f0" "arm_ready env f0" for env f0
proof unfold_locales
  fix s s' :: "'a ts_state_scheme"
  assume l: "same_linked s s'"
  then have sm: "same_hooks s s'" by (simp add: same_linked_def)
  from l have filt: "same_filters s s'"
    by (cases s; cases s') (simp add: same_linked_def same_filters_def)
  show "arm_loadable env f0 s' = arm_loadable env f0 s"
    using filt affinity_same_hooks [OF sm] irq_ready_same_hooks [OF sm]
    by (simp add: arm_loadable_def ts_loadable_def same_hooksD [OF sm] same_filters_def)
  show "arm_ready env f0 s' = arm_ready env f0 s"
    using filt irq_ready_same_hooks [OF sm] same_filters_view [OF filt]
    by (simp add: arm_ready_def ts_ready_def same_filters_def)
next
  fix s :: "'a ts_state_scheme"
  let ?i = "touchscreen_irq_software env" and ?p = "module_plugin (ts_kenv env)"
  assume l: "arm_loadable env f0 s"
  then obtain a where ok: "ts_env_ok env" and ready: "irq_ready ?i s" and free: "\<not> hooked s ?i"
    and aff: "get_irq_affinity (ts_kenv env) ?i s = Inr a" and load: "ts_loadable env s"
    and f0: "handler_filter s = f0"
    by (auto simp: arm_loadable_def ts_loadable_def)
  from touchscreen_init_returns [OF ok ready free aff] obtain r s' where
    init: "touchscreen_init env (Some ?p) s = Inr (r, s')" by blast
  from ts_env_okD [OF ok] obtain dev where dev: "memory_ok (ts_kenv env)"
    "kallsyms_lookup_name (ts_kenv env) ''input_dev_list'' \<noteq> 0"
    "find_input_dev (device_string env) (input_devs env) = Inr dev"
    "gpio_driver_of (gpio_of env) = MsmPinctrl \<Longrightarrow> labelled (gpio_table (gpio_of env))" by metis
  from touchscreen_init_cases [OF dev ready init] f0 have
    "\<exists>ks. for_eachk ks push_filter (f0, []) = Inr ((), filter_view_of s')"
    by (auto simp: filters_pushed_def)
  then show "\<exists>r s'. run_arm env TouchscreenInit ?p s = Inr (r, s') \<and> arm_ready env f0 s'
      \<and> native_handler s' = native_handler s \<and> (\<forall>j. hooked s' j \<longrightarrow> hooked s j \<or> j = ?i)
      \<and> (\<forall>q. plugin_code (plugin_objs s' q) = plugin_code (plugin_objs s q))"
    using init touchscreen.init_contract [OF load init] keepsD [OF touchscreen_init_modules init]
    by (auto simp: run_arm_def arm_ready_def same_modules_def)
next
  fix s :: "'a ts_state_scheme"
  assume "arm_ready env f0 s"
  then have "ts_ready env s" by (simp add: arm_ready_def)
  from touchscreen.cleanup_contract [OF this] obtain s' where
    c: "touchscreen_cleanup env s = Inr (0, s')" "native_handler s' = native_handler s"
      "\<forall>j. hooked s' j \<longleftrightarrow> hooked s j \<and> j \<noteq> touchscreen_irq_software env" by blast
  with keepsD [OF touchscreen_cleanup_timers c(1)]
  show "\<exists>s'. run_arm env TouchscreenCleanup (module_plugin (ts_kenv env)) s = Inr (0, s')
      \<and> native_handler s' = native_handler s
      \<and> (\<forall>j. hooked s' j \<longleftrightarrow> hooked s j \<and> j \<noteq> touchscreen_irq_software env)
      \<and> (\<forall>t. timer_armed t s' = timer_armed t s)"
    by (auto simp: run_arm_def same_timers_def)
next
  fix f p r and s s' :: "'a ts_state_scheme"
  assume "f \<notin> {TouchscreenInit, TouchscreenCleanup}" and "run_arm env f p s = Inr (r, s')"
  then have "same_but_touch s s'" using keepsD [OF run_arm_touch] by blast
  then show "quiet s s' \<and> (arm_ready env f0 s \<longrightarrow> arm_ready env f0 s')"
    by (simp add: touch_ready touch_quiet)
next
  fix x u and s s' :: "'a ts_state_scheme"
  assume "callback_fn (plugin_objs s (module_plugin (ts_kenv env))) \<notin> {Some TouchscreenInit, Some TouchscreenCleanup}"
    and "(if arch_x86 (ts_kenv env) then (\<lambda>_. retk ()) else arm_input env) x s = Inr (u, s')"
  then have "same_but_touch s s'"
    using arm_input_keeps [of s env x u s']
    by (auto simp: module_plugin_def retk_apply touch_frame.frame_refl split: if_splits)
  then show "quiet s s' \<and> (arm_ready env f0 s \<longrightarrow> arm_ready env f0 s')"
    by (simp add: touch_ready touch_quiet)
next
  fix f p r and s s' :: "'a ts_state_scheme"
  assume "f \<in> {TouchscreenInit, TouchscreenCleanup}" and "run_arm env f p s = Inr (r, s')"
  then show "control_file s' = control_file s"
    using keeps_fileD [OF run_arm_file] by blast
qed auto

section \<open>The module on a phone that supports it\<close>

text \<open>
  The phone: a named touchscreen whose GPIO driver initialises, memory, fair entropy, CPUs that fit
  the mask, and code at addresses that can be touched.
\<close>

definition arm_device :: "ts_env \<Rightarrow> input_dev option" where
  "arm_device env = (case find_input_dev (device_string env) (input_devs env) of Inl _ \<Rightarrow> None | Inr d \<Rightarrow> d)"

definition arm_machine :: "ts_env \<Rightarrow> bool" where
  "arm_machine env \<longleftrightarrow> \<not> arch_x86 (ts_kenv env) \<and> arm_device env \<noteq> None \<and> gpio_works (gpio_of env)
     \<and> fair_entropy (ts_kenv env) \<and> list_all (\<lambda>c. c < 32) (online_cpus (ts_kenv env))
     \<and> list_all (\<lambda>a. 0 \<notin> set (prefetched (ts_kenv env) a 4096))
         [touchscreen_device_get_irq_handler env, own_code_addr (ts_kenv env) ''real_touchpad'',
          own_code_addr (ts_kenv env) ''timer_reset'', own_code_addr (ts_kenv env) ''timer_restart'']"

definition arm_start :: "ts_env \<Rightarrow> (addr \<Rightarrow> filter_ptr) \<Rightarrow> 'a ts_state_scheme \<Rightarrow> bool" where
  "arm_start env f0 s \<longleftrightarrow> arm_machine env \<and> arm_loadable env f0 s \<and> (\<forall>j. \<not> hooked s j)
     \<and> (\<forall>j. current_handler s j \<noteq> Some TouchscreenHookHandler) \<and> abs_defuzz s \<in> {0, 1}"

definition arm_alive :: "ts_env \<Rightarrow> 'a ts_state_scheme \<Rightarrow> bool" where
  "arm_alive env s \<longleftrightarrow> arm_machine env \<and> own_hooks TouchscreenHookHandler s
     \<and> (\<forall>j. hooked s j \<longrightarrow> j = touchscreen_irq_software env)
     \<and> (\<forall>j. native_handler s j \<noteq> Some TouchscreenHookHandler)
     \<and> plugin_code (plugin_objs s plugin_touchscreen)
         = plugin_code ((plugin_touchscreen_object env)\<lparr>plugin_id := 0, callback_fn := Some RealTouchpad\<rparr>)
     \<and> ts_data_linked env (dev_addr (the (arm_device env))) plugin_touchscreen s \<and> abs_defuzz s \<in> {0, 1}"

lemma arm_machineD:
  assumes "arm_machine env"
  shows "\<not> arch_x86 (ts_kenv env)" "gpio_works (gpio_of env)" "fair_entropy (ts_kenv env)"
    "find_input_dev (device_string env) (input_devs env) = Inr (arm_device env)" "arm_device env \<noteq> None"
    "c \<in> set (online_cpus (ts_kenv env)) \<Longrightarrow> c < 32"
    "a \<in> {touchscreen_device_get_irq_handler env, own_code_addr (ts_kenv env) ''real_touchpad'',
       own_code_addr (ts_kenv env) ''timer_reset'', own_code_addr (ts_kenv env) ''timer_restart''} \<Longrightarrow>
       0 \<notin> set (prefetched (ts_kenv env) a 4096)"
  using assms by (auto simp: arm_machine_def arm_device_def list_all_iff split: sum.splits)

lemma arm_period_drawable: "arm_machine env \<Longrightarrow> drawable (ts_kenv env) RND_MIN RND_MAX s"
  by (rule fair_drawable) (auto simp: RND_MIN_def RND_MAX_def dest: arm_machineD)

lemma arm_alive_fns:
  assumes "arm_alive env s"
  shows "inject_fn (plugin_objs s plugin_touchscreen) = Some TouchscreenInject"
    "enable_fn (plugin_objs s plugin_touchscreen) = Some TouchscreenEnable"
    "disable_fn (plugin_objs s plugin_touchscreen) = Some TouchscreenDisable"
    "callback_fn (plugin_objs s plugin_touchscreen) = Some RealTouchpad"
  using plugin_code_fns [of "plugin_objs s plugin_touchscreen"
      "(plugin_touchscreen_object env)\<lparr>plugin_id := 0, callback_fn := Some RealTouchpad\<rparr>"] assms
  by (auto simp: arm_alive_def plugin_touchscreen_object_def)

text \<open>What an event keeps, beyond the switch of the fake coordinates.\<close>

definition arm_frame :: "'a ts_state_scheme \<Rightarrow> 'a ts_state_scheme \<Rightarrow> bool" where
  "arm_frame s s' \<longleftrightarrow> same_hooks s s' \<and> plugin_objs s' = plugin_objs s \<and> ts_data s' = ts_data s"

interpretation arm_quiet: frame_relation "arm_frame :: 'a ts_state_scheme \<Rightarrow> 'a ts_state_scheme \<Rightarrow> bool"
  by unfold_locales (auto simp: arm_frame_def same_hooks_def)

lemma arm_alive_frame: "arm_frame s s' \<Longrightarrow> abs_defuzz s' \<in> {0, 1} \<Longrightarrow> arm_alive env s \<Longrightarrow> arm_alive env s'"
proof -
  assume "arm_frame s s'" and z: "abs_defuzz s' \<in> {0, 1}" and alive: "arm_alive env s"
  then have sm: "same_hooks s s'" and "plugin_objs s' = plugin_objs s" "ts_data s' = ts_data s"
    by (simp_all add: arm_frame_def)
  with z alive show "arm_alive env s'"
    by (simp add: arm_alive_def ts_data_linked_def own_hooks_same [OF sm] same_hooksD [OF sm])
qed

lemma view_arm_frame:
  fixes s :: "'a ts_state_scheme"
  assumes "same_plugin_view s s'"
  shows "arm_frame s s' \<and> abs_defuzz s' = abs_defuzz s"
  using assms by (cases s; cases s') (simp add: arm_frame_def same_plugin_view_def)

lemma arm_alive_view:
  fixes s :: "'a ts_state_scheme"
  assumes "same_plugin_view s s'" and "arm_alive env s"
  shows "arm_alive env s'"
  using view_arm_frame [OF assms(1)] arm_alive_frame [of s s' env] assms(2) by (simp add: arm_alive_def)

text \<open>
  The calls a running module can make. The touches it injects are for the touchscreen only, and the
  X coordinate of one lies where the module's own filter takes it for fake.
\<close>

fun arm_input_ok :: "ts_env \<Rightarrow> kcall \<Rightarrow> bool" where
  "arm_input_ok env (InputEvent dev type code v) \<longleftrightarrow> dev = dev_addr (the (arm_device env)) \<and> type = EV_SYN"
| "arm_input_ok env (InputMtSlot dev n) \<longleftrightarrow> dev = dev_addr (the (arm_device env)) \<and> n = 0"
| "arm_input_ok env (InputMtReportSlotState dev tool b) \<longleftrightarrow> dev = dev_addr (the (arm_device env))"
| "arm_input_ok env (InputReportKey dev code v) \<longleftrightarrow> dev = dev_addr (the (arm_device env)) \<and> code = BTN_TOOL_FINGER"
| "arm_input_ok env (InputReportAbs dev code v) \<longleftrightarrow> dev = dev_addr (the (arm_device env))
     \<and> \<not> (code = ABS_MT_POSITION_X \<and> TOUCHSCREEN_FILTER_NOT_IN_RANGE v SEND_VALUE 1)"
| "arm_input_ok env (InputSync dev) \<longleftrightarrow> dev = dev_addr (the (arm_device env))"
| "arm_input_ok env (SmpCallInject c) \<longleftrightarrow> c \<in> set (online_cpus (ts_kenv env))"
| "arm_input_ok env _ \<longleftrightarrow> False"

definition arm_call_ok :: "ts_env \<Rightarrow> kcall \<Rightarrow> bool" where
  "arm_call_ok env c \<longleftrightarrow> module_call_ok TouchscreenHookHandler 1 1000 c \<or> arm_input_ok env c"

lemma module_arm_call_ok:
  "list_all (module_call_ok TouchscreenHookHandler 1 1000) cs \<Longrightarrow> list_all (arm_call_ok env) cs"
  by (auto simp: list_all_iff arm_call_ok_def)

lemma arm_call_prefetch: "0 \<notin> set as \<Longrightarrow> list_all (arm_call_ok env) (map PrefetchTouch as)"
  by (rule module_arm_call_ok) (rule module_call_ok_prefetch)

lemma fake_touch_ok:
  assumes "z \<in> {0, 1}"
  shows "list_all (arm_call_ok env) (fake_touch device (dev_addr (the (arm_device env))) z t1 t2)"
  using assms
  by (auto simp: fake_touch_def arm_call_ok_def TOUCHSCREEN_FILTER_NOT_IN_RANGE_def SEND_VALUE_def EV_SYN_def
      ABS_MT_POSITION_X_def ABS_MT_TOUCH_MAJOR_def ABS_MT_TOUCH_MINOR_def)

lemma arm_inject_alive:
  fixes s :: "'a ts_state_scheme"
  assumes "arm_alive env s"
  shows "\<exists>s' cs. timer_inject (run_arm env) (ts_kenv env) s = Inr ((), s') \<and> arm_alive env s'
     \<and> same_hooks s s' \<and> klog s' = klog s @ cs \<and> list_all (arm_call_ok env) cs"
proof -
  let ?k = "ts_kenv env" and ?d = "plugin_data (plugin_objs s plugin_touchscreen)"
  have m: "arm_machine env" and z: "abs_defuzz s \<in> {0, 1}"
    and data: "?d \<noteq> 0" "ts_irq_handler (ts_data s ?d) = touchscreen_device_get_irq_handler env"
      "touchscreen_input_dev (ts_data s ?d) = dev_addr (the (arm_device env))"
    using assms by (simp_all add: arm_alive_def ts_data_linked_def)
  let ?cs = "fake_touch (touchscreen_device env) (touchscreen_input_dev (ts_data s ?d)) (abs_defuzz s)
           (clock env (clock_pos s)) (clock env (Suc (clock_pos s)))
       @ map SmpCallInject (filter (\<lambda>c. bit (touchscreen_affinity (ts_data s ?d)) c
             \<or> touchscreen_affinity (ts_data s ?d) = 0) (online_cpus ?k))
       @ map PrefetchTouch (prefetched ?k (ts_irq_handler (ts_data s ?d)) 4096)"
  let ?s1 = "s\<lparr>abs_defuzz := (if abs_defuzz s = 0 then 1 else 0), clock_pos := clock_pos s + 2,
     klog := klog s @ ?cs\<rparr>"
  let ?real = "map PrefetchTouch (prefetched ?k (own_code_addr ?k ''real_touchpad'') 4096)"
  let ?s2 = "?s1\<lparr>klog := klog ?s1 @ ?real\<rparr>"
  have touch: "0 \<notin> set (prefetched ?k (ts_irq_handler (ts_data s ?d)) 4096)"
    "0 \<notin> set (prefetched ?k (own_code_addr ?k ''real_touchpad'') 4096)"
    unfolding data(2) by (rule arm_machineD(7) [OF m], simp)+
  have "touchscreen_inject env ?d s = Inr (0, ?s1)"
    by (rule touchscreen_inject_apply [OF data(1) arm_machineD(6) [OF m] touch(1)])
  then have "timer_inject (run_arm env) ?k s = Inr ((), ?s2)"
    using arm_machineD(1) [OF m] arm_alive_fns(1) [OF assms] prefetch_range_ok [OF touch(2), of ?s1]
    by (simp add: timer_inject_def Let_def run_arm_def bindk_def seqk_def readk_apply derefk_Some)
  moreover have "arm_alive env ?s2"
    by (rule arm_alive_frame [of s, OF _ _ assms]) (auto simp: arm_frame_def same_hooks_def)
  moreover have "list_all (arm_call_ok env) ?cs"
    using fake_touch_ok [OF z] arm_call_prefetch [OF touch(1), of env]
    by (simp add: data(3)) (auto simp: list_all_iff arm_call_ok_def)
  moreover have "same_hooks s ?s2" by (simp add: same_hooks_def)
  ultimately show ?thesis
    using arm_call_prefetch [OF touch(2)]
    by (intro exI [of _ ?s2]) (rule exI [of _ "?cs @ ?real"], simp only: list_all_append, simp)
qed

lemma arm_tick_alive:
  fixes s :: "'a ts_state_scheme"
  assumes "arm_alive env s"
  shows "\<exists>s' cs. timer_function (run_arm env) (ts_kenv env) s = Inr (HRTIMER_RESTART, s') \<and> arm_alive env s'
     \<and> same_hooks s s' \<and> klog s' = klog s @ cs \<and> list_all (arm_call_ok env) cs"
proof -
  let ?k = "ts_kenv env"
  have m: "arm_machine env" using assms by (simp add: arm_alive_def)
  obtain s1 cs where s1: "(if injection s AND STATE_INJECT \<noteq> 0 then timer_inject (run_arm env) ?k else retk ()) s
      = Inr ((), s1)" "arm_alive env s1" "same_hooks s s1" "klog s1 = klog s @ cs" "list_all (arm_call_ok env) cs"
  proof (cases "injection s AND STATE_INJECT = 0")
    case True
    with assms that [of s "[]"] show ?thesis by (simp add: retk_apply)
  next
    case False
    with arm_inject_alive [OF assms] that show ?thesis by auto
  qed
  have touch: "0 \<notin> set (prefetched ?k (own_code_addr ?k ''timer_reset'') 4096)"
    by (rule arm_machineD(7) [OF m]) simp
  let ?pre = "map PrefetchTouch (prefetched ?k (own_code_addr ?k ''timer_reset'') 4096)"
  let ?s2 = "s1\<lparr>klog := klog s1 @ ?pre\<rparr>"
  from timer_restart_returns [OF arm_period_drawable [OF m], of ?s2] obtain r s' where
    s': "timer_restart ?k ?s2 = Inr (HRTIMER_RESTART, s')" "unat r \<le> 20000000"
    "klog s' = klog ?s2 @ [HrtimerForwardNow MainTimer (KtimeSet 0 (unat (r :: u32)))]" by blast
  have "same_plugin_view s1 ?s2" by (simp add: same_plugin_view_def same_hooks_def same_registry_def)
  then have view: "same_plugin_view s1 s'"
    using keepsD [OF keeps_view_timers(3) s'(1)] view_frame.frame_trans by blast
  then have "arm_alive env s'" using s1(2) by (rule arm_alive_view)
  moreover have "same_hooks s s'"
    using s1(3) view by (simp add: same_plugin_view_def same_hooks_def)
  moreover have "list_all (arm_call_ok env) [HrtimerForwardNow MainTimer (KtimeSet 0 (unat r))]"
    using s'(2) by (simp add: arm_call_ok_def)
  moreover have "timer_function (run_arm env) ?k s = Inr (HRTIMER_RESTART, s')"
    using s1(1) s'(1) prefetch_range_ok [OF touch, of s1]
    by (simp add: timer_function_def bindk_def seqk_def readk_apply)
  ultimately show ?thesis
    using s1(4,5) s'(3) arm_call_prefetch [OF touch]
    by (intro exI [of _ s'] exI [of _ "cs @ ?pre @ [HrtimerForwardNow MainTimer (KtimeSet 0 (unat r))]"])
       (simp only: list_all_append, simp)
qed

lemma touchscreen_callback_real:
  fixes s :: "'a ts_state_scheme"
  assumes "callback_fn (plugin_objs s plugin_touchscreen) = Some RealTouchpad"
    and "drawable (ts_kenv env) RND_MIN RND_MAX s"
    and "0 \<notin> set (prefetched (ts_kenv env) (own_code_addr (ts_kenv env) ''timer_restart'') 4096)"
  shows "\<exists>ns s'. touchscreen_callback (run_arm env) tap s = Inr ((), s') \<and> ns \<le> 20000000
     \<and> faketimer_running s' = 1 \<and> klog s' = klog s @ real_input_calls (ts_kenv env) (faketimer_running s) ns
     \<and> arm_frame s s' \<and> abs_defuzz s' = abs_defuzz s"
proof -
  let ?s1 = "s\<lparr>ts_event := (ts_event s)\<lparr>event_type := (if tap then KEY_PRESS else KEY_RELEASE)\<rparr>\<rparr>"
  have "drawable (ts_kenv env) RND_MIN RND_MAX ?s1" using assms(2) by (simp add: drawable_def)
  from real_input_returns [OF this assms(3)] obtain ns s' where
    s': "real_touchpad (ts_kenv env) ?s1 = Inr (0, s')" "ns \<le> 20000000" "faketimer_running s' = 1"
    "klog s' = klog s @ real_input_calls (ts_kenv env) (faketimer_running s) ns"
    by (auto simp: real_touchpad_key)
  have "arm_frame ?s1 s' \<and> abs_defuzz s' = abs_defuzz ?s1"
    by (rule view_arm_frame) (rule keepsD [OF keeps_view_real(2) s'(1)])
  then have "arm_frame s s' \<and> abs_defuzz s' = abs_defuzz s" by (simp add: arm_frame_def same_hooks_def)
  with s' show ?thesis
    using assms(1)
    by (intro exI [of _ ns] exI [of _ s'])
       (simp add: touchscreen_callback_def run_arm_def seqk_def bindk_def modk_apply readk_apply retk_apply)
qed

lemma arm_input_alive:
  fixes s :: "'a ts_state_scheme"
  assumes "arm_alive env s"
  shows "\<exists>s' cs. arm_input env x s = Inr ((), s') \<and> arm_alive env s'
     \<and> same_hooks s s' \<and> klog s' = klog s @ cs \<and> list_all (arm_call_ok env) cs"
proof -
  have m: "arm_machine env" and own: "own_hooks TouchscreenHookHandler s" and z: "abs_defuzz s \<in> {0, 1}"
    and only: "\<And>j. hooked s j \<Longrightarrow> j = touchscreen_irq_software env"
    and nat: "\<And>j. native_handler s j \<noteq> Some TouchscreenHookHandler"
    using assms by (simp_all add: arm_alive_def)
  show ?thesis
  proof (cases x)
    case (Tasklet tap)
    have touch: "0 \<notin> set (prefetched (ts_kenv env) (own_code_addr (ts_kenv env) ''timer_restart'') 4096)"
      by (rule arm_machineD(7) [OF m]) simp
    from touchscreen_callback_real [OF arm_alive_fns(4) [OF assms] arm_period_drawable [OF m] touch, of tap]
    obtain ns s' where s': "touchscreen_callback (run_arm env) tap s = Inr ((), s')" "ns \<le> 20000000"
      "klog s' = klog s @ real_input_calls (ts_kenv env) (faketimer_running s) ns"
      "arm_frame s s'" "abs_defuzz s' = abs_defuzz s" by blast
    moreover have "arm_alive env s'" by (rule arm_alive_frame [OF s'(4) _ assms]) (use z in \<open>simp add: s'(5)\<close>)
    moreover have "same_hooks s s'" using s'(4) by (simp add: arm_frame_def)
    ultimately show ?thesis
      using Tasklet module_arm_call_ok [OF module_call_ok_input [OF touch s'(2)]]
      by (cases tap) (auto simp: arm_input_def ts_tasklet_def)
  next
    case (Irq j)
    have draw: "drawable (ts_kenv env) 1 1000 s" by (rule fair_drawable [OF arm_machineD(3) [OF m]]) simp
    from irq_returns [OF own only draw _ nat, of j] obtain s' cs where
      s': "deliver_irq TouchscreenHookHandler (touchscreen_hook_handler env call_flow) j s = Inr ((), s')"
        "same_plugin_view s s'" "klog s' = klog s @ cs" "list_all (module_call_ok TouchscreenHookHandler 1 1000) cs"
      unfolding touchscreen_hook_handler_delayed by auto
    moreover have "same_hooks s s'" using s'(2) by (simp add: same_plugin_view_def)
    ultimately show ?thesis
      using Irq arm_alive_view [OF s'(2) assms] module_arm_call_ok by (auto simp: arm_input_def)
  qed
qed

lemma arm_alive_event:
  fixes s :: "'a ts_state_scheme"
  assumes "arm_alive env s"
  shows "\<exists>s' cs. exec_event (run_arm env) (ts_kenv env)
        (if arch_x86 (ts_kenv env) then (\<lambda>_. retk ()) else arm_input env) ev s = Inr ((), s')
     \<and> arm_alive env s' \<and> same_hooks s s' \<and> klog s' = klog s @ cs \<and> list_all (arm_call_ok env) cs"
proof -
  have arch: "\<not> arch_x86 (ts_kenv env)" using assms by (simp add: arm_alive_def arm_machine_def)
  show ?thesis
  proof (cases ev)
    case (WriteControl parsed n)
    have "arm_alive env (s\<lparr>injection := v\<rparr>)" for v by (rule arm_alive_view [OF _ assms]) simp
    with WriteControl arch assms arm_alive_fns [OF assms] show ?thesis
      by (cases parsed) (auto simp: exec_event_def keydrown_write_def switch_touchscreen_def run_arm_def
          touchscreen_enable_def touchscreen_disable_def seqk_def bindk_def retk_apply modk_apply readk_apply)
  next
    case TimerTick
    with arm_tick_alive [OF assms] show ?thesis by (auto simp: exec_event_def seqk_def bindk_def retk_apply)
  next
    case (Input x)
    then show ?thesis using arch arm_input_alive [OF assms, of x] by (simp add: exec_event_def)
  next
    case FakeTick
    have "arm_alive env (s\<lparr>faketimer_running := 0\<rparr>)" by (rule arm_alive_view [OF _ assms]) simp
    with FakeTick show ?thesis
      by (auto simp: exec_event_def faketimer_function_def seqk_def bindk_def retk_apply modk_apply)
  qed
qed

lemma arm_start_alive:
  fixes s :: "'a ts_state_scheme"
  assumes "arm_start env f0 s"
    and "plugin_objs s plugin_touchscreen
       = (plugin_touchscreen_object env)\<lparr>plugin_id := 0, callback_fn := Some RealTouchpad\<rparr>"
    and init: "touchscreen_init env (Some plugin_touchscreen) s = Inr (r, s')"
  shows "arm_alive env s'"
proof -
  let ?i = "touchscreen_irq_software env"
  have m: "arm_machine env" and ok: "ts_env_ok env" and ready: "irq_ready ?i s" and free: "\<And>j. \<not> hooked s j"
    and foreign: "\<And>j. current_handler s j \<noteq> Some TouchscreenHookHandler" and z: "abs_defuzz s \<in> {0, 1}"
    using assms(1) by (simp_all add: arm_start_def arm_loadable_def ts_loadable_def)
  from arm_machineD(4,5) [OF m] obtain d where
    d: "arm_device env = Some d" "find_input_dev (device_string env) (input_devs env) = Inr (Some d)" by auto
  from touchscreen_init_succeeds [OF ok ready free arm_machineD(2) [OF m] d(2) init]
  have r: "r = 0" and data: "ts_data_linked env (dev_addr (the (arm_device env))) plugin_touchscreen s'"
    and z': "abs_defuzz s' \<in> {0, 1}" using d(1) z by auto
  have own: "own_hooks TouchscreenHookHandler s"
    using ready free foreign by (simp add: own_hooks_def irq_ready_def)
  have nat: "native_handler s = current_handler s"
    using free by (simp add: fun_eq_iff native_handler_def current_handler_def)
  from ts_env_okD [OF ok] have dev: "memory_ok (ts_kenv env)"
    "kallsyms_lookup_name (ts_kenv env) ''input_dev_list'' \<noteq> 0"
    "gpio_driver_of (gpio_of env) = MsmPinctrl \<Longrightarrow> labelled (gpio_table (gpio_of env))" by metis+
  from touchscreen_init_cases [OF dev(1,2) d(2) dev(3) ready init] r
  have able: "hookable ?i s" and sm: "same_hooks (hook_upd ?i (Some TouchscreenHookHandler) s) s'" by auto
  have "own_hooks TouchscreenHookHandler s' \<and> native_handler s' = native_handler s \<and> (\<forall>j. hooked s' j \<longrightarrow> j = ?i)"
    using own_hooks_hook_upd [OF own able] free
    by (simp add: own_hooks_same [OF sm] same_hooksD [OF sm] native_hook_upd [OF able] hooked_hook_upd [OF able])
  moreover have "plugin_code (plugin_objs s' plugin_touchscreen) = plugin_code (plugin_objs s plugin_touchscreen)"
    using keepsD [OF touchscreen_init_modules init] by (simp add: same_modules_def)
  ultimately show ?thesis
    using m data z' foreign by (simp add: arm_alive_def assms(2) nat)
qed

interpretation arm_running: running_module "run_arm env" "ts_kenv env" "touchscreen_irq_software env"
  TouchscreenInit TouchscreenCleanup "if arch_x86 (ts_kenv env) then RealKey else RealTouchpad"
  "if arch_x86 (ts_kenv env) then (\<lambda>_. retk ()) else arm_input env"
  "arm_loadable env f0" "arm_ready env f0"
  "arm_start env f0" "arm_alive env" "plugin_touchscreen_object env" "arm_call_ok env" for env f0
proof unfold_locales
  fix s s' :: "'a ts_state_scheme"
  assume l: "same_linked s s'"
  then have sm: "same_hooks s s'" by (simp add: same_linked_def)
  have "abs_defuzz s' = abs_defuzz s" using l by (cases s; cases s') (simp add: same_linked_def)
  then show "arm_start env f0 s' = arm_start env f0 s"
    using arm.loadable_view [OF l, of env f0] by (simp add: arm_start_def same_hooksD [OF sm])
next
  fix s s' :: "'a ts_state_scheme"
  assume v: "same_plugin_view s s'"
  then have "same_plugin_view s' s" by (auto simp: same_plugin_view_def same_hooks_def same_registry_def)
  with v show "arm_alive env s' = arm_alive env s" using arm_alive_view by blast
next
  fix s s' :: "'a ts_state_scheme" and r
  assume start: "arm_start env f0 s" and "plugin_objs s (module_plugin (ts_kenv env)) = (plugin_touchscreen_object env)
      \<lparr>plugin_id := 0, callback_fn := Some (if arch_x86 (ts_kenv env) then RealKey else RealTouchpad)\<rparr>"
    and "run_arm env TouchscreenInit (module_plugin (ts_kenv env)) s = Inr (r, s')"
  moreover have "\<not> arch_x86 (ts_kenv env)" using start by (simp add: arm_start_def arm_machine_def)
  ultimately show "arm_alive env s'"
    using arm_start_alive [OF start, of r s'] by (simp add: module_plugin_def run_arm_def)
next
  fix s :: "'a ts_state_scheme" and ev
  assume "arm_alive env s"
  then show "\<exists>s' cs. exec_event (run_arm env) (ts_kenv env)
        (if arch_x86 (ts_kenv env) then (\<lambda>_. retk ()) else arm_input env) ev s = Inr ((), s')
      \<and> arm_alive env s' \<and> same_hooks s s' \<and> klog s' = klog s @ cs \<and> list_all (arm_call_ok env) cs"
    by (rule arm_alive_event)
next
  fix c assume "arm_call_ok env c"
  then show "\<not> proc_call c"
    using module_call_no_proc [of TouchscreenHookHandler 1 1000 c] by (cases c) (auto simp: arm_call_ok_def)
qed (auto simp: arm_start_def linked_object_def well_typed_plugin_def slot_typed_def plugin_touchscreen_object_def)

section \<open>What a run shows\<close>

lemma touchscreen_inject_timing: "keeps same_timing (touchscreen_inject env d :: ('a ts_state_scheme, int) kprog)"
proof -
  have clock: "keeps same_timing (ktime_get env :: ('a ts_state_scheme, int \<times> int) kprog)"
    by (simp add: keeps_def ktime_get_def same_timing_def)
  have defuzz: "keeps same_timing (TOUCHSCREEN_ABS_DEFUZZ_UPDATE :: ('a ts_state_scheme, unit) kprog)"
    by (auto simp: TOUCHSCREEN_ABS_DEFUZZ_UPDATE_def same_timing_def intro!: timing_frame.keeps_rules)
  show ?thesis
    by (cases "touchscreen_device env")
       (auto simp: touchscreen_inject_def s3320_inject_def s3350_inject_def report_abs_def touchscreen_inject_cpu_def
         quiet_call_def intro!: timing_frame.keeps_rules timing_frame.keeps_doallk clock defuzz keeps_timing_emit
           keeps_timing_prefetch)
qed

lemma arm_alive_shows:
  fixes s :: "'a ts_state_scheme"
  assumes "arm_alive env s"
    and run: "exec_event (run_arm env) (ts_kenv env)
        (if arch_x86 (ts_kenv env) then (\<lambda>_. retk ()) else arm_input env) ev s = Inr ((), s')"
  shows "timed (ts_kenv env) 1 1000 (timing_class ev) s s' \<and> arms ev s s'"
proof -
  let ?k = "ts_kenv env"
  have m: "arm_machine env" and arch: "\<not> arch_x86 ?k" and own: "own_hooks TouchscreenHookHandler s"
    and only: "\<And>j. hooked s j \<Longrightarrow> j = touchscreen_irq_software env"
    using assms(1) by (simp_all add: arm_alive_def arm_machine_def)
  note fns = arm_alive_fns [OF assms(1)]
  have p: "module_plugin ?k = plugin_touchscreen" using arch by (simp add: module_plugin_def)
  show ?thesis
  proof (cases ev)
    case (WriteControl parsed n)
    with run arch fns show ?thesis
      by (cases parsed) (auto simp: exec_event_def keydrown_write_def switch_touchscreen_def run_arm_def
          touchscreen_enable_def touchscreen_disable_def seqk_def bindk_def retk_apply modk_apply readk_apply
          timed_def same_timing_def split: if_splits intro!: arms_nothing [of _ _ _ "[]"])
  next
    case TimerTick
    with run obtain r where tick: "timer_function (run_arm env) ?k s = Inr (r, s')"
      by (auto simp: exec_event_def seqk_Inr_iff retk_apply)
    have "keeps same_timing (run_arm env TouchscreenInject (module_plugin ?k) :: ('a ts_state_scheme, int) kprog)"
      by (auto simp: run_arm_def intro!: timing_frame.keeps_rules touchscreen_inject_timing)
    note silent = timer_inject_silent [where run = "run_arm env", OF fns(1) [folded p] this]
    show ?thesis
      using TimerTick timer_function_timed [OF silent tick] timer_function_arms [OF silent tick] by simp
  next
    case (Input x)
    show ?thesis
    proof (cases x)
      case (Tasklet tap)
      let ?s1 = "s\<lparr>ts_event := (ts_event s)\<lparr>event_type := (if tap then KEY_PRESS else KEY_RELEASE)\<rparr>\<rparr>"
      have "touchscreen_callback (run_arm env) tap s = Inr ((), s')"
        using run Input Tasklet arch by (simp add: exec_event_def arm_input_def ts_tasklet_def split: if_splits)
      then obtain r where key: "real_key ?k ?s1 = Inr (r, s')"
        using fns(4) by (auto simp: touchscreen_callback_def run_arm_def real_touchpad_key seqk_Inr_iff bindk_Inr_iff
            modk_apply readk_apply retk_apply)
      have same: "same_timing s ?s1" by (simp add: same_timing_def)
      show ?thesis
        using Input Tasklet period_silent(1) [OF same real_key_timed [OF key]]
          arms_silent [OF same real_key_arms [OF key] timing_frame.frame_refl] by simp
    next
      case (Irq j)
      have draw: "drawable ?k 1 1000 s" by (rule fair_drawable [OF arm_machineD(3) [OF m]]) simp
      have "deliver_irq TouchscreenHookHandler (delayed_handler ?k 1 1000 (touchscreen_irq_software env) call_flow) j s
          = Inr ((), s')"
        using run Input Irq arch by (simp add: exec_event_def arm_input_def touchscreen_hook_handler_delayed)
      from deliver_irq_timed [OF own only draw _ this] irq_arms [OF own only draw _ this] Input Irq
      show ?thesis by simp
    qed
  next
    case FakeTick
    with run obtain r where "faketimer_function s = Inr (r, s')"
      by (auto simp: exec_event_def seqk_Inr_iff retk_apply)
    from keepsD [OF keeps_timing_faketimer this] faketimer_arms [OF this] FakeTick show ?thesis
      by (simp add: timed_def)
  qed
qed

interpretation arm_timed: timed_module "run_arm env" "ts_kenv env" "touchscreen_irq_software env"
  TouchscreenInit TouchscreenCleanup "if arch_x86 (ts_kenv env) then RealKey else RealTouchpad"
  "if arch_x86 (ts_kenv env) then (\<lambda>_. retk ()) else arm_input env"
  "arm_loadable env f0" "arm_ready env f0"
  "arm_start env f0" "arm_alive env" "plugin_touchscreen_object env" "arm_call_ok env" 1 1000 for env f0
  by unfold_locales (simp add: arm_alive_shows)

section \<open>Properties\<close>

lemma demo_arm_loadable: "arm_loadable demo_ts_env (handler_filter demo_ts_state) demo_ts_state"
proof -
  have "get_irq_affinity (ts_kenv demo_ts_env) (touchscreen_irq_software demo_ts_env) demo_ts_state = Inr 5"
    by (simp add: get_irq_affinity_def irq_to_desc_def demo_ts_env_def demo_gpio_env_def demo_env_def
        demo_ts_defs demo_desc_def kernel_version_def)
  then show ?thesis
    by (simp add: arm_loadable_def ts_loadable_def demo_ts_env_ok demo_ts_ready demo_ts_not_hooked)
qed

lemma demo_ts_linked: "linked_object TouchscreenInit TouchscreenCleanup (plugin_objs demo_ts_state p)"
  by (simp add: linked_object_def well_typed_plugin_def slot_typed_def demo_ts_defs plugin_touchscreen_object_def)

lemma demo_ts_empty: "empty_registry demo_ts_state"
  by (simp add: empty_registry_def demo_ts_defs)

lemma demo_ts_arm: "\<not> arch_x86 (ts_kenv demo_ts_env)"
  by (simp add: demo_ts_env_def)

text \<open>
  On any phone (no touchscreen, unfair entropy): if the events of the loaded module return, so does
  unloading it, and nothing of it is left.
\<close>

lemma touchscreen_cleanup_restores:
  assumes "\<exists>sx :: 'a ts_state_scheme. arm_ready env f0 sx \<and> run_arm env TouchscreenCleanup p sx = Inr (0, s3)"
  shows "handler_filter s3 = f0"
proof -
  from assms obtain sx :: "'a ts_state_scheme" where
    "arm_ready env f0 sx" "run_arm env TouchscreenCleanup p sx = Inr (0, s3)" by blast
  then show ?thesis
    using touchscreen_cleanup_cases [of env sx] by (auto simp: run_arm_def arm_ready_def ts_ready_def)
qed

lemma arm_module_unloads:
  fixes s :: "'a ts_state_scheme"
  assumes "\<not> arch_x86 (ts_kenv env)" and "empty_registry s"
    and "arm_loadable env (handler_filter s) s" and "\<And>j. \<not> hooked s j"
    and "linked_object TouchscreenInit TouchscreenCleanup (plugin_objs s plugin_touchscreen)"
  shows "\<exists>s1. inthide_init (run_arm env) (ts_kenv env) True s = Inr (0, s1) \<and> timer_armed MainTimer s1
     \<and> (\<forall>evs s2. for_eachk evs (exec_event (run_arm env) (ts_kenv env) (arm_input env)) s1 = Inr ((), s2) \<longrightarrow>
          (\<exists>s3. inthide_exit (run_arm env) (ts_kenv env) s2 = Inr ((), s3) \<and> (\<forall>j. \<not> hooked s3 j)
             \<and> current_handler s3 = current_handler s \<and> handler_filter s3 = handler_filter s
             \<and> \<not> timer_armed MainTimer s3 \<and> \<not> control_file s3))"
proof -
  have p: "module_plugin (ts_kenv env) = plugin_touchscreen" using assms(1) by (simp add: module_plugin_def)
  note un = touchscreen_cleanup_restores [of env "handler_filter s" plugin_touchscreen]
  from arm.load_run_unload [OF assms(2) assms(5) [folded p] assms(3,4)] assms(1)
  show ?thesis unfolding p by (simp only: if_False) (meson un)
qed

text \<open>
  C12. The life of the phones' module, on a phone with the touchscreen, a GPIO driver that
  initialises, fair entropy and code that can be touched, whose interrupt descriptors hold no handler
  of the module. Loading succeeds with the injection timer armed. Any run of events (writes to the
  control file, taps, any interrupts delivered to whatever handlers they have, both timers firing)
  returns, and makes only allowed calls: timers set to at most 20 ms, delays of 1 to 1000
  microseconds, no call of the module's own handler by itself, and input reported for the
  touchscreen only, with X coordinates the module's own filter does not take for real. After it,
  unloading returns: no interrupt is hooked any more, every interrupt has its handler and every
  input handler its filter from before the load, the injection timer is not armed, and the control
  file, there until then, is gone.
\<close>

theorem arm_module_life:
  fixes s :: "'a ts_state_scheme"
  assumes "arm_start env (handler_filter s) s" and "empty_registry s"
    and "plugin_objs s plugin_touchscreen = plugin_touchscreen_object env"
  shows "\<exists>s1. inthide_init (run_arm env) (ts_kenv env) True s = Inr (0, s1) \<and> timer_armed MainTimer s1
     \<and> (\<forall>evs. \<exists>s2 cs s3. for_eachk evs (exec_event (run_arm env) (ts_kenv env) (arm_input env)) s1 = Inr ((), s2)
          \<and> klog s2 = klog s1 @ cs \<and> list_all (arm_call_ok env) cs \<and> control_file s2
          \<and> inthide_exit (run_arm env) (ts_kenv env) s2 = Inr ((), s3) \<and> (\<forall>j. \<not> hooked s3 j)
          \<and> current_handler s3 = current_handler s \<and> handler_filter s3 = handler_filter s
          \<and> \<not> timer_armed MainTimer s3 \<and> \<not> control_file s3)"
proof -
  have arch: "\<not> arch_x86 (ts_kenv env)" using assms(1) by (simp add: arm_start_def arm_machine_def)
  then have p: "module_plugin (ts_kenv env) = plugin_touchscreen" by (simp add: module_plugin_def)
  note un = touchscreen_cleanup_restores [of env "handler_filter s" plugin_touchscreen]
  from arm_running.life [OF assms(2) assms(3) [folded p] assms(1)] arch
  show ?thesis unfolding p by (simp only: if_False) (meson un)
qed

lemma demo_arm_start: "arm_start demo_ts_env (handler_filter demo_ts_state) demo_ts_state"
proof -
  have "fair_entropy (ts_kenv demo_ts_env)"
    using demo_fair by (simp add: fair_entropy_def demo_ts_env_def demo_gpio_env_def demo_env_def)
  moreover have "gpio_works (gpio_of demo_ts_env)"
  proof -
    have "serving_chips (gpio_of demo_ts_env) = serving_chips demo_gpio_env"
      "gpio_table (gpio_of demo_ts_env) = gpio_table demo_gpio_env"
      by (simp_all add: serving_chips_def serves_def [abs_def] demo_ts_env_def)
    moreover have "gpio_symbols (gpio_of demo_ts_env)"
      by (simp add: gpio_symbols_def demo_ts_env_def demo_env_def)
    ultimately show ?thesis using demo_gpio_ok by (simp add: gpio_works_def)
  qed
  moreover have "arm_device demo_ts_env \<noteq> None"
    by (simp add: arm_device_def demo_ts_env_def demo_dev_def device_string_def)
  ultimately have "arm_machine demo_ts_env"
    using demo_ts_arm
    by (simp add: arm_machine_def prefetched_nonzero touchscreen_device_get_irq_handler_def s3320_get_irq_handler_def
        s3350_get_irq_handler_def split: ts_device.split)
       (simp add: prefetched_nonzero demo_ts_env_def demo_gpio_env_def demo_env_def)
  then show ?thesis
    by (simp add: arm_start_def demo_arm_loadable demo_ts_not_hooked)
       (simp add: current_handler_def demo_ts_defs demo_desc_def)
qed

theorem arm_module_life_witness:
  "\<exists>s1. inthide_init (run_arm demo_ts_env) (ts_kenv demo_ts_env) True demo_ts_state = Inr (0, s1)
     \<and> timer_armed MainTimer s1
     \<and> (\<forall>evs. \<exists>s2 cs s3. for_eachk evs (exec_event (run_arm demo_ts_env) (ts_kenv demo_ts_env)
              (arm_input demo_ts_env)) s1 = Inr ((), s2)
          \<and> klog s2 = klog s1 @ cs \<and> list_all (arm_call_ok demo_ts_env) cs \<and> control_file s2
          \<and> inthide_exit (run_arm demo_ts_env) (ts_kenv demo_ts_env) s2 = Inr ((), s3) \<and> (\<forall>j. \<not> hooked s3 j)
          \<and> current_handler s3 = current_handler demo_ts_state
          \<and> handler_filter s3 = handler_filter demo_ts_state
          \<and> \<not> timer_armed MainTimer s3 \<and> \<not> control_file s3)"
  by (rule arm_module_life [OF demo_arm_start demo_ts_empty]) (simp add: demo_ts_defs)



text \<open>
  The path of a real touch: the X coordinate of a finger outside 229..231 schedules the tap
  tasklet, and that tasklet, run in any later state in which a period can be drawn, starts the fake
  timer unless one is pending and restarts the injection timer with a fresh period of at most 20 ms.
\<close>

theorem real_touch_path:
  assumes "value \<notin> {229..231}" and "linux_version_code (ts_kenv env) > kernel_version 3 6 0"
    and "callback_fn (plugin_objs t plugin_touchscreen) = Some RealTouchpad"
    and "drawable (ts_kenv env) RND_MIN RND_MAX t"
    and "0 \<notin> set (prefetched (ts_kenv env) (own_code_addr (ts_kenv env) ''timer_restart'') 4096)"
  shows "\<exists>s'. touchscreen_filter env h EV_ABS ABS_MT_POSITION_X value s = Inr (False, s')
     \<and> klog s' = klog s @ [TaskletSchedule TsTapNotify]
     \<and> (\<exists>t' ns. ts_tasklet (run_arm env) TsTapNotify t = Inr ((), t') \<and> ns \<le> 20000000
          \<and> faketimer_running t' = 1
          \<and> klog t' = klog t @ real_input_calls (ts_kenv env) (faketimer_running t) ns)"
proof -
  from touchscreen_callback_real [OF assms(3-5), of True] obtain ns t' where
    t': "touchscreen_callback (run_arm env) True t = Inr ((), t')" "ns \<le> 20000000" "faketimer_running t' = 1"
    "klog t' = klog t @ real_input_calls (ts_kenv env) (faketimer_running t) ns" by blast
  then have "ts_tasklet (run_arm env) TsTapNotify t = Inr ((), t')" by (simp add: ts_tasklet_def)
  moreover have "touchscreen_filter env h EV_ABS ABS_MT_POSITION_X value s
      = Inr (False, s\<lparr>klog := klog s @ [TaskletSchedule TsTapNotify]\<rparr>)"
    using assms(1,2)
    by (auto simp: touchscreen_filter_def Let_def seqk_def bindk_def emit_apply retk_apply SEND_VALUE_def
        TOUCHSCREEN_FILTER_NOT_IN_RANGE_def)
  ultimately show ?thesis using t' by auto
qed

definition demo_arm_loaded :: ts_state where
  "demo_arm_loaded = demo_ts_state\<lparr>plugin_objs :=
     (\<lambda>_. (plugin_touchscreen_object demo_ts_env)\<lparr>callback_fn := Some RealTouchpad\<rparr>)\<rparr>"

theorem real_touch_path_witness:
  "\<exists>s'. touchscreen_filter demo_ts_env \<lparr>handle_handler = 0x100, handle_open = 1\<rparr> EV_ABS ABS_MT_POSITION_X 17 demo_ts_state
        = Inr (False, s')
     \<and> klog s' = klog demo_ts_state @ [TaskletSchedule TsTapNotify]
     \<and> (\<exists>t' ns. ts_tasklet (run_arm demo_ts_env) TsTapNotify demo_arm_loaded = Inr ((), t') \<and> ns \<le> 20000000
          \<and> faketimer_running t' = 1
          \<and> klog t' = klog demo_arm_loaded @ real_input_calls (ts_kenv demo_ts_env) (faketimer_running demo_arm_loaded) ns)"
proof (rule real_touch_path)
  show "drawable (ts_kenv demo_ts_env) RND_MIN RND_MAX demo_arm_loaded"
    by (simp add: drawable_def RND_MIN_def RND_MAX_def rand_truncation_def demo_ts_env_def demo_gpio_env_def
        demo_env_def demo_arm_loaded_def demo_ts_defs)
       (rule exI [of _ 0], simp)
  show "0 \<notin> set (prefetched (ts_kenv demo_ts_env) (own_code_addr (ts_kenv demo_ts_env) ''timer_restart'') 4096)"
    by (rule prefetched_nonzero) (simp_all add: demo_ts_env_def demo_gpio_env_def demo_env_def)
qed (simp_all add: demo_ts_env_def demo_gpio_env_def demo_env_def demo_arm_loaded_def kernel_version_def)

text \<open>
  A failed plugin initialisation is ignored here too: where no touchscreen is found the module
  still loads, and the first tick of its timer after injection is switched on follows the plugin's
  null data pointer.
\<close>

theorem missing_touchscreen_ignored:
  assumes "\<not> arch_x86 (ts_kenv env)" and "empty_registry s"
    and "arm_loadable env (handler_filter s) s" and "\<And>j. \<not> hooked s j"
    and "plugin_objs s plugin_touchscreen = plugin_touchscreen_object env"
    and "find_input_dev (device_string env) (input_devs env) = Inr None"
  shows "\<exists>s1 s2. inthide_init (run_arm env) (ts_kenv env) True s = Inr (0, s1)
     \<and> keydrown_write (run_arm env) (ts_kenv env) (Some 1) 2 s1 = Inr (2, s2)
     \<and> timer_function (run_arm env) (ts_kenv env) s2 = Inl NullDeref"
proof -
  have p: "module_plugin (ts_kenv env) = plugin_touchscreen" using assms(1) by (simp add: module_plugin_def)
  have "linked_object TouchscreenInit TouchscreenCleanup (plugin_objs s (module_plugin (ts_kenv env)))"
    using assms(5) by (simp add: p linked_object_def well_typed_plugin_def slot_typed_def plugin_touchscreen_object_def)
  from arm.load [OF assms(2) this assms(3,4)] obtain s1 s3 r s4 where
    s1: "inthide_init (run_arm env) (ts_kenv env) True s = Inr (0, s1)"
      "plugin_code (plugin_objs s1 plugin_touchscreen)
         = plugin_code ((plugin_touchscreen_object env)\<lparr>plugin_id := 0, callback_fn := Some RealTouchpad\<rparr>)"
      "run_arm env TouchscreenInit plugin_touchscreen s3 = Inr (r, s4)" "same_plugin_view s4 s1"
      "plugin_objs s3 plugin_touchscreen = (plugin_touchscreen_object env)
         \<lparr>plugin_id := 0, callback_fn := Some RealTouchpad\<rparr>"
    using assms(1,5) unfolding p by auto
  have "plugin_objs s4 = plugin_objs s3"
    using s1(3) assms(3,6)
    by (auto simp: run_arm_def touchscreen_init_def find_touchscreen_device_def seqk_def bindk_def kprog_simps
        arm_loadable_def ts_loadable_def ts_env_ok_def split: if_splits)
  then have data: "plugin_data (plugin_objs s1 plugin_touchscreen) = 0"
    using s1(4,5) by (simp add: same_plugin_view_def plugin_touchscreen_object_def)
  have "inject_fn (plugin_code (plugin_objs s1 plugin_touchscreen)) = Some TouchscreenInject"
    "enable_fn (plugin_code (plugin_objs s1 plugin_touchscreen)) = Some TouchscreenEnable"
    by (simp_all add: s1(2)) (simp_all add: plugin_code_def plugin_touchscreen_object_def)
  then have fns: "inject_fn (plugin_objs s1 plugin_touchscreen) = Some TouchscreenInject"
    "enable_fn (plugin_objs s1 plugin_touchscreen) = Some TouchscreenEnable"
    by (simp_all add: plugin_code_def)
  let ?s2 = "s1\<lparr>injection := 1\<rparr>"
  have "keydrown_write (run_arm env) (ts_kenv env) (Some 1) 2 s1 = Inr (2, ?s2)"
    using assms(1) fns
    by (simp add: keydrown_write_def switch_touchscreen_def run_arm_def touchscreen_enable_def seqk_def
        bindk_def kprog_simps)
  moreover have "touchscreen_inject env 0 ?s2 = Inl NullDeref"
    by (cases "touchscreen_device env")
       (simp_all add: touchscreen_inject_def s3320_inject_def s3350_inject_def kprog_simps)
  then have "timer_function (run_arm env) (ts_kenv env) ?s2 = Inl NullDeref"
    using assms(1) fns data
    by (simp add: timer_function_def timer_inject_def run_arm_def Let_def STATE_INJECT_def bindk_def
        seqk_def kprog_simps)
  ultimately show ?thesis using s1(1) by blast
qed

theorem missing_touchscreen_ignored_witness:
  "\<exists>s1 s2. inthide_init (run_arm (demo_ts_env\<lparr>input_devs := []\<rparr>)) (ts_kenv demo_ts_env) True demo_ts_state = Inr (0, s1)
     \<and> keydrown_write (run_arm (demo_ts_env\<lparr>input_devs := []\<rparr>)) (ts_kenv demo_ts_env) (Some 1) 2 s1 = Inr (2, s2)
     \<and> timer_function (run_arm (demo_ts_env\<lparr>input_devs := []\<rparr>)) (ts_kenv demo_ts_env) s2 = Inl NullDeref"
proof -
  let ?env = "demo_ts_env\<lparr>input_devs := []\<rparr>"
  have load: "arm_loadable ?env (handler_filter demo_ts_state) demo_ts_state"
    using demo_arm_loadable by (simp add: arm_loadable_def ts_loadable_def ts_env_ok_def)
  have ob: "plugin_objs demo_ts_state plugin_touchscreen = plugin_touchscreen_object ?env"
    by (simp add: demo_ts_defs plugin_touchscreen_object_def device_string_def)
  show ?thesis
    using missing_touchscreen_ignored [OF _ demo_ts_empty load demo_ts_not_hooked ob] demo_ts_arm by simp
qed

end
