(* ===== verification/KD_Arm_Runs.thy ===== *)
theory KD_Arm_Runs
  imports KD_Arm KD_Input KD_Control
begin

text \<open>
  The phones' module in time and behind its touch filter: the interpretations of \<open>armed_module\<close>,
  \<open>filtered_module\<close> and \<open>controlled_module\<close> on it, and what they give.
\<close>

section \<open>The module as an instance of \<open>armed_module\<close>\<close>

interpretation arm_armed: armed_module "run_arm env" "ts_kenv env" "touchscreen_irq_software env"
  TouchscreenInit TouchscreenCleanup "if arch_x86 (ts_kenv env) then RealKey else RealTouchpad"
  "if arch_x86 (ts_kenv env) then (\<lambda>_. retk ()) else arm_input env"
  "arm_loadable env f0" "arm_ready env f0"
  "arm_start env f0" "arm_alive env" "plugin_touchscreen_object env" "arm_call_ok env" 1 1000 for env f0
  by unfold_locales (simp add: arm_alive_shows)

section \<open>The module as an instance of \<open>filtered_module\<close>\<close>

text \<open>The input core passes each event of the touchscreen to the filter of its handlers.\<close>

type_synonym touch_datum = "input_handle \<times> u32 \<times> u32 \<times> int"

definition touch_data_filter :: "ts_env \<Rightarrow> touch_datum \<Rightarrow> ('a ts_state_scheme, bool) kprog" where
  "touch_data_filter env d = (case d of (handle, type, code, value) \<Rightarrow> touchscreen_filter env handle type code value)"

text \<open>Only X coordinates that a fake touch cannot have schedule the tap tasklet.\<close>

definition touch_sched :: "touch_datum \<Rightarrow> tasklet_id option" where
  "touch_sched d = (case d of (handle, type, code, value) \<Rightarrow>
     if type = EV_ABS \<and> code = ABS_MT_POSITION_X \<and> value \<notin> {229..231} then Some TsTapNotify else None)"

lemma touch_filter_once:
  fixes s :: "'a ts_state_scheme"
  shows "\<exists>b cs. touch_data_filter env d s = Inr (b, s\<lparr>klog := klog s @ cs\<rparr>)
      \<and> list_all quiet_call cs \<and> scheduled cs = set_option (touch_sched d)"
proof -
  obtain h type code v where d: "d = (h, type, code, v)" by (cases d)
  let ?old = "linux_version_code (ts_kenv env) \<le> kernel_version 3 6 0"
  let ?cs = "(if ?old then [HandlerEvent (handle_handler h) type code v] else [])
       @ (if type = EV_ABS \<and> code = ABS_MT_POSITION_X \<and> v \<notin> {229..231} then [TaskletSchedule TsTapNotify] else [])"
  have "touch_data_filter env d s = Inr (?old, s\<lparr>klog := klog s @ ?cs\<rparr>)"
    by (auto simp: d touch_data_filter_def touchscreen_filter_def Let_def seqk_def bindk_def emit_apply retk_apply
        SEND_VALUE_def TOUCHSCREEN_FILTER_NOT_IN_RANGE_def)
  then show ?thesis
    by (intro exI [of _ ?old] exI [of _ ?cs]) (auto simp: d scheduled_def quiet_call_def touch_sched_def)
qed

text \<open>
  The test reads the coordinate alone: a finger whose X coordinate falls on one of the three values
  of a fake touch schedules nothing, so the timer is not restarted for it.
\<close>

lemma touch_on_fake_column_ignored:
  fixes s :: "'a ts_state_scheme"
  assumes "x \<in> {229..231}"
  shows "\<exists>b cs. touchscreen_filter env h EV_ABS ABS_MT_POSITION_X x s = Inr (b, s\<lparr>klog := klog s @ cs\<rparr>)
      \<and> scheduled cs = {}"
proof -
  have "touch_sched (h, EV_ABS, ABS_MT_POSITION_X, x) = None" using assms by (simp add: touch_sched_def)
  with touch_filter_once [of env "(h, EV_ABS, ABS_MT_POSITION_X, x)" s] show ?thesis
    by (auto simp: touch_data_filter_def)
qed

interpretation arm_filtered: filtered_module "run_arm env" "ts_kenv env" "touchscreen_irq_software env"
  TouchscreenInit TouchscreenCleanup "if arch_x86 (ts_kenv env) then RealKey else RealTouchpad"
  "if arch_x86 (ts_kenv env) then (\<lambda>_. retk ()) else arm_input env"
  "arm_loadable env f0" "arm_ready env f0"
  "arm_start env f0" "arm_alive env" "plugin_touchscreen_object env" "arm_call_ok env" 1 1000
  "touch_data_filter env" touch_sched for env f0
  by unfold_locales (rule touch_filter_once)

section \<open>The module as an instance of \<open>controlled_module\<close>\<close>

text \<open>
  An injection: a finger put down and lifted (where it touches alternates and is left out here), and a
  request to each CPU that serves the touchscreen, to all of them if its affinity is empty.
\<close>

definition arm_stroke :: "ts_env \<Rightarrow> 'a ts_state_scheme \<Rightarrow> kcall list" where
  "arm_stroke env s =
     (let d = ts_data s (plugin_data (plugin_objs s plugin_touchscreen))
      in map (InputMtReportSlotState (touchscreen_input_dev d) MT_TOOL_FINGER) [True, False]
         @ map SmpCallInject (filter (\<lambda>c. bit (touchscreen_affinity d) c \<or> touchscreen_affinity d = 0)
             (online_cpus (ts_kenv env))))"

lemma arm_stroke_view: "same_plugin_view s s' \<Longrightarrow> arm_stroke env s' = arm_stroke env s"
  by (cases s; cases s') (simp add: arm_stroke_def same_plugin_view_def)

lemma arm_injection:
  fixes s :: "'a ts_state_scheme"
  assumes "arm_alive env s" and "timer_inject (run_arm env) (ts_kenv env) s = Inr (u, s1)"
  shows "injection s1 = injection s \<and> arm_stroke env s1 = arm_stroke env s
     \<and> (\<exists>cs. klog s1 = klog s @ cs \<and> injected cs = arm_stroke env s)"
proof -
  let ?k = "ts_kenv env" and ?d = "plugin_data (plugin_objs s plugin_touchscreen)"
  have m: "arm_machine env" and data: "?d \<noteq> 0" "ts_irq_handler (ts_data s ?d) = touchscreen_device_get_irq_handler env"
    using assms(1) by (simp_all add: arm_alive_def ts_data_linked_def)
  have touch: "0 \<notin> set (prefetched ?k (ts_irq_handler (ts_data s ?d)) 4096)"
    "0 \<notin> set (prefetched ?k (own_code_addr ?k ''real_touchpad'') 4096)"
    unfolding data(2) by (rule arm_machineD(7) [OF m], simp)+
  note inject = touchscreen_inject_apply [OF data(1) arm_machineD(6) [OF m] touch(1)]
  let ?touch = "fake_touch (touchscreen_device env) (touchscreen_input_dev (ts_data s ?d)) (abs_defuzz s)
      (clock env (clock_pos s)) (clock env (Suc (clock_pos s)))"
  let ?l = "?touch
      @ map SmpCallInject (filter (\<lambda>c. bit (touchscreen_affinity (ts_data s ?d)) c
            \<or> touchscreen_affinity (ts_data s ?d) = 0) (online_cpus ?k))
      @ map PrefetchTouch (prefetched ?k (ts_irq_handler (ts_data s ?d)) 4096)
      @ map PrefetchTouch (prefetched ?k (own_code_addr ?k ''real_touchpad'') 4096)"
  have "s1 = s\<lparr>abs_defuzz := (if abs_defuzz s = 0 then 1 else 0), clock_pos := clock_pos s + 2,
      klog := klog s @ ?l\<rparr>"
    using assms(2) arm_machineD(1) [OF m] arm_alive_fns(1) [OF assms(1)]
    by (simp add: timer_inject_def Let_def run_arm_def bindk_def seqk_def readk_apply derefk_Some inject
        prefetch_range_ok [OF touch(2)])
  moreover have "injected ?l = arm_stroke env s"
    by (simp add: fake_touch_def arm_stroke_def Let_def)
  ultimately show ?thesis by (simp add: arm_stroke_def)
qed

lemma keeps_control_gpio_init [intro!]:
  "keeps same_control (gpio_msm_interrupt_init env :: ('a gpio_state_scheme, bool) kprog)"
proof (rule keepsI)
  fix s b and s' :: "'a gpio_state_scheme"
  assume "gpio_msm_interrupt_init env s = Inr (b, s')"
  from same_but_gpioD [OF keepsD [OF gpio_init_frame this]] show "same_control s s'"
    by (simp add: same_control_def)
qed

lemma keeps_control_patch [intro!]:
  "keeps same_control (patch_handle env h :: ('a ts_state_scheme, unit) kprog)"
  by (auto simp: patch_handle_def input_handle_list_add_def same_control_def intro!: control_frame.keeps_rules)

lemma touchscreen_init_control: "keeps same_control (touchscreen_init env d :: ('a ts_state_scheme, int) kprog)"
  by (auto simp: touchscreen_init_def find_touchscreen_device_def modify_touchscreen_device_def
      touchscreen_init_hook_def touchscreen_init_data_def Let_def same_control_def upd_plugin_def
      intro!: control_frame.keeps_rules split: option.split)

lemma arm_alive_controls:
  fixes s :: "'a ts_state_scheme"
  assumes alive: "arm_alive env s"
    and run: "exec_event (run_arm env) (ts_kenv env)
        (if arch_x86 (ts_kenv env) then (\<lambda>_. retk ()) else arm_input env) ev s = Inr ((), s')"
  shows "controls (arm_stroke env) ev s s'"
proof -
  let ?k = "ts_kenv env"
  have m: "arm_machine env" and arch: "\<not> arch_x86 ?k" and own: "own_hooks TouchscreenHookHandler s"
    and only: "\<And>j. hooked s j \<Longrightarrow> j = touchscreen_irq_software env"
    using alive by (simp_all add: arm_alive_def arm_machine_def)
  note fns = arm_alive_fns [OF alive]
  show ?thesis
  proof (cases ev)
    case (WriteControl parsed n)
    with run arch fns show ?thesis
      by (cases parsed) (auto simp: exec_event_def keydrown_write_def switch_touchscreen_def run_arm_def
          touchscreen_enable_def touchscreen_disable_def seqk_def bindk_def retk_apply modk_apply readk_apply
          controls_def arm_stroke_def split: if_splits)
  next
    case TimerTick
    with run obtain r where "timer_function (run_arm env) ?k s = Inr (r, s')"
      by (auto simp: exec_event_def seqk_Inr_iff retk_apply)
    from tick_controls [OF arm_injection [OF alive] arm_stroke_view this] TimerTick show ?thesis by simp
  next
    case (Input x)
    show ?thesis
    proof (cases x)
      case (Tasklet tap)
      let ?s1 = "s\<lparr>ts_event := (ts_event s)\<lparr>event_type := (if tap then KEY_PRESS else KEY_RELEASE)\<rparr>\<rparr>"
      have "touchscreen_callback (run_arm env) tap s = Inr ((), s')"
        using run Input Tasklet arch by (simp add: exec_event_def arm_input_def ts_tasklet_def split: if_splits)
      then obtain r where key: "real_key ?k ?s1 = Inr (r, s')"
        using fns(4) by (auto simp: touchscreen_callback_def run_arm_def real_touchpad_key seqk_Inr_iff bindk_Inr_iff
            modk_apply readk_apply retk_apply)
      have "arm_stroke env s' = arm_stroke env s"
        using arm_stroke_view [OF keepsD [OF keeps_view_real(1) key], of env] by (simp add: arm_stroke_def)
      moreover have "uninjected s s'"
        using keepsD [OF keeps_uninjected_real key] by (simp add: uninjected_def)
      ultimately show ?thesis using Input Tasklet by (simp add: uninjected_controls)
    next
      case (Irq j)
      have draw: "drawable ?k 1 1000 s" by (rule fair_drawable [OF arm_machineD(3) [OF m]]) simp
      have "deliver_irq TouchscreenHookHandler (delayed_handler ?k 1 1000 (touchscreen_irq_software env) call_flow) j s
          = Inr ((), s')"
        using run Input Irq arch by (simp add: exec_event_def arm_input_def touchscreen_hook_handler_delayed)
      from irq_uninjected [OF own only draw _ this] Input Irq show ?thesis
        by (simp add: uninjected_controls arm_stroke_view)
    qed
  next
    case FakeTick
    with run obtain r where "faketimer_function s = Inr (r, s')"
      by (auto simp: exec_event_def seqk_Inr_iff retk_apply)
    from keepsD [OF keeps_uninjected_timers(3) this] arm_stroke_view [OF keepsD [OF keeps_view_timers(5) this]]
      FakeTick show ?thesis by (simp add: uninjected_controls)
  qed
qed

interpretation arm_controlled: controlled_module "run_arm env" "ts_kenv env" "touchscreen_irq_software env"
  TouchscreenInit TouchscreenCleanup "if arch_x86 (ts_kenv env) then RealKey else RealTouchpad"
  "if arch_x86 (ts_kenv env) then (\<lambda>_. retk ()) else arm_input env"
  "arm_loadable env f0" "arm_ready env f0"
  "arm_start env f0" "arm_alive env" "plugin_touchscreen_object env" "arm_call_ok env" "arm_stroke env" for env f0
proof unfold_locales
  fix p r and s s' :: "'a ts_state_scheme"
  assume "run_arm env TouchscreenInit p s = Inr (r, s')"
  then show "injection s' = injection s"
    using keepsD [OF touchscreen_init_control] by (auto simp: run_arm_def same_control_def)
qed (rule arm_alive_controls)

section \<open>Properties\<close>

text \<open>An event of the phones' loaded module, and a step of the machine around it.\<close>

abbreviation arm_exec :: "ts_env \<Rightarrow> module_event \<Rightarrow> ('a ts_state_scheme, unit) kprog" where
  "arm_exec env \<equiv> exec_event (run_arm env) (ts_kenv env) (arm_input env)"

abbreviation arm_hw :: "ts_env \<Rightarrow> touch_datum hw_event \<Rightarrow> (tasklet_id set \<times> 'a ts_state_scheme, unit) kprog" where
  "arm_hw env \<equiv> hw_exec (touch_data_filter env) (arm_exec env)"

lemma arm_startD:
  assumes "arm_start env f0 s"
  shows "\<not> arch_x86 (ts_kenv env)" "module_plugin (ts_kenv env) = plugin_touchscreen"
  using assms by (simp_all add: arm_start_def arm_machine_def module_plugin_def)



text \<open>Input events of the touchscreen, mixed with everything else, show as the module events behind them.\<close>

lemma arm_touches_refine_events:
  fixes s :: "'a ts_state_scheme"
  assumes "arm_start env (handler_filter s) s" and "empty_registry s"
    and "plugin_objs s plugin_touchscreen = plugin_touchscreen_object env"
  shows "\<exists>s1. inthide_init (run_arm env) (ts_kenv env) True s = Inr (0, s1)
     \<and> (\<forall>evs. \<exists>s2 s2' cs cs'.
          for_eachk evs (arm_hw env) ({}, s1) = Inr ((), (hw_pending touch_sched {} evs, s2))
          \<and> klog s2 = klog s1 @ cs
          \<and> for_eachk (hw_events touch_sched {} evs) (arm_exec env) s1 = Inr ((), s2')
          \<and> klog s2' = klog s1 @ cs' \<and> observed cs = observed cs')"
  using arm_filtered.hw_refines [OF assms(2) _ assms(1)] assms(3) arm_startD [OF assms(1)] by simp

text \<open>
  The phones' module injects on demand as well: once for each timer firing that finds bit 0 of the
  number written last set, and never otherwise.
\<close>

lemma arm_injects_on_demand:
  fixes s :: "'a ts_state_scheme"
  assumes "arm_start env (handler_filter s) s" and "empty_registry s"
    and "plugin_objs s plugin_touchscreen = plugin_touchscreen_object env"
  shows "\<exists>s1. inthide_init (run_arm env) (ts_kenv env) True s = Inr (0, s1)
     \<and> (\<forall>evs. \<exists>s2 cs. for_eachk evs (arm_exec env) s1 = Inr ((), s2) \<and> klog s2 = klog s1 @ cs
          \<and> injection s2 = foldl control_after (injection s) evs
          \<and> injected cs = concat (replicate (injections (injection s) evs) (arm_stroke env s1)))"
  using arm_controlled.injects_on_demand [OF assms(2) _ assms(1)] assms(3) arm_startD [OF assms(1)] by simp

text \<open>Throughout a run every slot of the plugin's object holds a function of the slot's type.\<close>

lemma arm_slots_well_typed:
  fixes s :: "'a ts_state_scheme"
  assumes "arm_start env (handler_filter s) s" and "empty_registry s"
    and "plugin_objs s plugin_touchscreen = plugin_touchscreen_object env"
  shows "\<exists>s1. inthide_init (run_arm env) (ts_kenv env) True s = Inr (0, s1)
     \<and> (\<forall>evs. \<exists>s2. for_eachk evs (arm_exec env) s1 = Inr ((), s2)
          \<and> registered s2 = [plugin_touchscreen] \<and> well_typed_plugin (plugin_objs s2 plugin_touchscreen))"
  using arm_running.stays_typed [OF assms(2) _ assms(1)] assms(3) arm_startD [OF assms(1)] by simp

text \<open>
  Every touch restarts the injection timer, and no fake one does: once the tap tasklet has run
  after an X coordinate outside 229..231, the timer has been started again since; and over a whole
  run it is started at most once for each such coordinate, so never because of the coordinates of
  fake touches, which pass the same filter.
\<close>

theorem arm_touches_restart_timer:
  fixes s :: "'a ts_state_scheme"
  assumes "arm_start env (handler_filter s) s" and "empty_registry s"
    and "plugin_objs s plugin_touchscreen = plugin_touchscreen_object env"
    and "x \<notin> {229..231}" and "Softirq TsTapNotify \<in> set ys"
  shows "\<exists>s1 P2 s2 P3 s3 cs ds. inthide_init (run_arm env) (ts_kenv env) True s = Inr (0, s1)
     \<and> for_eachk (xs @ [Datum (h, EV_ABS, ABS_MT_POSITION_X, x)]) (arm_hw env) ({}, s1) = Inr ((), (P2, s2))
     \<and> klog s2 = klog s1 @ cs
     \<and> for_eachk ys (arm_hw env) (P2, s2) = Inr ((), (P3, s3)) \<and> klog s3 = klog s2 @ ds
     \<and> 1 \<le> restarts ds
     \<and> restarts (cs @ ds) \<le> scheduling touch_sched (xs @ [Datum (h, EV_ABS, ABS_MT_POSITION_X, x)] @ ys)"
proof -
  have "touch_sched (h, EV_ABS, ABS_MT_POSITION_X, x) = Some TsTapNotify"
    using assms(4) by (simp add: touch_sched_def)
  from arm_filtered.input_restarts [OF assms(2) _ assms(1) this assms(5), of xs] assms(3) arm_startD [OF assms(1)]
  show ?thesis by simp
qed

theorem arm_touches_restart_timer_witness:
  "\<exists>s1 P2 s2 P3 s3 cs ds. inthide_init (run_arm demo_ts_env) (ts_kenv demo_ts_env) True demo_ts_state = Inr (0, s1)
     \<and> for_eachk ([] @ [Datum (\<lparr>handle_handler = 0x100, handle_open = 1\<rparr>, EV_ABS, ABS_MT_POSITION_X, 500)]) (arm_hw demo_ts_env) ({}, s1) = Inr ((), (P2, s2))
     \<and> klog s2 = klog s1 @ cs
     \<and> for_eachk [Datum (\<lparr>handle_handler = 0x100, handle_open = 1\<rparr>, EV_ABS, ABS_MT_POSITION_X, 231), Softirq TsTapNotify] (arm_hw demo_ts_env) (P2, s2)
         = Inr ((), (P3, s3))
     \<and> klog s3 = klog s2 @ ds
     \<and> 1 \<le> restarts ds
     \<and> restarts (cs @ ds) \<le> scheduling touch_sched ([] @ [Datum (\<lparr>handle_handler = 0x100, handle_open = 1\<rparr>, EV_ABS, ABS_MT_POSITION_X, 500)]
         @ [Datum (\<lparr>handle_handler = 0x100, handle_open = 1\<rparr>, EV_ABS, ABS_MT_POSITION_X, 231), Softirq TsTapNotify])"
  by (rule arm_touches_restart_timer [OF demo_arm_start demo_ts_empty]) (simp_all add: demo_ts_defs)

end
