(* ===== verification/KD_Inject.thy ===== *)
theory KD_Inject
  imports KD_Prelude
begin

text \<open>
  The second layer on x86: \<open>second_layer/x86/inject.c\<close>, a program that sends fake key events to a
  hidden GTK window. GTK and libc are not part of the sources: a call that matters is recorded in
  the log, and what \<open>rand\<close>, \<open>clock_gettime\<close>, \<open>poll\<close> and the keymap answer is the environment.
\<close>

section \<open>State and environment\<close>

datatype gdk_type = GDK_KEY_PRESS | GDK_KEY_RELEASE | GDK_OTHER nat

text \<open>The fields of \<open>GdkEventKey\<close> that the code touches; the others are \<open>gdk_rest\<close>.\<close>

record gdk_key =
  gdk_type_of :: gdk_type
  gdk_window :: u64
  gdk_send_event :: "8 word"
  gdk_time :: u32
  gdk_state :: u32
  gdk_keyval :: u32
  gdk_length :: int
  gdk_hardware_keycode :: u16
  gdk_group :: u8
  gdk_is_modifier :: bool
  gdk_rest :: nat

datatype gcall =
    DoEvent gdk_key
  | ThreadsEnter
  | ThreadsLeave
  | HideWidget
  | Usleep int
  | ReadDevice
  | Print_rip
  | Print_keyval u32
  | Print_field string int
  | Print_key_read
  | OpenDevice string
  | SeedRandom
  | ThreadsInit
  | GtkInit
  | SnooperInstall
  | WindowNew
  | WindowSize int int
  | EntryNew
  | EntryText string
  | ContainerAdd
  | ConnectDeleteToQuit
  | ShowAll
  | ThreadCreate

text \<open>\<open>configuration.h\<close> sets \<open>DEBUG\<close>; the environment says how the program was built.\<close>

definition DEBUG :: bool where "DEBUG = True"

record inj_env =
  debug_build :: bool
  rand_at :: "nat \<Rightarrow> int"
  realtime :: "nat \<Rightarrow> int \<times> int"
  open_result :: int
  poll_at :: "nat \<Rightarrow> int \<times> bool"
  keymap :: "int \<Rightarrow> u16 list option"

record inj_state =
  glog :: "gcall list"
  pfd_fd :: int
  pfd_pollin :: bool
  fd :: int
  base_event :: "gdk_key option"
  rand_pos :: nat
  time_pos :: nat
  poll_pos :: nat

definition gemit :: "gcall \<Rightarrow> (inj_state, unit) kprog" where
  "gemit c = modk (\<lambda>s. s\<lparr>glog := glog s @ [c]\<rparr>)"

definition rand :: "inj_env \<Rightarrow> (inj_state, int) kprog" where
  "rand env s = Inr (rand_at env (rand_pos s), s\<lparr>rand_pos := Suc (rand_pos s)\<rparr>)"

text \<open>
  \<open>poll\<close> on the one descriptor in \<open>pfd\<close>: it ignores a negative descriptor, and reports
  \<open>POLLIN\<close> only where the \<open>events\<close> field asks for it.
\<close>

definition poll_pfd :: "inj_env \<Rightarrow> (inj_state, int \<times> bool) kprog" where
  "poll_pfd env s =
     Inr (if pfd_fd s < 0 then (0, False)
          else (fst (poll_at env (poll_pos s)), pfd_pollin s \<and> snd (poll_at env (poll_pos s))),
          s\<lparr>poll_pos := Suc (poll_pos s)\<rparr>)"

section \<open>The functions\<close>

text \<open>
  The division by \<open>1.0e6\<close> and the truncation to \<open>long\<close> give the integer quotient: the nanoseconds
  are below \<open>10^9\<close>, where a \<open>double\<close> keeps quotients of different whole parts apart.
\<close>

definition timestamp_of :: "int \<times> int \<Rightarrow> u64" where
  "timestamp_of spec = word_of_int (fst spec * 1000 + snd spec div 1000000)"

definition get_timestamp :: "inj_env \<Rightarrow> (inj_state, u64) kprog" where
  "get_timestamp env s = Inr (timestamp_of (realtime env (time_pos s)), s\<lparr>time_pos := Suc (time_pos s)\<rparr>)"

text \<open>The inner \<open>hardware_keycode\<close> is a variable of its own.\<close>

definition get_scancode :: "inj_env \<Rightarrow> int \<Rightarrow> int res" where
  "get_scancode env key =
     (let hardware_keycode = 0
      in case keymap env key of
           None \<Rightarrow> Inr hardware_keycode
         | Some keys \<Rightarrow>
             (case arr_get keys 0 of
                Inl e \<Rightarrow> Inl e
              | Inr inner_hardware_keycode \<Rightarrow> Inr hardware_keycode))"

definition inject_key :: "inj_env \<Rightarrow> int \<Rightarrow> int \<Rightarrow> bool \<Rightarrow> (inj_state, unit) kprog" where
  "inject_key env key scancode press =
     bindk (readk base_event) (\<lambda>base.
       case base of
         None \<Rightarrow> retk ()
       | Some event \<Rightarrow>
           seqk (if debug_build env then gemit Print_rip else retk ())
          (bindk (get_timestamp env) (\<lambda>now.
           seqk (gemit ThreadsEnter)
          (seqk (gemit (DoEvent (event\<lparr>
                   gdk_type_of := (if press then GDK_KEY_PRESS else GDK_KEY_RELEASE),
                   gdk_time := ucast now, gdk_keyval := word_of_int key,
                   gdk_hardware_keycode := word_of_int scancode\<rparr>)))
          (gemit ThreadsLeave)))))"

text \<open>
  The ten lines \<open>dump_event\<close> prints; \<open>%d\<close> reads an unsigned field as signed. The numbers of the
  event types are those of \<open>GdkEventType\<close>.
\<close>

fun gdk_type_code :: "gdk_type \<Rightarrow> int" where
  "gdk_type_code GDK_KEY_PRESS = 8"
| "gdk_type_code GDK_KEY_RELEASE = 9"
| "gdk_type_code (GDK_OTHER n) = int n"

definition dump_fields :: "gdk_key \<Rightarrow> (string \<times> int) list" where
  "dump_fields event =
     [(''type'', gdk_type_code (gdk_type_of event)),
      (''window'', uint (gdk_window event)),
      (''send_event'', sint (gdk_send_event event)),
      (''time'', sint (gdk_time event)),
      (''state'', sint (gdk_state event)),
      (''keyval'', sint (gdk_keyval event)),
      (''length'', gdk_length event),
      (''hardware_keycode'', uint (gdk_hardware_keycode event)),
      (''group'', uint (gdk_group event)),
      (''is_modifier'', of_bool (gdk_is_modifier event))]"

definition dump_event :: "gdk_key \<Rightarrow> (inj_state, unit) kprog" where
  "dump_event event = for_eachk (dump_fields event) (\<lambda>(name, v). gemit (Print_field name v))"

definition snooper :: "inj_env \<Rightarrow> gdk_key \<Rightarrow> (inj_state, bool) kprog" where
  "snooper env event =
     seqk (if debug_build env then gemit (Print_keyval (gdk_keyval event)) else retk ())
    (bindk (readk base_event) (\<lambda>base.
       seqk (if gdk_window event \<noteq> 0 \<and> base = None
             then seqk (modk (\<lambda>s. s\<lparr>base_event := Some event\<rparr>))
                       (if debug_build env then retk () else gemit HideWidget)
             else retk ())
      (seqk (if debug_build env then dump_event event else retk ())
            (retk False))))"

definition GDK_KEY_a :: int where "GDK_KEY_a = 0x61"
definition GDK_KEY_z :: int where "GDK_KEY_z = 0x7a"
definition GDK_KEY_A :: int where "GDK_KEY_A = 0x41"
definition GDK_KEY_Z :: int where "GDK_KEY_Z = 0x5a"

text \<open>
  One round of the loop, its last step first. \<open>other\<close> is what GTK's own thread does during the sleep
  between press and release, and \<open>waiting\<close> what it does while \<open>poll\<close> waits (it runs \<open>snooper\<close> on
  real keys).
\<close>

definition await_key :: "inj_env \<Rightarrow> (inj_state, unit) kprog \<Rightarrow> (inj_state, unit) kprog" where
  "await_key env waiting =
     seqk waiting
    (bindk (poll_pfd env) (\<lambda>(ret, pollin).
       if ret > 0 \<and> pollin
       then seqk (if debug_build env then gemit Print_key_read else retk ()) (gemit ReadDevice)
       else retk ()))"

definition inject_round ::
    "inj_env \<Rightarrow> (inj_state, unit) kprog \<Rightarrow> (inj_state, unit) kprog \<Rightarrow> int \<Rightarrow> (inj_state, unit) kprog" where
  "inject_round env other waiting key =
     seqk (inject_key env key 0 True)
    (seqk (bindk (rand env) (\<lambda>r. seqk (gemit (Usleep (r mod 100000))) other))
    (seqk (inject_key env key 0 False)
          (await_key env waiting)))"

text \<open>\<open>%\<close> of C is \<open>mod\<close> here because \<open>rand\<close> is never negative.\<close>

definition inject_thread ::
    "inj_env \<Rightarrow> (nat \<Rightarrow> (inj_state, unit) kprog) \<Rightarrow> (nat \<Rightarrow> (inj_state, unit) kprog)
     \<Rightarrow> (inj_state, unit) kprog" where
  "inject_thread env other waiting =
     bindk (rand env) (\<lambda>r0.
     bindk (rand env) (\<lambda>r1.
     bindk (rand env) (\<lambda>r2.
     bindk (rand env) (\<lambda>r3.
       let range = r0 mod 2;
           range1 = GDK_KEY_a + r1 mod (GDK_KEY_z - GDK_KEY_a + 1);
           range2 = GDK_KEY_A + r2 mod (GDK_KEY_Z - GDK_KEY_A + 1);
           runs = r3 mod 100
       in for_eachk [0..<nat runs]
            (\<lambda>i. inject_round env (other i) (waiting i) (range1 * range + range2 * (1 - range)))))))"

text \<open>
  The wrapper repeats the thread's work for ever; the model gives what the first \<open>n\<close> repetitions do.
\<close>

fun inject_thread_wrapper ::
    "inj_env \<Rightarrow> (nat \<Rightarrow> nat \<Rightarrow> (inj_state, unit) kprog) \<Rightarrow> (nat \<Rightarrow> nat \<Rightarrow> (inj_state, unit) kprog)
     \<Rightarrow> nat \<Rightarrow> (inj_state, unit) kprog" where
  "inject_thread_wrapper env other waiting 0 = retk ()"
| "inject_thread_wrapper env other waiting (Suc n) =
     seqk (inject_thread_wrapper env other waiting n) (inject_thread env (other n) (waiting n))"

text \<open>
  \<open>main\<close>. What \<open>open\<close> returns is not tested. \<open>running\<close> is what happens while \<open>gtk_main\<close> runs, until
  the window is closed: the injection thread and the key events.
\<close>

definition inject_main :: "inj_env \<Rightarrow> (inj_state, unit) kprog \<Rightarrow> (inj_state, int) kprog" where
  "inject_main env running =
     seqk (doallk
       [gemit (OpenDevice ''/dev/input/event0''),
        modk (\<lambda>s. s\<lparr>fd := open_result env\<rparr>),
        modk (\<lambda>s. s\<lparr>pfd_fd := fd s\<rparr>),
        modk (\<lambda>s. s\<lparr>pfd_pollin := True\<rparr>),
        gemit SeedRandom,
        gemit ThreadsInit,
        gemit GtkInit,
        gemit SnooperInstall,
        gemit WindowNew,
        gemit (WindowSize 400 60),
        gemit EntryNew,
        gemit (EntryText ''Please enter a character with your keyboard''),
        gemit ContainerAdd,
        gemit ConnectDeleteToQuit,
        gemit ShowAll,
        gemit ThreadCreate,
        running])
     (retk 0)"

section \<open>Facts\<close>

text \<open>The key events a log delivers, as type, key value and scan code.\<close>

fun delivered :: "gcall list \<Rightarrow> (gdk_type \<times> u32 \<times> u16) list" where
  "delivered [] = []"
| "delivered (DoEvent e # cs) = (gdk_type_of e, gdk_keyval e, gdk_hardware_keycode e) # delivered cs"
| "delivered (c # cs) = delivered cs"

lemma delivered_append: "delivered (xs @ ys) = delivered xs @ delivered ys"
  by (induction xs rule: delivered.induct) auto

definition letter :: "int \<Rightarrow> bool" where
  "letter k \<longleftrightarrow> 0x61 \<le> k \<and> k \<le> 0x7a \<or> 0x41 \<le> k \<and> k \<le> 0x5a"

lemma gemit_apply [kprog_simps]: "gemit c s = Inr ((), s\<lparr>glog := glog s @ [c]\<rparr>)"
  by (simp add: gemit_def modk_def)

text \<open>A complete stroke of a letter.\<close>

definition stroke :: "int \<Rightarrow> (gdk_type \<times> u32 \<times> u16) list" where
  "stroke key = [(GDK_KEY_PRESS, word_of_int key, 0), (GDK_KEY_RELEASE, word_of_int key, 0)]"

text \<open>
  From one state to a later one, exactly the strokes \<open>keys\<close> were delivered, and none while nothing was
  captured; a captured event and the descriptors stay, and a descriptor that could not be opened is
  not read.
\<close>

definition injects :: "int list \<Rightarrow> inj_state \<Rightarrow> inj_state \<Rightarrow> bool" where
  "injects keys s s' \<longleftrightarrow>
     (\<exists>cs. glog s' = glog s @ cs \<and> delivered cs = concat (map stroke keys)
        \<and> (pfd_fd s < 0 \<longrightarrow> ReadDevice \<notin> set cs))
     \<and> pfd_fd s' = pfd_fd s
     \<and> (base_event s \<noteq> None \<longrightarrow> base_event s' = base_event s)
     \<and> (base_event s' = None \<longrightarrow> keys = [])"

lemma injects_refl: "injects [] s s"
  by (simp add: injects_def)

lemma injects_trans:
  assumes "injects ks s t" and "injects ks' t u"
  shows "injects (ks @ ks') s u"
proof -
  from assms(1) obtain cs where cs: "glog t = glog s @ cs" "delivered cs = concat (map stroke ks)"
    "pfd_fd s < 0 \<Longrightarrow> ReadDevice \<notin> set cs" by (auto simp: injects_def)
  from assms(2) obtain cs' where cs': "glog u = glog t @ cs'" "delivered cs' = concat (map stroke ks')"
    "pfd_fd t < 0 \<Longrightarrow> ReadDevice \<notin> set cs'" by (auto simp: injects_def)
  have "pfd_fd t = pfd_fd s" using assms(1) by (simp add: injects_def)
  with cs cs' have "\<exists>ds. glog u = glog s @ ds \<and> delivered ds = concat (map stroke (ks @ ks'))
      \<and> (pfd_fd s < 0 \<longrightarrow> ReadDevice \<notin> set ds)"
    by (intro exI [of _ "cs @ cs'"]) (simp add: delivered_append)
  moreover have "pfd_fd u = pfd_fd s" using assms by (simp add: injects_def)
  moreover have "base_event s \<noteq> None \<longrightarrow> base_event u = base_event s" using assms by (simp add: injects_def)
  moreover have "base_event u = None \<longrightarrow> ks @ ks' = []" using assms by (auto simp: injects_def)
  ultimately show ?thesis unfolding injects_def by blast
qed

text \<open>A silent step is a step that delivers nothing.\<close>

interpretation silence: frame_relation "injects []"
  by unfold_locales (use injects_refl injects_trans [of "[]" _ _ "[]"] in simp_all)

text \<open>A program of GTK's thread that returns and delivers nothing.\<close>

definition silent :: "(inj_state, unit) kprog \<Rightarrow> bool" where
  "silent p \<longleftrightarrow> (\<forall>s. \<exists>s'. p s = Inr ((), s') \<and> injects [] s s')"

lemma silent_retk: "silent (retk ())"
  by (simp add: silent_def retk_def injects_refl)

lemma gemit_injects:
  assumes "delivered [c] = []" and "c \<noteq> ReadDevice"
  shows "injects [] s (s\<lparr>glog := glog s @ [c]\<rparr>)"
  using assms by (simp add: injects_def)

lemma inject_key_apply:
  "\<exists>s' cs. inject_key env key scan press s = Inr ((), s') \<and> glog s' = glog s @ cs
     \<and> base_event s' = base_event s \<and> rand_pos s' = rand_pos s \<and> pfd_fd s' = pfd_fd s
     \<and> ReadDevice \<notin> set cs
     \<and> delivered cs = (if base_event s = None then [] else
         [(if press then GDK_KEY_PRESS else GDK_KEY_RELEASE, word_of_int key, word_of_int scan)])"
  by (cases "base_event s")
     (simp_all add: inject_key_def get_timestamp_def seqk_def bindk_def kprog_simps)

text \<open>The end of a round, from the wait on.\<close>

lemma await_key_injects:
  assumes "silent waiting"
  shows "\<exists>s'. await_key env waiting s = Inr ((), s') \<and> injects [] s s'"
proof -
  from assms obtain t where t: "waiting s = Inr ((), t)" "injects [] s t" unfolding silent_def by blast
  have "\<exists>s'. (bindk (poll_pfd env) (\<lambda>(ret, pollin).
       if ret > 0 \<and> pollin
       then seqk (if debug_build env then gemit Print_key_read else retk ()) (gemit ReadDevice)
       else retk ())) t = Inr ((), s') \<and> injects [] t s'"
    unfolding bindk_Inr [of "poll_pfd env", OF poll_pfd_def]
    by (cases "debug_build env") (simp_all add: injects_def seqk_Inr kprog_simps)
  then obtain s' where s': "(bindk (poll_pfd env) (\<lambda>(ret, pollin).
       if ret > 0 \<and> pollin
       then seqk (if debug_build env then gemit Print_key_read else retk ()) (gemit ReadDevice)
       else retk ())) t = Inr ((), s')" "injects [] t s'" by blast
  then have "await_key env waiting s = Inr ((), s')" by (simp add: await_key_def seqk_Inr [of waiting, OF t(1)])
  with silence.frame_trans [OF t(2) s'(2)] show ?thesis by blast
qed

text \<open>A round with a captured event delivers one complete stroke, one without delivers nothing.\<close>

lemma inject_round_injects:
  assumes "silent waiting"
  shows "\<exists>s'. inject_round env (retk ()) waiting key s = Inr ((), s')
     \<and> injects (if base_event s = None then [] else [key]) s s'"
proof -
  from inject_key_apply [of env key 0 True s] obtain s1 cs1 where
    s1: "inject_key env key 0 True s = Inr ((), s1)" "glog s1 = glog s @ cs1" "base_event s1 = base_event s"
      "pfd_fd s1 = pfd_fd s" "ReadDevice \<notin> set cs1"
      "delivered cs1 = (if base_event s = None then [] else [(GDK_KEY_PRESS, word_of_int key, 0)])"
    by auto
  let ?u = "Usleep (rand_at env (rand_pos s1) mod 100000)"
  let ?s2 = "s1\<lparr>rand_pos := Suc (rand_pos s1), glog := glog s1 @ [?u]\<rparr>"
  from inject_key_apply [of env key 0 False ?s2] obtain s3 cs3 where
    s3: "inject_key env key 0 False ?s2 = Inr ((), s3)" "glog s3 = glog ?s2 @ cs3"
      "base_event s3 = base_event s" "pfd_fd s3 = pfd_fd s" "ReadDevice \<notin> set cs3"
      "delivered cs3 = (if base_event s = None then [] else [(GDK_KEY_RELEASE, word_of_int key, 0)])"
    using s1(3,4) by auto
  have "injects (if base_event s = None then [] else [key]) s s3"
    using s1 s3 unfolding injects_def
    by (intro conjI exI [of _ "cs1 @ [?u] @ cs3"]) (auto simp: delivered_append stroke_def)
  moreover from await_key_injects [OF assms, of env s3] obtain s4 where
    s4: "await_key env waiting s3 = Inr ((), s4)" "injects [] s3 s4" by blast
  ultimately have "injects (if base_event s = None then [] else [key]) s s4"
    using injects_trans by fastforce
  moreover have "inject_round env (retk ()) waiting key s = Inr ((), s4)"
    using s3(1) s4(1) by (simp add: inject_round_def s1(1) rand_def bindk_def seqk_Inr kprog_simps)
  ultimately show ?thesis by blast
qed

text \<open>The rounds of one repetition: the same letter each time, in every round once an event is captured.\<close>

lemma quiet_rounds:
  assumes "\<And>i. silent (waiting i)"
  shows "\<exists>s' m. for_eachk is (\<lambda>i. inject_round env (retk ()) (waiting i) key) s = Inr ((), s')
     \<and> injects (replicate m key) s s' \<and> m \<le> length is \<and> (base_event s \<noteq> None \<longrightarrow> m = length is)"
proof (induction "is" arbitrary: s)
  case Nil
  then show ?case by (simp add: kprog_simps injects_refl)
next
  case (Cons i js)
  let ?c = "of_bool (base_event s \<noteq> None) :: nat"
  from inject_round_injects [OF assms, of env i key s] obtain s1 where
    s1: "inject_round env (retk ()) (waiting i) key s = Inr ((), s1)" "injects (replicate ?c key) s s1"
    by (cases "base_event s = None") auto
  from Cons.IH [of s1] obtain s' m where
    s': "for_eachk js (\<lambda>i. inject_round env (retk ()) (waiting i) key) s1 = Inr ((), s')"
      "injects (replicate m key) s1 s'" "m \<le> length js" "base_event s1 \<noteq> None \<longrightarrow> m = length js" by blast
  from injects_trans [OF s1(2) s'(2)] have "injects (replicate (?c + m) key) s s'"
    by (simp add: replicate_add)
  moreover have "base_event s \<noteq> None \<Longrightarrow> base_event s1 \<noteq> None" using s1(2) by (simp add: injects_def)
  ultimately show ?case
    using s1(1) s'(1,3,4) by (intro exI [of _ s'] exI [of _ "?c + m"]) (auto simp: seqk_def bindk_def)
qed

text \<open>The letter and the number of rounds a run of the thread draws.\<close>

definition drawn_key :: "inj_env \<Rightarrow> inj_state \<Rightarrow> int" where
  "drawn_key env s =
     (if rand_at env (rand_pos s) mod 2 = 1 then 0x61 + rand_at env (Suc (rand_pos s)) mod 26
      else 0x41 + rand_at env (rand_pos s + 2) mod 26)"

definition drawn_runs :: "inj_env \<Rightarrow> inj_state \<Rightarrow> nat" where
  "drawn_runs env s = nat (rand_at env (rand_pos s + 3) mod 100)"

lemma inject_thread_unfold:
  "inject_thread env other waiting s = for_eachk [0..<drawn_runs env s]
     (\<lambda>i. inject_round env (other i) (waiting i) (drawn_key env s)) (s\<lparr>rand_pos := rand_pos s + 4\<rparr>)"
proof -
  have "rand_at env (rand_pos s) mod 2 = 0 \<or> rand_at env (rand_pos s) mod 2 = 1" by arith
  then show ?thesis
    by (auto simp: inject_thread_def rand_def bindk_def Let_def drawn_key_def drawn_runs_def GDK_KEY_a_def
        GDK_KEY_z_def GDK_KEY_A_def GDK_KEY_Z_def eval_nat_numeral)
qed

lemma drawn_letter: "letter (drawn_key env s)"
  using pos_mod_bound [of 26 "rand_at env (Suc (rand_pos s))"] pos_mod_sign [of 26 "rand_at env (Suc (rand_pos s))"]
    pos_mod_bound [of 26 "rand_at env (rand_pos s + 2)"] pos_mod_sign [of 26 "rand_at env (rand_pos s + 2)"]
  unfolding drawn_key_def letter_def by (auto simp del: pos_mod_bound pos_mod_sign)

lemma drawn_runs_bound: "drawn_runs env s < 100"
  using pos_mod_bound [of 100 "rand_at env (rand_pos s + 3)"] pos_mod_sign [of 100 "rand_at env (rand_pos s + 3)"]
  unfolding drawn_runs_def by linarith

text \<open>
  GTK's main loop runs the snooper on each key event and passes on the events it does not claim.
\<close>

fun key_events :: "inj_env \<Rightarrow> gdk_key list \<Rightarrow> (inj_state, gdk_key list) kprog" where
  "key_events env [] = retk []"
| "key_events env (e # es) =
     bindk (snooper env e) (\<lambda>claimed.
     bindk (key_events env es) (\<lambda>rest. retk (if claimed then rest else e # rest)))"

text \<open>What the debug build prints of an event, and what the snooper adds to the log.\<close>

definition printed :: "gdk_key \<Rightarrow> gcall list" where
  "printed e = Print_keyval (gdk_keyval e) # map (\<lambda>(name, v). Print_field name v) (dump_fields e)"

lemma dump_event_apply:
  "dump_event e s = Inr ((), s\<lparr>glog := glog s @ map (\<lambda>(name, v). Print_field name v) (dump_fields e)\<rparr>)"
proof -
  have "for_eachk nvs (\<lambda>(name, v). gemit (Print_field name v)) s
      = Inr ((), s\<lparr>glog := glog s @ map (\<lambda>(name, v). Print_field name v) nvs\<rparr>)" for nvs
    by (induction nvs arbitrary: s) (auto simp: seqk_def bindk_def kprog_simps)
  then show ?thesis by (simp add: dump_event_def)
qed

definition snooped :: "inj_env \<Rightarrow> bool \<Rightarrow> gdk_key \<Rightarrow> gcall list" where
  "snooped env captures e =
     (if debug_build env then printed e
      else if captures then [HideWidget] else [])"

lemma snooped_quiet:
  "concat (map (snooped env False) es)
    = (if debug_build env then concat (map printed es) else [])"
  by (induction es) (simp_all add: snooped_def)

lemma snooper_apply:
  "snooper env e s = Inr (False, s\<lparr>glog := glog s @ snooped env (gdk_window e \<noteq> 0 \<and> base_event s = None) e,
     base_event := (if gdk_window e \<noteq> 0 \<and> base_event s = None then Some e else base_event s)\<rparr>)"
  by (simp add: snooper_def snooped_def printed_def dump_event_apply seqk_def bindk_def kprog_simps)

lemma key_events_Cons:
  assumes "snooper env e s = Inr (False, s1)" and "key_events env es s1 = Inr (es, s2)"
  shows "key_events env (e # es) s = Inr (e # es, s2)"
  using assms by (simp add: bindk_def retk_def)

text \<open>Once an event is captured the snooper hides nothing and keeps the event.\<close>

lemma key_events_captured:
  assumes "base_event s \<noteq> None"
  shows "\<exists>s'. key_events env es s = Inr (es, s') \<and> base_event s' = base_event s
     \<and> glog s' = glog s @ concat (map (snooped env False) es)"
  using assms
proof (induction es arbitrary: s)
  case Nil
  then show ?case by (simp add: retk_def)
next
  case (Cons e es)
  let ?s1 = "s\<lparr>glog := glog s @ snooped env False e\<rparr>"
  have step: "snooper env e s = Inr (False, ?s1)" using Cons.prems by (auto simp: snooper_apply)
  from Cons.IH [of ?s1] Cons.prems obtain s2 where
    s2: "key_events env es ?s1 = Inr (es, s2)" "base_event s2 = base_event s"
      "glog s2 = glog ?s1 @ concat (map (snooped env False) es)" by auto
  then show ?case
    by (intro exI [of _ s2] conjI key_events_Cons [OF step s2(1)]) simp_all
qed

text \<open>The keys that arrive while \<open>poll\<close> waits.\<close>

definition keys_while :: "inj_env \<Rightarrow> gdk_key list \<Rightarrow> (inj_state, unit) kprog" where
  "keys_while env es = bindk (key_events env es) (\<lambda>_. retk ())"

lemma snooped_silent: "delivered (snooped env c e) = []" "ReadDevice \<notin> set (snooped env c e)"
proof -
  have "delivered (map (\<lambda>(name, v). Print_field name v) nvs) = []" for nvs
    by (induction nvs) auto
  then show "delivered (snooped env c e) = []" by (simp add: snooped_def printed_def)
qed (auto simp: snooped_def printed_def)

lemma key_events_silent: "\<exists>s'. key_events env es s = Inr (es, s') \<and> injects [] s s'"
proof (induction es arbitrary: s)
  case Nil
  then show ?case by (simp add: retk_def injects_refl)
next
  case (Cons e es)
  obtain s1 where s1: "snooper env e s = Inr (False, s1)" "injects [] s s1"
    by (auto simp: snooper_apply injects_def snooped_silent)
  from Cons.IH [of s1] obtain s2 where s2: "key_events env es s1 = Inr (es, s2)" "injects [] s1 s2" by blast
  then show ?case
    using key_events_Cons [OF s1(1) s2(1)] silence.frame_trans [OF s1(2) s2(2)] by blast
qed

lemma keys_while_silent: "silent (keys_while env es)"
  unfolding silent_def
proof
  fix s
  from key_events_silent [of env es s] obtain s' where "key_events env es s = Inr (es, s')" "injects [] s s'" by blast
  then show "\<exists>s'. keys_while env es s = Inr ((), s') \<and> injects [] s s'"
    by (simp add: keys_while_def kprog_simps)
qed

text \<open>One repetition of the thread, and any number of them, with keys arriving at the waits only.\<close>

lemma inject_thread_injects:
  "\<exists>s' k m. inject_thread env (\<lambda>_. retk ()) (\<lambda>i. keys_while env (waits i)) s = Inr ((), s')
     \<and> injects (replicate m k) s s' \<and> letter k \<and> m < 100"
proof -
  from quiet_rounds [of "\<lambda>i. keys_while env (waits i)" "[0..<drawn_runs env s]" env "drawn_key env s"
      "s\<lparr>rand_pos := rand_pos s + 4\<rparr>", OF keys_while_silent]
  obtain s' m where
    "for_eachk [0..<drawn_runs env s] (\<lambda>i. inject_round env (retk ()) (keys_while env (waits i)) (drawn_key env s))
       (s\<lparr>rand_pos := rand_pos s + 4\<rparr>) = Inr ((), s')"
    "injects (replicate m (drawn_key env s)) (s\<lparr>rand_pos := rand_pos s + 4\<rparr>) s'" "m \<le> drawn_runs env s"
    by auto
  with drawn_letter drawn_runs_bound show ?thesis
    by (intro exI [of _ s'] exI [of _ "drawn_key env s"] exI [of _ m])
       (auto simp: inject_thread_unfold injects_def intro: le_less_trans)
qed

lemma inject_wrapper_injects:
  "\<exists>s' ks. inject_thread_wrapper env (\<lambda>_ _. retk ()) (\<lambda>r i. keys_while env (waits r i)) n s = Inr ((), s')
     \<and> injects ks s s' \<and> list_all letter ks \<and> length ks \<le> 99 * n"
proof (induction n)
  case 0
  then show ?case by (intro exI [of _ s] exI [of _ "[]"]) (simp add: retk_def injects_refl)
next
  case (Suc n)
  then obtain s1 ks where s1: "inject_thread_wrapper env (\<lambda>_ _. retk ()) (\<lambda>r i. keys_while env (waits r i)) n s
      = Inr ((), s1)" "injects ks s s1" "list_all letter ks" "length ks \<le> 99 * n" by blast
  from inject_thread_injects [of env "waits n" s1] obtain s2 k m where
    s2: "inject_thread env (\<lambda>_. retk ()) (\<lambda>i. keys_while env (waits n i)) s1 = Inr ((), s2)"
      "injects (replicate m k) s1 s2" "letter k" "m < 100" by blast
  have "list_all letter (ks @ replicate m k)" using s1(3) s2(3) by (auto simp: list_all_iff)
  with s1 s2 injects_trans [OF s1(2) s2(2)] show ?case
    by (intro exI [of _ s2] exI [of _ "ks @ replicate m k"]) (simp add: seqk_def bindk_def)
qed

text \<open>A first round in which an event is captured during the sleep delivers a release only.\<close>

lemma first_round_release:
  assumes "base_event s = None" and "gdk_window e \<noteq> 0" and "silent waiting"
  shows "\<exists>s1 cs1. inject_round env (keys_while env [e]) waiting k (s\<lparr>rand_pos := p\<rparr>) = Inr ((), s1)
      \<and> glog s1 = glog s @ cs1 \<and> base_event s1 = Some e
      \<and> delivered cs1 = [(GDK_KEY_RELEASE, word_of_int k, 0)]"
proof -
  let ?u = "Usleep (rand_at env p mod 100000)"
  let ?s2 = "s\<lparr>rand_pos := Suc p, glog := glog s @ ?u # snooped env True e, base_event := Some e\<rparr>"
  have press: "inject_key env k 0 True (s\<lparr>rand_pos := p\<rparr>) = Inr ((), s\<lparr>rand_pos := p\<rparr>)"
    using assms(1) by (simp add: inject_key_def bindk_def kprog_simps)
  have sleep: "keys_while env [e] (s\<lparr>rand_pos := Suc p, glog := glog s @ [?u]\<rparr>) = Inr ((), ?s2)"
    using assms(1,2) by (simp add: keys_while_def snooper_apply bindk_def kprog_simps)
  from inject_key_apply [of env k 0 False ?s2] obtain s3 cs3 where
    s3: "inject_key env k 0 False ?s2 = Inr ((), s3)" "glog s3 = glog ?s2 @ cs3" "base_event s3 = Some e"
      "delivered cs3 = [(GDK_KEY_RELEASE, word_of_int k, 0)]" by auto
  from await_key_injects [OF assms(3), of env s3] obtain s4 where
    s4: "await_key env waiting s3 = Inr ((), s4)" "injects [] s3 s4" by blast
  then obtain cs4 where cs4: "glog s4 = glog s3 @ cs4" "delivered cs4 = []" "base_event s4 = Some e"
    using s3(3) by (auto simp: injects_def)
  have "inject_round env (keys_while env [e]) waiting k (s\<lparr>rand_pos := p\<rparr>) = Inr ((), s4)"
    using s3(1) s4(1) sleep by (simp add: inject_round_def press rand_def bindk_def seqk_Inr kprog_simps)
  then show ?thesis
    using s3 cs4
    by (intro exI [of _ s4] exI [of _ "[?u] @ snooped env True e @ cs3 @ cs4"])
       (simp add: delivered_append snooped_silent)
qed

text \<open>What \<open>main\<close> has done when \<open>gtk_main\<close> starts.\<close>

definition window_ready :: "inj_env \<Rightarrow> inj_state \<Rightarrow> inj_state" where
  "window_ready env s =
     s\<lparr>fd := open_result env, pfd_fd := open_result env, pfd_pollin := True, glog := glog s @
       [OpenDevice ''/dev/input/event0'', SeedRandom, ThreadsInit, GtkInit, SnooperInstall, WindowNew,
        WindowSize 400 60, EntryNew, EntryText ''Please enter a character with your keyboard'', ContainerAdd,
        ConnectDeleteToQuit, ShowAll, ThreadCreate]\<rparr>"

lemma inject_main_apply:
  assumes "running (window_ready env s) = Inr ((), s')"
  shows "inject_main env running s = Inr (0, s')"
  using assms by (simp add: inject_main_def window_ready_def kprog_simps seqk_def bindk_def)

section \<open>Properties\<close>

text \<open>
  C30. The whole program: \<open>main\<close> sets up the window and the snooper before the injection thread, and
  as long as keys arrive while the thread waits in \<open>poll\<close>, the thread delivers in any number of
  repetitions only complete strokes, each a press followed by the release of the same Latin letter
  with hardware key code 0, at most 99 per repetition. Nothing is delivered before an event of a
  window is captured, and if the input device could not be opened, which \<open>main\<close> does not test, the
  program runs all the same and never reads it.
\<close>

theorem injected_strokes_complete:
  "\<exists>s' cs ks. inject_main env (inject_thread_wrapper env (\<lambda>_ _. retk ()) (\<lambda>r i. keys_while env (waits r i)) n) s
        = Inr (0, s')
     \<and> glog s' = glog (window_ready env s) @ cs \<and> delivered cs = concat (map stroke ks)
     \<and> list_all letter ks \<and> length ks \<le> 99 * n
     \<and> (base_event s \<noteq> None \<longrightarrow> base_event s' = base_event s) \<and> (base_event s' = None \<longrightarrow> ks = [])
     \<and> (open_result env < 0 \<longrightarrow> ReadDevice \<notin> set cs)"
proof -
  from inject_wrapper_injects [of env waits n "window_ready env s"] obtain s' ks where
    s': "inject_thread_wrapper env (\<lambda>_ _. retk ()) (\<lambda>r i. keys_while env (waits r i)) n (window_ready env s)
       = Inr ((), s')" "injects ks (window_ready env s) s'" "list_all letter ks" "length ks \<le> 99 * n" by blast
  from s'(2) obtain cs where cs: "glog s' = glog (window_ready env s) @ cs" "delivered cs = concat (map stroke ks)"
      "open_result env < 0 \<longrightarrow> ReadDevice \<notin> set cs"
    by (auto simp: injects_def window_ready_def)
  have "base_event s \<noteq> None \<longrightarrow> base_event s' = base_event s" "base_event s' = None \<longrightarrow> ks = []"
    using s'(2) by (simp_all add: injects_def window_ready_def)
  with inject_main_apply [where running = "inject_thread_wrapper env (\<lambda>_ _. retk ())
      (\<lambda>r i. keys_while env (waits r i)) n", OF s'(1)] s'(3,4) cs show ?thesis
    by (intro exI [of _ s'] exI [of _ cs] exI [of _ ks]) simp
qed

definition demo_inj_env :: inj_env where
  "demo_inj_env = \<lparr>debug_build = DEBUG, rand_at = (\<lambda>n. 7 * int n + 1), realtime = (\<lambda>n. (1500000000, int n)),
     open_result = 3, poll_at = (\<lambda>_. (1, True)), keymap = (\<lambda>_. Some [38])\<rparr>"

definition demo_gdk_key :: gdk_key where
  "demo_gdk_key = \<lparr>gdk_type_of = GDK_KEY_PRESS, gdk_window = 0x4000, gdk_send_event = 0, gdk_time = 12,
     gdk_state = 0, gdk_keyval = 0x71, gdk_length = 1, gdk_hardware_keycode = 24, gdk_group = 0,
     gdk_is_modifier = False, gdk_rest = 0\<rparr>"

definition demo_inj_state :: "gdk_key option \<Rightarrow> inj_state" where
  "demo_inj_state b = \<lparr>glog = [], pfd_fd = 0, pfd_pollin = False, fd = 0, base_event = b, rand_pos = 0, time_pos = 0, poll_pos = 0\<rparr>"

theorem injected_strokes_complete_witness:
  "\<exists>s' cs ks. inject_main demo_inj_env (inject_thread_wrapper demo_inj_env (\<lambda>_ _. retk ())
          (\<lambda>r i. keys_while demo_inj_env [demo_gdk_key]) 3) (demo_inj_state None) = Inr (0, s')
     \<and> glog s' = glog (window_ready demo_inj_env (demo_inj_state None)) @ cs
     \<and> delivered cs = concat (map stroke ks) \<and> list_all letter ks \<and> length ks \<le> 99 * 3"
  using injected_strokes_complete [of demo_inj_env "\<lambda>_ _. [demo_gdk_key]" 3 "demo_inj_state None"] by blast

text \<open>
  C32. Strokes are not complete when the first real key arrives during a sleep: if nothing is
  captured yet and the snooper captures an event between the press and the release of the first
  round, that press is skipped and the first event delivered is a release nobody pressed.
\<close>

theorem first_stroke_loses_press:
  assumes "base_event s = None" and "gdk_window e \<noteq> 0" and "0 < drawn_runs env s"
  shows "\<exists>s' cs k rest. inject_thread env (\<lambda>i. if i = 0 then keys_while env [e] else retk ())
          (\<lambda>i. keys_while env (waits i)) s = Inr ((), s')
     \<and> glog s' = glog s @ cs \<and> letter k
     \<and> delivered cs = (GDK_KEY_RELEASE, word_of_int k, 0) # rest
     \<and> rest = concat (map stroke (replicate (drawn_runs env s - 1) k))"
proof -
  let ?k = "drawn_key env s" and ?s0 = "s\<lparr>rand_pos := rand_pos s + 4\<rparr>"
  let ?other = "\<lambda>i :: nat. if i = 0 then keys_while env [e] else retk ()"
  let ?wait = "\<lambda>i. keys_while env (waits i)"
  obtain n where n: "drawn_runs env s = Suc n" using assms(3) by (cases "drawn_runs env s") auto
  have split: "[0..<Suc n] = 0 # map Suc [0..<n]" by (simp add: map_Suc_upt upt_conv_Cons del: upt_Suc)
  from first_round_release [OF assms(1,2), of "?wait 0" env ?k] obtain s1 cs1 where
    s1: "inject_round env (keys_while env [e]) (?wait 0) ?k ?s0 = Inr ((), s1)"
    "glog s1 = glog s @ cs1" "base_event s1 = Some e"
    "delivered cs1 = [(GDK_KEY_RELEASE, word_of_int ?k, 0)]" using keys_while_silent by blast
  have later: "for_eachk (map Suc is) (\<lambda>i. inject_round env (?other i) (?wait i) ?k) t
      = for_eachk is (\<lambda>i. inject_round env (retk ()) (?wait (Suc i)) ?k) t" for "is" :: "nat list" and t
    by (induction "is" arbitrary: t) (simp_all add: seqk_def bindk_def split: sum.split)
  from quiet_rounds [of "\<lambda>i. ?wait (Suc i)" "[0..<n]" env ?k s1, OF keys_while_silent] s1(3)
  obtain s' cs where
    s': "for_eachk [0..<n] (\<lambda>i. inject_round env (retk ()) (?wait (Suc i)) ?k) s1 = Inr ((), s')"
      "glog s' = glog s1 @ cs" "delivered cs = concat (map stroke (replicate n ?k))"
    by (auto simp: injects_def)
  have "inject_thread env ?other ?wait s = Inr ((), s')"
    using s1(1) s'(1) by (simp add: inject_thread_unfold n split later kprog_simps del: upt_Suc)
  with s1 s' drawn_letter n show ?thesis
    by (intro exI [of _ s'] exI [of _ "cs1 @ cs"] exI [of _ ?k]) (simp add: delivered_append)
qed

theorem first_stroke_loses_press_witness:
  "\<exists>s' cs k rest. inject_thread demo_inj_env (\<lambda>i. if i = 0 then keys_while demo_inj_env [demo_gdk_key] else retk ())
        (\<lambda>i. keys_while demo_inj_env []) (demo_inj_state None) = Inr ((), s')
     \<and> glog s' = glog (demo_inj_state None) @ cs \<and> letter k
     \<and> delivered cs = (GDK_KEY_RELEASE, word_of_int k, 0) # rest
     \<and> rest = concat (map stroke (replicate (drawn_runs demo_inj_env (demo_inj_state None) - 1) k))"
  by (rule first_stroke_loses_press)
     (simp_all add: demo_inj_state_def demo_gdk_key_def demo_inj_env_def drawn_runs_def)

text \<open>
  C31. The snooper never swallows a key and captures exactly one event, the first with a window. The
  text field is hidden once, when that happens, in a release build; but in the debug build the
  configuration asks for it is never hidden, and every key the user types is printed.
\<close>

theorem snooper_captures_first:
  assumes "base_event s = None"
  shows "\<exists>s'. key_events env es s = Inr (es, s')
     \<and> base_event s' = List.find (\<lambda>e. gdk_window e \<noteq> 0) es
     \<and> glog s' = glog s @ (if debug_build env
        then concat (map printed es)
        else if List.find (\<lambda>e. gdk_window e \<noteq> 0) es = None then [] else [HideWidget])"
  using assms
proof (induction es arbitrary: s)
  case Nil
  then show ?case by (simp add: retk_def)
next
  case (Cons e es)
  show ?case
  proof (cases "gdk_window e = 0")
    case True
    let ?s1 = "s\<lparr>glog := glog s @ snooped env False e\<rparr>"
    have step: "snooper env e s = Inr (False, ?s1)" using True Cons.prems by (simp add: snooper_apply)
    from Cons.IH [of ?s1] Cons.prems obtain s2 where
      s2: "key_events env es ?s1 = Inr (es, s2)" "base_event s2 = List.find (\<lambda>e. gdk_window e \<noteq> 0) es"
        "glog s2 = glog ?s1 @ (if debug_build env
          then concat (map printed es)
          else if List.find (\<lambda>e. gdk_window e \<noteq> 0) es = None then [] else [HideWidget])" by auto
    show ?thesis
      using s2(2,3) True by (intro exI [of _ s2] conjI key_events_Cons [OF step s2(1)]) (simp_all add: snooped_def)
  next
    case False
    let ?s1 = "s\<lparr>glog := glog s @ snooped env True e, base_event := Some e\<rparr>"
    have step: "snooper env e s = Inr (False, ?s1)" using False Cons.prems by (simp add: snooper_apply)
    from key_events_captured [of ?s1 env es] obtain s2 where
      s2: "key_events env es ?s1 = Inr (es, s2)" "base_event s2 = Some e"
        "glog s2 = glog ?s1 @ concat (map (snooped env False) es)" by auto
    show ?thesis
      using s2(2,3) False
      by (intro exI [of _ s2] conjI key_events_Cons [OF step s2(1)])
         (simp_all add: snooped_quiet, simp_all add: snooped_def)
  qed
qed

theorem snooper_captures_first_witness:
  "\<exists>s'. key_events demo_inj_env [demo_gdk_key\<lparr>gdk_window := 0\<rparr>, demo_gdk_key] (demo_inj_state None)
      = Inr ([demo_gdk_key\<lparr>gdk_window := 0\<rparr>, demo_gdk_key], s')
     \<and> base_event s' = List.find (\<lambda>e. gdk_window e \<noteq> 0) [demo_gdk_key\<lparr>gdk_window := 0\<rparr>, demo_gdk_key]
     \<and> glog s' = glog (demo_inj_state None) @ (if debug_build demo_inj_env
        then concat (map printed [demo_gdk_key\<lparr>gdk_window := 0\<rparr>, demo_gdk_key])
        else if List.find (\<lambda>e. gdk_window e \<noteq> 0) [demo_gdk_key\<lparr>gdk_window := 0\<rparr>, demo_gdk_key] = None
             then [] else [HideWidget])"
  by (rule snooper_captures_first) (simp add: demo_inj_state_def)

text \<open>
  The scan code of a key is never found: whatever the keymap says, \<open>get_scancode\<close> returns 0
  when it returns, because the value it looks up is stored in a variable of the inner block.
\<close>

theorem get_scancode_always_zero:
  assumes "\<And>ks. keymap env key = Some ks \<Longrightarrow> ks \<noteq> []"
  shows "get_scancode env key = Inr 0"
  using assms by (cases "keymap env key") (auto simp: get_scancode_def arr_get_def)

theorem get_scancode_always_zero_witness: "get_scancode demo_inj_env 0x61 = Inr 0"
  by (rule get_scancode_always_zero) (simp add: demo_inj_env_def)

end
