(* ===== verification/KD_Gtk.thy ===== *)
theory KD_Gtk
  imports KD_Prelude
begin

text \<open>
  The third layer on x86: \<open>third_layer/x86/gtkentry.c\<close> and \<open>gtktextview.c\<close>, two preloaded libraries
  that interpose on a GTK constructor. What \<open>dlsym\<close> answers, what the real constructors do and where
  a text view keeps its text belong to GTK and are the environment.
\<close>

section \<open>State and environment\<close>

datatype gtk_callback = cb_gtk_entry_key_press_event | cb_gtk_text_view_key_press_event

datatype wcall =
    Could_not_resolve string
  | KeyDrown_active
  | EntryGetText nat
  | TextBufferGetText nat nat nat bool

text \<open>A resolved symbol is its address; \<open>None\<close> is \<open>NULL\<close>. A widget has its handlers in order.\<close>

record gtk_state =
  gtk_entry_new_real :: "nat option"
  gtk_text_view_new_real :: "nat option"
  signal_handlers :: "nat \<Rightarrow> (string \<times> gtk_callback) list"
  wlog :: "wcall list"

record gtk_env =
  dlsym :: "string \<Rightarrow> nat option"
  real_new :: "nat \<Rightarrow> (gtk_state, nat) kprog"
  view_buffer :: "nat \<Rightarrow> nat"
  buffer_start_iter :: "nat \<Rightarrow> nat"
  buffer_end_iter :: "nat \<Rightarrow> nat"

definition wemit :: "wcall \<Rightarrow> (gtk_state, unit) kprog" where
  "wemit c = modk (\<lambda>s. s\<lparr>wlog := wlog s @ [c]\<rparr>)"

definition g_signal_connect :: "nat \<Rightarrow> string \<Rightarrow> gtk_callback \<Rightarrow> (gtk_state, unit) kprog" where
  "g_signal_connect w sig cb =
     modk (\<lambda>s. s\<lparr>signal_handlers := (signal_handlers s)(w := signal_handlers s w @ [(sig, cb)])\<rparr>)"

section \<open>The entry\<close>

definition gtkentry_init :: "gtk_env \<Rightarrow> (gtk_state, unit) kprog" where
  "gtkentry_init env =
     seqk (modk (\<lambda>s. s\<lparr>gtk_entry_new_real := dlsym env ''gtk_entry_new''\<rparr>))
    (bindk (readk gtk_entry_new_real) (\<lambda>real.
       if real = None then wemit (Could_not_resolve ''gtk_entry_new'')
       else wemit KeyDrown_active))"

definition entry_key_press :: "nat \<Rightarrow> (gtk_state, bool) kprog" where
  "entry_key_press widget = seqk (wemit (EntryGetText widget)) (retk False)"

definition gtk_entry_new :: "gtk_env \<Rightarrow> (gtk_state, nat) kprog" where
  "gtk_entry_new env =
     bindk (readk gtk_entry_new_real) (\<lambda>p. bindk (derefk p) (\<lambda>real.
     bindk (real_new env real) (\<lambda>entry.
       seqk (g_signal_connect entry ''key-press-event'' cb_gtk_entry_key_press_event)
            (retk entry))))"

section \<open>The text view\<close>

definition gtktextview_init :: "gtk_env \<Rightarrow> (gtk_state, unit) kprog" where
  "gtktextview_init env =
     seqk (modk (\<lambda>s. s\<lparr>gtk_text_view_new_real := dlsym env ''gtk_text_view_new''\<rparr>))
    (bindk (readk gtk_text_view_new_real) (\<lambda>real.
       if real = None then wemit (Could_not_resolve ''gtk_text_view_new'')
       else retk ()))"

definition text_view_key_press :: "gtk_env \<Rightarrow> nat \<Rightarrow> (gtk_state, bool) kprog" where
  "text_view_key_press env widget =
     (let buffer = view_buffer env widget;
          start = buffer_start_iter env buffer;
          end_iter = buffer_end_iter env buffer
      in seqk (wemit (TextBufferGetText buffer start end_iter True)) (retk False))"

definition gtk_text_view_new :: "gtk_env \<Rightarrow> (gtk_state, nat) kprog" where
  "gtk_text_view_new env =
     bindk (readk gtk_text_view_new_real) (\<lambda>p. bindk (derefk p) (\<lambda>real.
     bindk (real_new env real) (\<lambda>entry.
       seqk (g_signal_connect entry ''key-press-event'' cb_gtk_text_view_key_press_event)
            (retk entry))))"

section \<open>Signals\<close>

text \<open>
  Emitting a signal runs the handlers connected to it in order, until one returns true; the widget's
  own default handler sees the event if none does.
\<close>

fun run_callback :: "gtk_env \<Rightarrow> nat \<Rightarrow> gtk_callback \<Rightarrow> (gtk_state, bool) kprog" where
  "run_callback env w cb_gtk_entry_key_press_event = entry_key_press w"
| "run_callback env w cb_gtk_text_view_key_press_event = text_view_key_press env w"

fun run_handlers ::
    "gtk_env \<Rightarrow> nat \<Rightarrow> string \<Rightarrow> (string \<times> gtk_callback) list \<Rightarrow> (gtk_state, bool) kprog" where
  "run_handlers env w sig [] = retk False"
| "run_handlers env w sig ((n, cb) # hs) =
     (if n = sig
      then bindk (run_callback env w cb) (\<lambda>stop. if stop then retk True else run_handlers env w sig hs)
      else run_handlers env w sig hs)"

definition g_signal_emit :: "gtk_env \<Rightarrow> nat \<Rightarrow> string \<Rightarrow> (gtk_state, bool) kprog" where
  "g_signal_emit env w sig = bindk (readk (\<lambda>s. signal_handlers s w)) (run_handlers env w sig)"

section \<open>An interposed constructor\<close>

text \<open>
  What the two libraries share: the constructor resolves its real counterpart, calls it, connects
  one handler and returns the same widget; the handler reads the text and lets the event pass.
\<close>

locale interposer =
  fixes sym :: string
    and real :: "gtk_state \<Rightarrow> nat option"
    and lib_init :: "gtk_env \<Rightarrow> (gtk_state, unit) kprog"
    and new :: "gtk_env \<Rightarrow> (gtk_state, nat) kprog"
    and cb :: gtk_callback
    and reads :: "gtk_env \<Rightarrow> nat \<Rightarrow> wcall list"
  assumes init_resolves: "\<exists>s'. lib_init env s = Inr ((), s') \<and> real s' = dlsym env sym
      \<and> signal_handlers s' = signal_handlers s"
    and new_calls: "new env s = (case real s of None \<Rightarrow> Inl NullDeref
      | Some f \<Rightarrow> bindk (real_new env f) (\<lambda>w. seqk (g_signal_connect w ''key-press-event'' cb) (retk w)) s)"
    and cb_reads: "run_callback env w cb s = Inr (False, s\<lparr>wlog := wlog s @ reads env w\<rparr>)"
begin

lemma unresolved: "real s = None \<Longrightarrow> new env s = Inl NullDeref"
  by (simp add: new_calls)

lemma transparent:
  assumes "real s = Some f" and "real_new env f s = Inr (w, s1)" and "signal_handlers s1 w = []"
  shows "\<exists>s2. new env s = Inr (w, s2) \<and> wlog s2 = wlog s1
     \<and> signal_handlers s2 = (signal_handlers s1)(w := [(''key-press-event'', cb)])"
  using assms by (simp add: new_calls bindk_def seqk_def g_signal_connect_def modk_def retk_def)

lemma press_reads:
  assumes "signal_handlers s w = [(''key-press-event'', cb)]"
  shows "g_signal_emit env w ''key-press-event'' s = Inr (False, s\<lparr>wlog := wlog s @ reads env w\<rparr>)"
  using assms by (simp add: g_signal_emit_def bindk_def readk_def retk_def cb_reads)

end

interpretation entry: interposer "''gtk_entry_new''" gtk_entry_new_real gtkentry_init gtk_entry_new
    cb_gtk_entry_key_press_event "\<lambda>env w. [EntryGetText w]"
  by unfold_locales
     (auto simp: gtkentry_init_def gtk_entry_new_def entry_key_press_def wemit_def kprog_simps
        seqk_def bindk_def split: option.split)

interpretation text_view: interposer "''gtk_text_view_new''" gtk_text_view_new_real gtktextview_init
    gtk_text_view_new cb_gtk_text_view_key_press_event
    "\<lambda>env w. [TextBufferGetText (view_buffer env w) (buffer_start_iter env (view_buffer env w))
       (buffer_end_iter env (view_buffer env w)) True]"
  by unfold_locales
     (auto simp: gtktextview_init_def gtk_text_view_new_def text_view_key_press_def wemit_def kprog_simps
        seqk_def bindk_def Let_def split: option.split)

section \<open>Properties\<close>


definition demo_gtk_env :: gtk_env where
  "demo_gtk_env = \<lparr>dlsym = (\<lambda>n. if n = ''gtk_entry_new'' then Some 4096 else Some 8192),
     real_new = (\<lambda>f s. Inr (f + 7, s)), view_buffer = (\<lambda>w. w + 1), buffer_start_iter = (\<lambda>b. 0),
     buffer_end_iter = (\<lambda>b. 12)\<rparr>"

definition demo_gtk_state :: gtk_state where
  "demo_gtk_state = \<lparr>gtk_entry_new_real = Some 4096, gtk_text_view_new_real = Some 8192,
     signal_handlers = (\<lambda>_. []), wlog = []\<rparr>"


text \<open>
  A library whose symbol does not resolve reports it and stays in place: the program's next
  call of the constructor follows a null pointer.
\<close>

theorem unresolved_constructor_crashes:
  assumes "dlsym env ''gtk_entry_new'' = None" and "dlsym env ''gtk_text_view_new'' = None"
  shows "seqk (gtkentry_init env) (gtk_entry_new env) s = Inl NullDeref
     \<and> seqk (gtktextview_init env) (gtk_text_view_new env) s = Inl NullDeref"
  using entry.init_resolves [of env s] text_view.init_resolves [of env s] assms
  by (auto simp: seqk_def bindk_def entry.unresolved text_view.unresolved)

theorem unresolved_constructor_crashes_witness:
  "seqk (gtkentry_init (demo_gtk_env\<lparr>dlsym := \<lambda>_. None\<rparr>)) (gtk_entry_new (demo_gtk_env\<lparr>dlsym := \<lambda>_. None\<rparr>))
      demo_gtk_state = Inl NullDeref
   \<and> seqk (gtktextview_init (demo_gtk_env\<lparr>dlsym := \<lambda>_. None\<rparr>)) (gtk_text_view_new (demo_gtk_env\<lparr>dlsym := \<lambda>_. None\<rparr>))
      demo_gtk_state = Inl NullDeref"
  by (rule unresolved_constructor_crashes) simp_all

end
